(* ===== verification/Rust_Prelude.thy ===== *)
theory Rust_Prelude
  imports Main "HOL-Library.Word"
begin

text \<open>
  What every component shares: machine integers at the widths of the source
  (\<open>usize\<close> is taken at 64 bits, the width of the targets the crates are built for),
  panics as values of a sum type, the \<open>strict_*\<close> and \<open>checked_*\<close> arithmetic of the
  standard library, and the \<open>Iterator\<close> protocol (\<open>next\<close>, \<open>nth\<close>, bounded pulls)
  as explicit state passing.
\<close>

section \<open>Machine integers\<close>

type_synonym u8 = "8 word"
type_synonym u16 = "16 word"
type_synonym u32 = "32 word"
type_synonym u64 = "64 word"
type_synonym usize = "64 word"

named_theorems rust_simps \<open>unfolding of the panic sum and of the strict operations\<close>

section \<open>Panics\<close>

text \<open>\<open>UB\<close> is not a panic: it marks the point where unsafe code would leave its contract.\<close>

datatype panic =
    Overflow
  | UnwrapNone
  | UnwrapErr
  | AssertFailed
  | SliceIndex
  | DivZero
  | UB

type_synonym 'a rust = "panic + 'a"

definition rbind :: "'a rust \<Rightarrow> ('a \<Rightarrow> 'b rust) \<Rightarrow> 'b rust" where
  "rbind m f = (case m of Inl p \<Rightarrow> Inl p | Inr x \<Rightarrow> f x)"

lemma rbind_simps [simp]:
  "rbind (Inl p) f = Inl p"
  "rbind (Inr x) f = f x"
  by (simp_all add: rbind_def)

lemma rbind_assoc: "rbind (rbind m f) g = rbind m (\<lambda>x. rbind (f x) g)"
  by (cases m) simp_all

lemma rbind_eq_Inr_iff [rust_simps]:
  "rbind m f = Inr y \<longleftrightarrow> (\<exists>x. m = Inr x \<and> f x = Inr y)"
  by (cases m) simp_all

lemma Inr_eq_rbind_iff [rust_simps]:
  "Inr y = rbind m f \<longleftrightarrow> (\<exists>x. m = Inr x \<and> f x = Inr y)"
  by (cases m) auto

lemma rbind_eq_Inl_iff [rust_simps]:
  "rbind m f = Inl p \<longleftrightarrow> m = Inl p \<or> (\<exists>x. m = Inr x \<and> f x = Inl p)"
  by (cases m) simp_all

lemma rbind_cong [fundef_cong]:
  "m = m' \<Longrightarrow> (\<And>x. m' = Inr x \<Longrightarrow> f x = f' x) \<Longrightarrow> rbind m f = rbind m' f'"
  by (cases m') simp_all

definition unwrap :: "'a option \<Rightarrow> 'a rust" where
  "unwrap x = (case x of None \<Rightarrow> Inl UnwrapNone | Some v \<Rightarrow> Inr v)"

definition unwrap_ok :: "'e + 'a \<Rightarrow> 'a rust" where
  "unwrap_ok x = (case x of Inl e \<Rightarrow> Inl UnwrapErr | Inr v \<Rightarrow> Inr v)"

lemma unwrap_simps [simp]:
  "unwrap None = Inl UnwrapNone" "unwrap (Some v) = Inr v"
  by (simp_all add: unwrap_def)

lemma unwrap_ok_simps [simp]:
  "unwrap_ok (Inl e) = Inl UnwrapErr" "unwrap_ok (Inr v) = Inr v"
  by (simp_all add: unwrap_ok_def)

section \<open>Strict and checked arithmetic\<close>

definition strict_add :: "'a::len word \<Rightarrow> 'a word \<Rightarrow> 'a word rust" where
  "strict_add a b = (if unat a + unat b < 2 ^ LENGTH('a) then Inr (a + b) else Inl Overflow)"

definition strict_sub :: "'a::len word \<Rightarrow> 'a word \<Rightarrow> 'a word rust" where
  "strict_sub a b = (if unat b \<le> unat a then Inr (a - b) else Inl Overflow)"

definition strict_mul :: "'a::len word \<Rightarrow> 'a word \<Rightarrow> 'a word rust" where
  "strict_mul a b = (if unat a * unat b < 2 ^ LENGTH('a) then Inr (a * b) else Inl Overflow)"

definition strict_div :: "'a::len word \<Rightarrow> 'a word \<Rightarrow> 'a word rust" where
  "strict_div a b = (if b = 0 then Inl DivZero else Inr (a div b))"

definition checked_add :: "'a::len word \<Rightarrow> 'a word \<Rightarrow> 'a word option" where
  "checked_add a b = (if unat a + unat b < 2 ^ LENGTH('a) then Some (a + b) else None)"

definition checked_mul :: "'a::len word \<Rightarrow> 'a word \<Rightarrow> 'a word option" where
  "checked_mul a b = (if unat a * unat b < 2 ^ LENGTH('a) then Some (a * b) else None)"

text \<open>\<open>NonZero::new\<close>\<close>

definition nonzero_new :: "'a::len word \<Rightarrow> 'a word option" where
  "nonzero_new x = (if x = 0 then None else Some x)"

text \<open>\<open>u64::checked_signed_diff\<close>: the difference as an \<open>i64\<close>, when it fits.\<close>

definition checked_signed_diff :: "u64 \<Rightarrow> u64 \<Rightarrow> int option" where
  "checked_signed_diff a b =
     (let d = int (unat a) - int (unat b)
      in if - (2 ^ 63) \<le> d \<and> d < 2 ^ 63 then Some d else None)"

lemma strict_add_eq_Inr_iff [rust_simps]:
  "strict_add a b = Inr c \<longleftrightarrow> unat c = unat a + unat b"
  for a b c :: "'a::len word"
proof (cases "unat a + unat b < 2 ^ LENGTH('a)")
  case True
  then have "unat (a + b) = unat a + unat b" by (metis unat_add_lem)
  with True show ?thesis by (auto simp: strict_add_def word_unat_eq_iff)
next
  case False
  moreover have "unat c < 2 ^ LENGTH('a)" by (rule unsigned_less)
  ultimately have "unat c \<noteq> unat a + unat b" by linarith
  with False show ?thesis by (simp add: strict_add_def)
qed

lemma strict_sub_eq_Inr_iff [rust_simps]:
  "strict_sub a b = Inr c \<longleftrightarrow> unat b \<le> unat a \<and> unat c = unat a - unat b"
  for a b c :: "'a::len word"
  by (auto simp: strict_sub_def word_unat_eq_iff unat_sub word_le_nat_alt)

lemma strict_mul_eq_Inr_iff [rust_simps]:
  "strict_mul a b = Inr c \<longleftrightarrow> unat c = unat a * unat b"
  for a b c :: "'a::len word"
proof (cases "unat a * unat b < 2 ^ LENGTH('a)")
  case True
  then have "unat (a * b) = unat a * unat b" by (metis unat_mult_lem)
  with True show ?thesis by (auto simp: strict_mul_def word_unat_eq_iff)
next
  case False
  moreover have "unat c < 2 ^ LENGTH('a)" by (rule unsigned_less)
  ultimately have "unat c \<noteq> unat a * unat b" by linarith
  with False show ?thesis by (simp add: strict_mul_def)
qed

lemma strict_add_eq_Inl_iff [rust_simps]:
  "strict_add a b = Inl p \<longleftrightarrow> p = Overflow \<and> 2 ^ LENGTH('a) \<le> unat a + unat b"
  for a b :: "'a::len word"
  by (auto simp: strict_add_def)

lemma strict_sub_eq_Inl_iff [rust_simps]:
  "strict_sub a b = Inl p \<longleftrightarrow> p = Overflow \<and> unat a < unat b"
  by (auto simp: strict_sub_def)

lemma strict_mul_eq_Inl_iff [rust_simps]:
  "strict_mul a b = Inl p \<longleftrightarrow> p = Overflow \<and> 2 ^ LENGTH('a) \<le> unat a * unat b"
  for a b :: "'a::len word"
  by (auto simp: strict_mul_def)

lemma strict_ok:
  "unat a + unat b < 2 ^ LENGTH('a) \<Longrightarrow> strict_add a b = Inr (a + b)"
  "unat b \<le> unat a \<Longrightarrow> strict_sub a b = Inr (a - b)"
  "unat a * unat b < 2 ^ LENGTH('a) \<Longrightarrow> strict_mul a b = Inr (a * b)"
  for a b :: "'a::len word"
  by (simp_all add: strict_add_def strict_sub_def strict_mul_def)

lemma unat_of_nat_lt [simp]:
  "n < 2 ^ LENGTH('a) \<Longrightarrow> unat (of_nat n :: 'a::len word) = n"
  by (simp add: unat_of_nat)

lemma unat_plus_1:
  "Suc (unat i) < 2 ^ LENGTH('a) \<Longrightarrow> unat (i + 1) = Suc (unat i)" for i :: "'a::len word"
  using unat_add_lem [of i 1] by (cases "LENGTH('a) = 0") simp_all

lemma unat_ucast_wider:
  assumes "LENGTH('a) \<le> LENGTH('b)"
  shows "unat (ucast w :: 'b::len word) = unat (w :: 'a::len word)"
proof -
  have "unat w < 2 ^ LENGTH('a)" by (rule unsigned_less)
  also have "\<dots> \<le> 2 ^ LENGTH('b)" using assms by simp
  finally show ?thesis by (simp add: unsigned_ucast_eq take_bit_nat_eq_self)
qed

lemma checked_signed_diff_Some_iff:
  "checked_signed_diff a b = Some d \<longleftrightarrow>
     d = int (unat a) - int (unat b) \<and> - (2 ^ 63) \<le> d \<and> d < 2 ^ 63"
  by (auto simp: checked_signed_diff_def Let_def)

section \<open>Iterators\<close>

text \<open>
  An iterator is a state and its \<open>next\<close> function, which may panic. \<open>pull n\<close> is a consumer
  that calls \<open>next\<close> until it has \<open>n\<close> items or sees the end, as \<open>for\<close> loops over
  \<open>take(n)\<close> do; \<open>nth_default\<close> is the provided \<open>Iterator::nth\<close>.
\<close>

type_synonym ('s, 'a) next_fn = "'s \<Rightarrow> ('a option \<times> 's) rust"
type_synonym ('s, 'a) nth_fn = "'s \<Rightarrow> nat \<Rightarrow> ('a option \<times> 's) rust"

fun pull :: "('s, 'a) next_fn \<Rightarrow> nat \<Rightarrow> 's \<Rightarrow> ('a list \<times> 's) rust" where
  "pull nx 0 s = Inr ([], s)"
| "pull nx (Suc n) s =
     rbind (nx s) (\<lambda>(r, s').
       case r of
         None \<Rightarrow> Inr ([], s')
       | Some x \<Rightarrow> rbind (pull nx n s') (\<lambda>(xs, s''). Inr (x # xs, s'')))"

fun nth_default :: "('s, 'a) next_fn \<Rightarrow> ('s, 'a) nth_fn" where
  "nth_default nx s 0 = nx s"
| "nth_default nx s (Suc n) =
     rbind (nx s) (\<lambda>(r, s').
       case r of None \<Rightarrow> Inr (None, s') | Some x \<Rightarrow> nth_default nx s' n)"

definition list_next :: "('a list, 'a) next_fn" where
  "list_next xs = Inr (case xs of [] \<Rightarrow> (None, []) | y # ys \<Rightarrow> (Some y, ys))"

lemma list_next_simps [simp]:
  "list_next [] = Inr (None, [])"
  "list_next (y # ys) = Inr (Some y, ys)"
  by (simp_all add: list_next_def)

lemma nth_default_list:
  "nth_default list_next xs n = list_next (drop n xs)"
proof (induction n arbitrary: xs)
  case 0
  then show ?case by simp
next
  case (Suc n)
  then show ?case by (cases xs) simp_all
qed

lemma pull_list: "pull list_next n xs = Inr (take n xs, drop n xs)"
proof (induction n arbitrary: xs)
  case 0
  then show ?case by simp
next
  case (Suc n)
  then show ?case by (cases xs) simp_all
qed

lemma pull_length: "pull nx n s = Inr (xs, s') \<Longrightarrow> length xs \<le> n"
proof (induction n arbitrary: s xs s')
  case 0
  then show ?case by simp
next
  case (Suc n)
  then show ?case
    by (fastforce simp: rust_simps split: option.splits)
qed

text \<open>
  A simulation between an iterator and the list of what it will still yield lifts from
  \<open>next\<close> to \<open>pull\<close>.
\<close>

lemma pull_simulates:
  assumes step: "\<And>s. R s \<Longrightarrow> \<exists>s'. nx s = Inr (if f s = [] then None else Some (hd (f s)), s')
      \<and> f s' = tl (f s) \<and> R s'"
    and "R s"
  shows "\<exists>s'. pull nx n s = Inr (take n (f s), s') \<and> R s' \<and> f s' = drop n (f s)"
  using \<open>R s\<close>
proof (induction n arbitrary: s)
  case 0
  then show ?case by auto
next
  case (Suc n)
  from step [OF Suc.prems] obtain s1 where
    s1: "nx s = Inr (if f s = [] then None else Some (hd (f s)), s1)" "f s1 = tl (f s)" "R s1"
    by blast
  show ?case
  proof (cases "f s")
    case Nil
    with s1 show ?thesis by auto
  next
    case (Cons x xs)
    from Suc.IH [OF s1(3)] obtain s2 where
      "pull nx n s1 = Inr (take n (f s1), s2)" "R s2" "f s2 = drop n (f s1)" by blast
    with s1 Cons show ?thesis by auto
  qed
qed

section \<open>Lists\<close>

lemma map_upt_drop: "drop k (map f [m..<n]) = map f [m + k..<n]"
  by (simp add: drop_map)

lemma map_upt_take: "take k (map f [m..<n]) = map f [m..<min n (m + k)]"
proof (cases "m + k \<le> n")
  case True
  then show ?thesis by (simp add: take_map min_def)
next
  case False
  then show ?thesis by (simp add: take_map min_def)
qed

text \<open>Padding in front, or skipping, aligns a list that starts at \<open>c\<close> to index \<open>i\<close>.\<close>

lemma shifted_nth:
  assumes "j < length (take k (map pad [0..<c - i] @ drop (i - c) q))"
  shows "take k (map pad [0..<c - i] @ drop (i - c) q) ! j = (if i + j < c then pad j else q ! (i + j - c))"
proof -
  have "length (take k (map pad [0..<c - i] @ drop (i - c) q)) = min (c - i + (length q - (i - c))) k"
    by (simp only: length_take length_append length_map length_upt length_drop) simp
  then have "j < k" "j < c - i + (length q - (i - c))" using assms by linarith+
  moreover have "i - c + j - (c - i) = i + j - c" if "\<not> i + j < c" using that by linarith
  ultimately show ?thesis by (auto simp: nth_append)
qed

lemma shifted_length:
  "length (take k (map pad [0..<c - i] @ drop (i - c) q)) = min k (c + length q - i)"
  by auto

end
