(* ===== verification/Counters.thy ===== *)
theory Counters
  imports Rust_Prelude
begin

text \<open>
  The counters of \<open>syfala_utils/src/queue.rs\<close>: the \<open>Counter\<close> trait as the locale
  \<open>counter_laws\<close> (its documentation promises that \<open>advance(delta)\<close> moves \<open>current()\<close>
  by exactly \<open>delta\<close>), \<open>GenericCounter\<close>, the \<open>Waker\<close> implementations, and
  \<open>PeriodicCounter\<close>, which wraps a counter and wakes its waker with the number of period
  boundaries each advance crosses. A \<open>PeriodicCounter\<close> over a lawful counter is lawful
  (a \<open>sublocale\<close>), and over a whole run its wake-ups add up to the boundaries below
  the counter's final position.
\<close>

section \<open>Definitions\<close>

record GenericCounter =
  gc_value :: u64

definition GenericCounter_new :: GenericCounter where
  "GenericCounter_new = \<lparr>gc_value = 0\<rparr>"

definition GenericCounter_advance :: "GenericCounter \<Rightarrow> usize \<Rightarrow> GenericCounter rust" where
  "GenericCounter_advance c delta =
     rbind (strict_add (gc_value c) delta) (\<lambda>v. Inr (c\<lparr>gc_value := v\<rparr>))"

definition GenericCounter_current :: "GenericCounter \<Rightarrow> u64" where
  "GenericCounter_current c = gc_value c"

text \<open>
  \<open>Waker\<close> for \<open>()\<close> does nothing; for a \<open>Thread\<close> it unparks, which makes the thread's
  park token available whatever the number of wake-ups.
\<close>

definition unit_wake :: "unit \<Rightarrow> usize \<Rightarrow> unit" where
  "unit_wake w n = w"

record Thread =
  park_token :: bool

definition Thread_wake :: "Thread \<Rightarrow> usize \<Rightarrow> Thread" where
  "Thread_wake w n = w\<lparr>park_token := True\<rparr>"

record ('c, 'w) PeriodicCounter =
  pc_counter :: 'c
  pc_waker :: 'w
  pc_period :: usize  \<comment> \<open>\<open>NonZeroUsize\<close>\<close>

definition PeriodicCounter_new :: "usize \<Rightarrow> 'c \<Rightarrow> 'w \<Rightarrow> ('c, 'w) PeriodicCounter" where
  "PeriodicCounter_new period counter waker =
     \<lparr>pc_counter = counter, pc_waker = waker, pc_period = period\<rparr>"

definition PeriodicCounter_period :: "('c, 'w) PeriodicCounter \<Rightarrow> usize" where
  "PeriodicCounter_period p = pc_period p"

definition PeriodicCounter_boundaries_crossed ::
  "('c \<Rightarrow> u64) \<Rightarrow> ('c, 'w) PeriodicCounter \<Rightarrow> u64" where
  "PeriodicCounter_boundaries_crossed current p =
     current (pc_counter p) div PeriodicCounter_period p"

definition PeriodicCounter_advance ::
  "('c \<Rightarrow> usize \<Rightarrow> 'c rust) \<Rightarrow> ('c \<Rightarrow> u64) \<Rightarrow> ('w \<Rightarrow> usize \<Rightarrow> 'w) \<Rightarrow>
   ('c, 'w) PeriodicCounter \<Rightarrow> usize \<Rightarrow> ('c, 'w) PeriodicCounter rust" where
  "PeriodicCounter_advance advance current wake p n =
     (let b = PeriodicCounter_boundaries_crossed current p in
      rbind (advance (pc_counter p) n) (\<lambda>c.
        let p1 = p\<lparr>pc_counter := c\<rparr> in
        rbind (strict_sub (PeriodicCounter_boundaries_crossed current p1) b) (\<lambda>k.
          Inr (if k \<noteq> 0 then p1\<lparr>pc_waker := wake (pc_waker p1) k\<rparr> else p1))))"

definition PeriodicCounter_current :: "('c \<Rightarrow> u64) \<Rightarrow> ('c, 'w) PeriodicCounter \<Rightarrow> u64" where
  "PeriodicCounter_current current p = current (pc_counter p)"

text \<open>A client that advances a counter several times, stopping at a panic.\<close>

fun advance_all :: "('c \<Rightarrow> usize \<Rightarrow> 'c rust) \<Rightarrow> 'c \<Rightarrow> usize list \<Rightarrow> 'c rust" where
  "advance_all advance c [] = Inr c"
| "advance_all advance c (d # ds) = rbind (advance c d) (\<lambda>c'. advance_all advance c' ds)"

text \<open>A waker that records every call, to state what a waker is told.\<close>

definition log_wake :: "usize list \<Rightarrow> usize \<Rightarrow> usize list" where
  "log_wake w n = w @ [n]"

section \<open>The contract of a counter\<close>

locale counter_laws =
  fixes advance :: "'c \<Rightarrow> usize \<Rightarrow> 'c rust"
    and current :: "'c \<Rightarrow> u64"
  assumes advance_exact:
      "advance c d = Inr c' \<Longrightarrow> unat (current c') = unat (current c) + unat d"
    and advance_returns:
      "unat (current c) + unat d < 2 ^ 64 \<Longrightarrow> \<exists>c'. advance c d = Inr c'"
begin

lemma advance_returns_iff:
  "(\<exists>c'. advance c d = Inr c') \<longleftrightarrow> unat (current c) + unat d < 2 ^ 64"
proof
  assume "\<exists>c'. advance c d = Inr c'"
  then obtain c' where "unat (current c') = unat (current c) + unat d"
    using advance_exact by blast
  moreover have "unat (current c') < 2 ^ LENGTH(64)" by (rule unsigned_less)
  ultimately show "unat (current c) + unat d < 2 ^ 64" by simp
qed (rule advance_returns)

lemma advance_mono: "advance c d = Inr c' \<Longrightarrow> current c \<le> current c'"
  by (drule advance_exact) (simp add: word_le_nat_alt)

lemma advance_all_exact:
  "advance_all advance c ds = Inr c' \<Longrightarrow>
     unat (current c') = unat (current c) + sum_list (map unat ds)"
  by (induction ds arbitrary: c) (auto simp: rust_simps dest: advance_exact)

lemma advance_all_returns:
  "unat (current c) + sum_list (map unat ds) < 2 ^ 64 \<Longrightarrow> \<exists>c'. advance_all advance c ds = Inr c'"
proof (induction ds arbitrary: c)
  case Nil
  then show ?case by simp
next
  case (Cons d ds)
  then obtain c1 where c1: "advance c d = Inr c1" using advance_returns [of c d] by auto
  with Cons.prems have "unat (current c1) + sum_list (map unat ds) < 2 ^ 64"
    using advance_exact by fastforce
  with Cons.IH c1 show ?case by auto
qed

end

locale periodic_laws = counter_laws advance current
  for advance :: "'c \<Rightarrow> usize \<Rightarrow> 'c rust" and current :: "'c \<Rightarrow> u64" +
  fixes wake :: "'w \<Rightarrow> usize \<Rightarrow> 'w"
begin

lemma boundaries_mono:
  assumes "advance (pc_counter p) n = Inr c"
  shows "unat (PeriodicCounter_boundaries_crossed current p)
    \<le> unat (PeriodicCounter_boundaries_crossed current (p\<lparr>pc_counter := c\<rparr>))"
proof -
  have "unat (current (pc_counter p)) \<le> unat (current c)"
    using advance_mono [OF assms] by (simp add: word_le_nat_alt)
  then show ?thesis
    by (simp add: PeriodicCounter_boundaries_crossed_def PeriodicCounter_period_def
        unat_div div_le_mono)
qed

text \<open>One advance: the inner counter moves, and the waker is told the new boundaries, once.\<close>

lemma periodic_advance_eq:
  "PeriodicCounter_advance advance current wake p n =
     rbind (advance (pc_counter p) n) (\<lambda>c.
       let p1 = p\<lparr>pc_counter := c\<rparr>;
           k = PeriodicCounter_boundaries_crossed current p1
               - PeriodicCounter_boundaries_crossed current p
       in Inr (if k \<noteq> 0 then p1\<lparr>pc_waker := wake (pc_waker p) k\<rparr> else p1))"
proof (cases "advance (pc_counter p) n")
  case (Inl e)
  then show ?thesis by (simp add: PeriodicCounter_advance_def)
next
  case (Inr c)
  then show ?thesis
    using boundaries_mono [OF Inr]
    by (simp add: PeriodicCounter_advance_def Let_def strict_sub_def)
qed

lemma periodic_counter_laws:
  "counter_laws (PeriodicCounter_advance advance current wake) (PeriodicCounter_current current)"
proof unfold_locales
  fix c c' :: "('c, 'w) PeriodicCounter" and d :: usize
  assume "PeriodicCounter_advance advance current wake c d = Inr c'"
  then obtain k where "advance (pc_counter c) d = Inr k" and "pc_counter c' = k"
    by (auto simp: periodic_advance_eq Let_def rust_simps)
  then show "unat (PeriodicCounter_current current c') =
      unat (PeriodicCounter_current current c) + unat d"
    using advance_exact by (simp add: PeriodicCounter_current_def)
next
  fix c :: "('c, 'w) PeriodicCounter" and d :: usize
  assume "unat (PeriodicCounter_current current c) + unat d < 2 ^ 64"
  then obtain k where "advance (pc_counter c) d = Inr k"
    using advance_returns [of "pc_counter c" d] by (auto simp: PeriodicCounter_current_def)
  then show "\<exists>c'. PeriodicCounter_advance advance current wake c d = Inr c'"
    by (simp add: periodic_advance_eq Let_def)
qed

end

sublocale periodic_laws \<subseteq> periodic: counter_laws
  "PeriodicCounter_advance advance current wake" "PeriodicCounter_current current"
  by (rule periodic_counter_laws)

section \<open>The implementations satisfy it\<close>

interpretation generic: counter_laws GenericCounter_advance GenericCounter_current
  by unfold_locales
    (auto simp: GenericCounter_advance_def GenericCounter_current_def strict_ok rust_simps)

interpretation generic_log: periodic_laws GenericCounter_advance GenericCounter_current log_wake
  by unfold_locales

interpretation generic_thread: periodic_laws GenericCounter_advance GenericCounter_current Thread_wake
  by unfold_locales

interpretation generic_unit: periodic_laws GenericCounter_advance GenericCounter_current unit_wake
  by unfold_locales

section \<open>Wake-ups of a whole run\<close>

lemma log_advance_step:
  assumes "PeriodicCounter_advance GenericCounter_advance GenericCounter_current log_wake p n = Inr p'"
  shows "pc_period p' = pc_period p"
    and "sum_list (map unat (pc_waker p')) =
       sum_list (map unat (pc_waker p))
       + (unat (PeriodicCounter_boundaries_crossed GenericCounter_current p')
          - unat (PeriodicCounter_boundaries_crossed GenericCounter_current p))"
    and "0 \<notin> set (pc_waker p) \<Longrightarrow> 0 \<notin> set (pc_waker p')"
    and "unat (PeriodicCounter_boundaries_crossed GenericCounter_current p)
       \<le> unat (PeriodicCounter_boundaries_crossed GenericCounter_current p')"
proof -
  let ?b = "PeriodicCounter_boundaries_crossed GenericCounter_current"
  from assms obtain c where c: "GenericCounter_advance (pc_counter p) n = Inr c"
    and p': "p' = (let p1 = p\<lparr>pc_counter := c\<rparr>; k = ?b p1 - ?b p
       in if k \<noteq> 0 then p1\<lparr>pc_waker := log_wake (pc_waker p) k\<rparr> else p1)"
    by (auto simp: generic_log.periodic_advance_eq Let_def rust_simps)
  have bp': "?b p' = ?b (p\<lparr>pc_counter := c\<rparr>)"
    by (simp add: p' Let_def PeriodicCounter_boundaries_crossed_def PeriodicCounter_period_def)
  have le: "unat (?b p) \<le> unat (?b p')"
    using generic_log.boundaries_mono [OF c] by (simp add: bp')
  then have diff: "unat (?b p' - ?b p) = unat (?b p') - unat (?b p)"
    by (simp add: unat_sub word_le_nat_alt)
  show "pc_period p' = pc_period p" by (simp add: p' Let_def)
  show "0 \<notin> set (pc_waker p) \<Longrightarrow> 0 \<notin> set (pc_waker p')"
    by (auto simp: p' Let_def log_wake_def)
  show "unat (?b p) \<le> unat (?b p')" by (rule le)
  show "sum_list (map unat (pc_waker p')) =
      sum_list (map unat (pc_waker p)) + (unat (?b p') - unat (?b p))"
  proof (cases "?b p' - ?b p = 0")
    case True
    with bp' show ?thesis using diff by (simp add: p' Let_def log_wake_def)
  next
    case False
    with bp' have "pc_waker p' = pc_waker p @ [?b p' - ?b p]"
      by (simp add: p' Let_def log_wake_def)
    with diff show ?thesis by simp
  qed
qed

lemma log_advance_all:
  assumes "advance_all (PeriodicCounter_advance GenericCounter_advance GenericCounter_current log_wake)
      p ds = Inr p'"
  shows "pc_period p' = pc_period p
    \<and> unat (PeriodicCounter_boundaries_crossed GenericCounter_current p)
       \<le> unat (PeriodicCounter_boundaries_crossed GenericCounter_current p')
    \<and> sum_list (map unat (pc_waker p')) = sum_list (map unat (pc_waker p))
       + (unat (PeriodicCounter_boundaries_crossed GenericCounter_current p')
          - unat (PeriodicCounter_boundaries_crossed GenericCounter_current p))
    \<and> (0 \<notin> set (pc_waker p) \<longrightarrow> 0 \<notin> set (pc_waker p'))"
  using assms
proof (induction ds arbitrary: p)
  case Nil
  then show ?case by simp
next
  case (Cons d ds)
  then obtain p1 where p1:
    "PeriodicCounter_advance GenericCounter_advance GenericCounter_current log_wake p d = Inr p1"
    and rest: "advance_all (PeriodicCounter_advance GenericCounter_advance GenericCounter_current
      log_wake) p1 ds = Inr p'"
    by (auto simp: rust_simps)
  from Cons.IH [OF rest] log_advance_step [OF p1] show ?case by simp
qed

section \<open>Properties\<close>

text \<open>C21: However a run of advances is cut into pieces, a fresh \<open>PeriodicCounter\<close> over a
  \<open>GenericCounter\<close> returns from all of them when the total fits in 64 bits, its waker is
  never called for zero boundaries, and the wake-ups add up to the number of period
  boundaries below the counter's final position.\<close>

theorem periodic_wakes_account_for_boundaries:
  assumes "sum_list (map unat ds) < 2 ^ 64"
  shows "\<exists>p'. advance_all
      (PeriodicCounter_advance GenericCounter_advance GenericCounter_current log_wake)
      (PeriodicCounter_new period GenericCounter_new []) ds = Inr p'
    \<and> unat (PeriodicCounter_current GenericCounter_current p') = sum_list (map unat ds)
    \<and> sum_list (map unat (pc_waker p')) = sum_list (map unat ds) div unat period
    \<and> 0 \<notin> set (pc_waker p')"
proof -
  let ?p = "PeriodicCounter_new period GenericCounter_new [] :: (GenericCounter, usize list) PeriodicCounter"
  have start: "unat (PeriodicCounter_current GenericCounter_current ?p) = 0"
    "unat (PeriodicCounter_boundaries_crossed GenericCounter_current ?p) = 0" "pc_waker ?p = []"
    "pc_period ?p = period"
    by (simp_all add: PeriodicCounter_new_def GenericCounter_new_def PeriodicCounter_current_def
        GenericCounter_current_def PeriodicCounter_boundaries_crossed_def)
  obtain p' where p': "advance_all
      (PeriodicCounter_advance GenericCounter_advance GenericCounter_current log_wake) ?p ds = Inr p'"
    using generic_log.periodic.advance_all_returns [of ?p ds] assms start by auto
  have cur: "unat (PeriodicCounter_current GenericCounter_current p') = sum_list (map unat ds)"
    using generic_log.periodic.advance_all_exact [OF p'] start by simp
  moreover have "unat (PeriodicCounter_boundaries_crossed GenericCounter_current p')
      = sum_list (map unat ds) div unat period"
    using cur log_advance_all [OF p'] start
    by (simp add: PeriodicCounter_boundaries_crossed_def PeriodicCounter_period_def
        PeriodicCounter_current_def unat_div)
  ultimately show ?thesis using p' log_advance_all [OF p'] start by auto
qed

theorem periodic_wakes_account_for_boundaries_witness:
  "sum_list (map unat [3, 5, 4 :: usize]) < 2 ^ 64 \<and>
   (\<exists>p'. advance_all
      (PeriodicCounter_advance GenericCounter_advance GenericCounter_current log_wake)
      (PeriodicCounter_new 4 GenericCounter_new []) [3, 5, 4] = Inr p'
    \<and> unat (PeriodicCounter_current GenericCounter_current p') = 12
    \<and> sum_list (map unat (pc_waker p')) = 3
    \<and> 0 \<notin> set (pc_waker p'))"
  using periodic_wakes_account_for_boundaries [of "[3, 5, 4]" 4] by simp

text \<open>Advancing a \<open>PeriodicCounter\<close> over a \<open>GenericCounter\<close> panics exactly when the
  position would leave 64 bits; otherwise it moves by exactly the requested amount and the
  thread's park token is set iff a period boundary was crossed.\<close>

lemma periodic_thread_advance:
  "PeriodicCounter_advance GenericCounter_advance GenericCounter_current Thread_wake p n =
     (let c = GenericCounter_current (pc_counter p) in
      if unat c + unat n < 2 ^ 64
      then Inr (p\<lparr>pc_counter := (pc_counter p)\<lparr>gc_value := c + n\<rparr>,
                  pc_waker := (if (unat c + unat n) div unat (pc_period p) = unat c div unat (pc_period p)
                               then pc_waker p else (pc_waker p)\<lparr>park_token := True\<rparr>)\<rparr>)
      else Inl Overflow)"
proof -
  let ?c = "gc_value (pc_counter p)"
  have "(?c + n) div pc_period p - ?c div pc_period p = 0 \<longleftrightarrow>
      (unat ?c + unat n) div unat (pc_period p) = unat ?c div unat (pc_period p)"
    if "unat ?c + unat n < 2 ^ 64"
    using that unat_add_lem [of ?c n] by (simp add: word_unat_eq_iff [of "_ div _" "_ div _"] unat_div)
  then show ?thesis
    by (auto simp: generic_thread.periodic_advance_eq GenericCounter_advance_def
        GenericCounter_current_def strict_add_def Thread_wake_def Let_def
        PeriodicCounter_boundaries_crossed_def PeriodicCounter_period_def)
qed

end
