(* ===== verification/Indexed_Queue.thy ===== *)
theory Indexed_Queue
  imports Counters
begin

text \<open>
  The indexed ring-buffer adapters of \<open>syfala_utils/src/queue.rs\<close>: \<open>shift_iter\<close>, the
  counting read iterator, \<open>IndexedRx::recv\<close> and \<open>IndexedTx::send\<close>. The ring buffer itself
  (crate \<open>rtrb\<close>) is a parameter: the two records of operations \<open>rtrb_producer\<close> and
  \<open>rtrb_consumer\<close>, with its documented behaviour as the hypotheses \<open>rtrb_producer_ok\<close>
  and \<open>rtrb_consumer_ok\<close> over an abstraction to the list of queued items. A closure
  \<open>pad_fn: FnMut() -> T\<close> is the sequence of its results, \<open>nat \<Rightarrow> 'a\<close>.
\<close>

section \<open>The ring buffer interface\<close>

datatype chunk_error = TooFewSlots usize

record ('q, 'c, 's, 'a) rtrb_producer =
  tx_slots :: "'q \<Rightarrow> usize"
  tx_write_chunk_uninit :: "'q \<Rightarrow> usize \<Rightarrow> chunk_error + 'c"
  tx_fill_from_iter :: "'c \<Rightarrow> ('s, 'a) next_fn \<Rightarrow> 's \<Rightarrow> (usize \<times> 'q \<times> 's) rust"
  tx_is_abandoned :: "'q \<Rightarrow> bool"

record ('q, 'c, 'i, 'a) rtrb_consumer =
  rx_slots :: "'q \<Rightarrow> usize"
  rx_read_chunk :: "'q \<Rightarrow> usize \<Rightarrow> chunk_error + 'c"
  rx_chunk_len :: "'c \<Rightarrow> usize"
  rx_chunk_into_iter :: "'c \<Rightarrow> 'i"
  rx_iter_next :: "'i \<Rightarrow> 'a option \<times> 'i"
  rx_iter_nth :: "'i \<Rightarrow> nat \<Rightarrow> 'a option \<times> 'i"
  rx_iter_len :: "'i \<Rightarrow> usize"
  rx_iter_drop :: "'i \<Rightarrow> 'q"
  rx_is_abandoned :: "'q \<Rightarrow> bool"

text \<open>
  Documented behaviour of the producer: a write chunk of any size up to \<open>slots()\<close> is
  granted, and \<open>fill_from_iter\<close> moves items from the iterator into it until the chunk is
  full or the iterator ends, makes the moved items readable and returns their number.
\<close>

definition rtrb_producer_ok ::
  "('q, 'c, 's, 'a) rtrb_producer \<Rightarrow> ('q \<Rightarrow> 'a list) \<Rightarrow> ('q \<Rightarrow> nat) \<Rightarrow> bool" where
  "rtrb_producer_ok P items cap \<longleftrightarrow>
     (\<forall>q. length (items q) + unat (tx_slots P q) = cap q) \<and>
     (\<forall>q n. unat n \<le> unat (tx_slots P q) \<longrightarrow>
        (\<exists>c. tx_write_chunk_uninit P q n = Inr c \<and>
          (\<forall>nx s e. pull nx (unat n) s = Inl e \<longrightarrow> tx_fill_from_iter P c nx s = Inl e) \<and>
          (\<forall>nx s xs s'. pull nx (unat n) s = Inr (xs, s') \<longrightarrow>
             (\<exists>q'. tx_fill_from_iter P c nx s = Inr (of_nat (length xs), q', s') \<and>
                items q' = items q @ xs \<and> cap q' = cap q))))"

text \<open>
  Documented behaviour of the consumer: a read chunk of any size up to \<open>slots()\<close> is
  granted, its iterator yields the oldest items in order, and when the iterator is dropped
  the items it has yielded (and only those) have left the queue.
\<close>

definition rtrb_consumer_ok ::
  "('q, 'c, 'i, 'a) rtrb_consumer \<Rightarrow> ('q \<Rightarrow> 'a list) \<Rightarrow> ('i \<Rightarrow> 'a list) \<Rightarrow> ('i \<Rightarrow> 'a list) \<Rightarrow> bool"
  where
  "rtrb_consumer_ok C items chunk rest \<longleftrightarrow>
     (\<forall>q. unat (rx_slots C q) = length (items q)) \<and>
     (\<forall>q n. unat n \<le> length (items q) \<longrightarrow>
        (\<exists>c. rx_read_chunk C q n = Inr c \<and> rx_chunk_len C c = n \<and>
          chunk (rx_chunk_into_iter C c) = take (unat n) (items q) \<and>
          rest (rx_chunk_into_iter C c) = drop (unat n) (items q))) \<and>
     (\<forall>i. \<exists>i'. rx_iter_next C i = (if chunk i = [] then None else Some (hd (chunk i)), i') \<and>
        chunk i' = tl (chunk i) \<and> rest i' = rest i) \<and>
     (\<forall>i n. \<exists>i'. rx_iter_nth C i n = (if n < length (chunk i) then Some (chunk i ! n) else None, i') \<and>
        chunk i' = drop (Suc n) (chunk i) \<and> rest i' = rest i) \<and>
     (\<forall>i. unat (rx_iter_len C i) = length (chunk i)) \<and>
     (\<forall>i. items (rx_iter_drop C i) = chunk i @ rest i)"

definition producer_get_all :: "('q, 'c, 's, 'a) rtrb_producer \<Rightarrow> 'q \<Rightarrow> 'c rust" where
  "producer_get_all P tx = unwrap_ok (tx_write_chunk_uninit P tx (tx_slots P tx))"

definition consumer_get_all :: "('q, 'c, 'i, 'a) rtrb_consumer \<Rightarrow> 'q \<Rightarrow> 'c rust" where
  "consumer_get_all C rx = unwrap_ok (rx_read_chunk C rx (rx_slots C rx))"

section \<open>Shifted iterators\<close>

text \<open>
  \<open>iter::chain(repeat_with(pad_fn).take(padding), it.skip(skipping))\<close>: what is left of
  the \<open>Take\<close>, how often \<open>pad_fn\<close> was called, what is left of the \<open>Skip\<close>, and the
  inner iterator. A \<open>Skip\<close> with something left to skip calls \<open>nth\<close>.
\<close>

record 's ShiftIter =
  si_padding :: nat
  si_pad_calls :: nat
  si_skipping :: nat
  si_inner :: 's

definition shift_iter :: "'s \<Rightarrow> int \<Rightarrow> 's ShiftIter" where
  "shift_iter it deviation =
     (let n = nat \<bar>deviation\<bar>;
          padding = (if deviation < 0 then n else 0);
          skipping = (if deviation < 0 then 0 else n)
      in \<lparr>si_padding = padding, si_pad_calls = 0, si_skipping = skipping, si_inner = it\<rparr>)"

definition shift_next ::
  "('s, 'a) next_fn \<Rightarrow> ('s, 'a) nth_fn \<Rightarrow> (nat \<Rightarrow> 'a) \<Rightarrow> ('s ShiftIter, 'a) next_fn" where
  "shift_next nx nt pad_fn st =
     (if 0 < si_padding st
      then Inr (Some (pad_fn (si_pad_calls st)),
                st\<lparr>si_padding := si_padding st - 1, si_pad_calls := Suc (si_pad_calls st)\<rparr>)
      else if 0 < si_skipping st
      then rbind (nt (si_inner st) (si_skipping st)) (\<lambda>(r, i).
             Inr (r, st\<lparr>si_skipping := 0, si_inner := i\<rparr>))
      else rbind (nx (si_inner st)) (\<lambda>(r, i). Inr (r, st\<lparr>si_inner := i\<rparr>)))"

section \<open>The counting read iterator\<close>

record ('k, 'i) ReadChunksIterCounter =
  rc_ticker :: 'k
  rc_iter :: 'i
  rc_initial_len :: usize

definition ReadChunksIterCounter_new ::
  "('q, 'c, 'i, 'a) rtrb_consumer \<Rightarrow> 'c \<Rightarrow> 'k \<Rightarrow> ('k, 'i) ReadChunksIterCounter" where
  "ReadChunksIterCounter_new C chunk ticker =
     \<lparr>rc_ticker = ticker, rc_iter = rx_chunk_into_iter C chunk, rc_initial_len = rx_chunk_len C chunk\<rparr>"

definition ReadChunksIterCounter_next ::
  "('q, 'c, 'i, 'a) rtrb_consumer \<Rightarrow> (('k, 'i) ReadChunksIterCounter, 'a) next_fn" where
  "ReadChunksIterCounter_next C s =
     Inr (case rx_iter_next C (rc_iter s) of (r, i) \<Rightarrow> (r, s\<lparr>rc_iter := i\<rparr>))"

definition ReadChunksIterCounter_nth ::
  "('q, 'c, 'i, 'a) rtrb_consumer \<Rightarrow> (('k, 'i) ReadChunksIterCounter, 'a) nth_fn" where
  "ReadChunksIterCounter_nth C s n =
     Inr (case rx_iter_nth C (rc_iter s) n of (r, i) \<Rightarrow> (r, s\<lparr>rc_iter := i\<rparr>))"

definition ReadChunksIterCounter_len ::
  "('q, 'c, 'i, 'a) rtrb_consumer \<Rightarrow> ('k, 'i) ReadChunksIterCounter \<Rightarrow> usize" where
  "ReadChunksIterCounter_len C s = rx_iter_len C (rc_iter s)"

text \<open>Dropping the iterator advances the counter it borrows and releases the chunk.\<close>

definition ReadChunksIterCounter_drop ::
  "('k \<Rightarrow> usize \<Rightarrow> 'k rust) \<Rightarrow> ('q, 'c, 'i, 'a) rtrb_consumer \<Rightarrow>
   ('k, 'i) ReadChunksIterCounter \<Rightarrow> ('k \<times> 'q) rust" where
  "ReadChunksIterCounter_drop advance C s =
     rbind (strict_sub (rc_initial_len s) (rx_iter_len C (rc_iter s))) (\<lambda>n.
     rbind (advance (rc_ticker s) n) (\<lambda>k. Inr (k, rx_iter_drop C (rc_iter s))))"

section \<open>The indexed endpoints\<close>

record ('k, 'q) IndexedRx =
  irx_rx :: 'q
  irx_counter :: 'k

definition IndexedRx_new :: "'q \<Rightarrow> 'k \<Rightarrow> ('k, 'q) IndexedRx" where
  "IndexedRx_new rx counter = \<lparr>irx_rx = rx, irx_counter = counter\<rparr>"

definition IndexedRx_recv ::
  "('k \<Rightarrow> u64) \<Rightarrow> ('q, 'c, 'i, 'a) rtrb_consumer \<Rightarrow> ('k, 'q) IndexedRx \<Rightarrow> u64 \<Rightarrow>
   ('k, 'i) ReadChunksIterCounter ShiftIter rust" where
  "IndexedRx_recv current C self idx =
     rbind (unwrap (checked_signed_diff idx (current (irx_counter self)))) (\<lambda>deviation.
     rbind (consumer_get_all C (irx_rx self)) (\<lambda>in_samples.
       Inr (shift_iter (ReadChunksIterCounter_new C in_samples (irx_counter self)) deviation)))"

definition IndexedRx_current :: "('k \<Rightarrow> u64) \<Rightarrow> ('k, 'q) IndexedRx \<Rightarrow> u64" where
  "IndexedRx_current current self = current (irx_counter self)"

definition IndexedRx_available_slots ::
  "('q, 'c, 'i, 'a) rtrb_consumer \<Rightarrow> ('k, 'q) IndexedRx \<Rightarrow> usize" where
  "IndexedRx_available_slots C self = rx_slots C (irx_rx self)"

definition IndexedRx_is_abandoned ::
  "('q, 'c, 'i, 'a) rtrb_consumer \<Rightarrow> ('k, 'q) IndexedRx \<Rightarrow> bool" where
  "IndexedRx_is_abandoned C self = rx_is_abandoned C (irx_rx self)"

text \<open>A caller that pulls at most \<open>k\<close> items from the returned iterator and drops it.\<close>

definition recv_take ::
  "('k \<Rightarrow> usize \<Rightarrow> 'k rust) \<Rightarrow> ('k \<Rightarrow> u64) \<Rightarrow> ('q, 'c, 'i, 'a) rtrb_consumer \<Rightarrow>
   ('k, 'q) IndexedRx \<Rightarrow> u64 \<Rightarrow> (nat \<Rightarrow> 'a) \<Rightarrow> nat \<Rightarrow> ('a list \<times> ('k, 'q) IndexedRx) rust" where
  "recv_take advance current C self idx pad_fn k =
     rbind (IndexedRx_recv current C self idx) (\<lambda>it.
     rbind (pull (shift_next (ReadChunksIterCounter_next C) (ReadChunksIterCounter_nth C) pad_fn) k it)
       (\<lambda>(xs, it').
     rbind (ReadChunksIterCounter_drop advance C (si_inner it')) (\<lambda>(c, q).
       Inr (xs, self\<lparr>irx_rx := q, irx_counter := c\<rparr>))))"

record ('k, 'q) IndexedTx =
  itx_counter :: 'k
  itx_tx :: 'q

definition IndexedTx_new :: "'q \<Rightarrow> 'k \<Rightarrow> ('k, 'q) IndexedTx" where
  "IndexedTx_new tx counter = \<lparr>itx_counter = counter, itx_tx = tx\<rparr>"

definition IndexedTx_send ::
  "('k \<Rightarrow> usize \<Rightarrow> 'k rust) \<Rightarrow> ('k \<Rightarrow> u64) \<Rightarrow> ('q, 'c, 's ShiftIter, 'a) rtrb_producer \<Rightarrow>
   ('k, 'q) IndexedTx \<Rightarrow> u64 \<Rightarrow> ('s, 'a) next_fn \<Rightarrow> 's \<Rightarrow> (nat \<Rightarrow> 'a) \<Rightarrow>
   (('k, 'q) IndexedTx \<times> 's) rust" where
  "IndexedTx_send advance current P self idx nx values pad_fn =
     rbind (unwrap (checked_signed_diff (current (itx_counter self)) idx)) (\<lambda>deviation.
       let out_iter = shift_iter values deviation in
       rbind (producer_get_all P (itx_tx self)) (\<lambda>chunk.
       rbind (tx_fill_from_iter P chunk (shift_next nx (nth_default nx) pad_fn) out_iter)
         (\<lambda>(n_pushed_samples, q, out_iter').
       rbind (advance (itx_counter self) n_pushed_samples) (\<lambda>c.
         Inr (self\<lparr>itx_counter := c, itx_tx := q\<rparr>, si_inner out_iter')))))"

definition IndexedTx_current :: "('k \<Rightarrow> u64) \<Rightarrow> ('k, 'q) IndexedTx \<Rightarrow> u64" where
  "IndexedTx_current current self = current (itx_counter self)"

definition IndexedTx_available_slots ::
  "('q, 'c, 's, 'a) rtrb_producer \<Rightarrow> ('k, 'q) IndexedTx \<Rightarrow> usize" where
  "IndexedTx_available_slots P self = tx_slots P (itx_tx self)"

definition IndexedTx_is_abandoned ::
  "('q, 'c, 's, 'a) rtrb_producer \<Rightarrow> ('k, 'q) IndexedTx \<Rightarrow> bool" where
  "IndexedTx_is_abandoned P self = tx_is_abandoned P (itx_tx self)"

section \<open>Iterators that yield a known list\<close>

text \<open>
  The contract a shifted iterator relies on: \<open>next\<close> and \<open>nth\<close> walk down a list, and
  leave alone whatever else the state holds (\<open>frame\<close>).
\<close>

locale list_iter =
  fixes nx :: "('s, 'a) next_fn"
    and nt :: "('s, 'a) nth_fn"
    and items :: "'s \<Rightarrow> 'a list"
    and frame :: "'s \<Rightarrow> 'f"
  assumes next_items: "\<exists>s'. nx s = Inr (if items s = [] then None else Some (hd (items s)), s')
      \<and> items s' = tl (items s) \<and> frame s' = frame s"
    and nth_items: "\<exists>s'. nt s n = Inr (if n < length (items s) then Some (items s ! n) else None, s')
      \<and> items s' = drop (Suc n) (items s) \<and> frame s' = frame s"
begin

definition yields :: "(nat \<Rightarrow> 'a) \<Rightarrow> 's ShiftIter \<Rightarrow> 'a list" where
  "yields pad st =
     map pad [si_pad_calls st..<si_pad_calls st + si_padding st] @ drop (si_skipping st) (items (si_inner st))"

lemma shift_next_pad:
  "0 < si_padding st \<Longrightarrow> shift_next nx nt pad st =
     Inr (Some (pad (si_pad_calls st)),
          st\<lparr>si_padding := si_padding st - 1, si_pad_calls := Suc (si_pad_calls st)\<rparr>)"
  by (simp add: shift_next_def)

lemma shift_next_inner:
  assumes "si_padding st = 0"
  shows "\<exists>i. shift_next nx nt pad st =
      Inr (if yields pad st = [] then None else Some (hd (yields pad st)),
           st\<lparr>si_skipping := 0, si_inner := i\<rparr>)
    \<and> items i = drop (Suc (si_skipping st)) (items (si_inner st)) \<and> frame i = frame (si_inner st)"
proof (cases "si_skipping st = 0")
  case True
  then have upd: "st\<lparr>si_inner := i\<rparr> = st\<lparr>si_skipping := 0, si_inner := i\<rparr>" for i by (cases st) simp
  obtain i where "nx (si_inner st) = Inr (if items (si_inner st) = [] then None
      else Some (hd (items (si_inner st))), i)" "items i = tl (items (si_inner st))"
      "frame i = frame (si_inner st)"
    using next_items [of "si_inner st"] by blast
  with True assms upd [of i] show ?thesis
    by (intro exI [of _ i]) (simp add: shift_next_def yields_def drop_Suc)
next
  case False
  with assms nth_items [of "si_inner st" "si_skipping st"] show ?thesis
    by (auto simp: shift_next_def yields_def hd_drop_conv_nth)
qed

lemma pull_shift_next:
  "\<exists>st'. pull (shift_next nx nt pad) k st = Inr (take k (yields pad st), st')
    \<and> items (si_inner st') = (if k \<le> si_padding st then items (si_inner st)
         else drop (si_skipping st + (k - si_padding st)) (items (si_inner st)))
    \<and> frame (si_inner st') = frame (si_inner st)"
proof (induction k arbitrary: st)
  case 0
  then show ?case by simp
next
  case (Suc k)
  show ?case
  proof (cases "si_padding st")
    case 0
    from shift_next_inner [OF 0, of pad] obtain i where
      nx: "shift_next nx nt pad st =
        Inr (if yields pad st = [] then None else Some (hd (yields pad st)),
             st\<lparr>si_skipping := 0, si_inner := i\<rparr>)"
      and i: "items i = drop (Suc (si_skipping st)) (items (si_inner st))" "frame i = frame (si_inner st)"
      by blast
    let ?st = "st\<lparr>si_skipping := 0, si_inner := i\<rparr>"
    have tl: "yields pad ?st = tl (yields pad st)"
      using 0 i by (simp add: yields_def drop_Suc tl_drop)
    from Suc.IH [of ?st] obtain st' where st':
      "pull (shift_next nx nt pad) k ?st = Inr (take k (yields pad ?st), st')"
      "items (si_inner st') = drop k (items i)" "frame (si_inner st') = frame i"
      using 0 by (auto split: if_splits)
    show ?thesis
    proof (cases "yields pad st")
      case Nil
      with 0 have "items (si_inner st) = take (si_skipping st) (items (si_inner st))"
        by (simp add: yields_def)
      with Nil nx i 0 show ?thesis by (simp add: yields_def)
    next
      case (Cons y ys)
      with nx st' tl i 0 show ?thesis by (simp add: add.commute)
    qed
  next
    case (Suc m)
    let ?st = "st\<lparr>si_padding := m, si_pad_calls := Suc (si_pad_calls st)\<rparr>"
    have "yields pad st = pad (si_pad_calls st) # yields pad ?st"
      using Suc by (simp add: yields_def upt_conv_Cons del: upt_Suc)
    with Suc.IH [of ?st] Suc shift_next_pad [of st pad] show ?thesis by auto
  qed
qed

end

lemma list_next_drop:
  "list_next (drop n xs) = Inr (if n < length xs then Some (xs ! n) else None, drop (Suc n) xs)"
  by (cases "n < length xs") (simp_all add: Cons_nth_drop_Suc [symmetric])

interpretation vec: list_iter list_next "nth_default list_next" "\<lambda>xs. xs" "\<lambda>xs. ()"
proof unfold_locales
  fix s :: "'x list" and n
  show "\<exists>s'. list_next s = Inr (if s = [] then None else Some (hd s), s') \<and> s' = tl s \<and> () = ()"
    by (cases s) simp_all
  show "\<exists>s'. nth_default list_next s n = Inr (if n < length s then Some (s ! n) else None, s')
      \<and> s' = drop (Suc n) s \<and> () = ()"
    by (simp add: nth_default_list list_next_drop)
qed

lemma rtrb_list_iter:
  assumes "rtrb_consumer_ok C items chunk rest"
  shows "list_iter (ReadChunksIterCounter_next C :: (('k, 'i) ReadChunksIterCounter, 'a) next_fn)
     (ReadChunksIterCounter_nth C) (\<lambda>s. chunk (rc_iter s))
     (\<lambda>s. (rc_ticker s, rc_initial_len s, rest (rc_iter s)))"
proof unfold_locales
  fix s :: "('k, 'i) ReadChunksIterCounter"
  from assms obtain i' where "rx_iter_next C (rc_iter s) =
      (if chunk (rc_iter s) = [] then None else Some (hd (chunk (rc_iter s))), i')"
    "chunk i' = tl (chunk (rc_iter s))" "rest i' = rest (rc_iter s)"
    unfolding rtrb_consumer_ok_def by meson
  then show "\<exists>s'. ReadChunksIterCounter_next C s =
      Inr (if chunk (rc_iter s) = [] then None else Some (hd (chunk (rc_iter s))), s') \<and>
      chunk (rc_iter s') = tl (chunk (rc_iter s)) \<and>
      (rc_ticker s', rc_initial_len s', rest (rc_iter s')) =
      (rc_ticker s, rc_initial_len s, rest (rc_iter s))"
    by (auto simp: ReadChunksIterCounter_next_def)
next
  fix s :: "('k, 'i) ReadChunksIterCounter" and n
  from assms obtain i' where "rx_iter_nth C (rc_iter s) n =
      (if n < length (chunk (rc_iter s)) then Some (chunk (rc_iter s) ! n) else None, i')"
    "chunk i' = drop (Suc n) (chunk (rc_iter s))" "rest i' = rest (rc_iter s)"
    unfolding rtrb_consumer_ok_def by meson
  then show "\<exists>s'. ReadChunksIterCounter_nth C s n =
      Inr (if n < length (chunk (rc_iter s)) then Some (chunk (rc_iter s) ! n) else None, s') \<and>
      chunk (rc_iter s') = drop (Suc n) (chunk (rc_iter s)) \<and>
      (rc_ticker s', rc_initial_len s', rest (rc_iter s')) =
      (rc_ticker s, rc_initial_len s, rest (rc_iter s))"
    by (auto simp: ReadChunksIterCounter_nth_def)
qed

section \<open>What an endpoint with a lawful counter does\<close>

lemma shift_iter_fields:
  assumes "checked_signed_diff a b = Some d"
  shows "si_padding (shift_iter it d) = unat b - unat a" "si_skipping (shift_iter it d) = unat a - unat b"
    "si_pad_calls (shift_iter it d) = 0" "si_inner (shift_iter it d) = it"
  using assms by (auto simp: checked_signed_diff_Some_iff shift_iter_def Let_def simp del: of_nat_unat)

lemma producer_get_all_ok:
  assumes "rtrb_producer_ok P items cap"
  shows "\<exists>c. producer_get_all P q = Inr c \<and>
    (\<forall>nx s xs s'. pull nx (unat (tx_slots P q)) s = Inr (xs, s') \<longrightarrow>
       (\<exists>q'. tx_fill_from_iter P c nx s = Inr (of_nat (length xs), q', s') \<and>
         items q' = items q @ xs \<and> cap q' = cap q))"
proof -
  from assms obtain c where "tx_write_chunk_uninit P q (tx_slots P q) = Inr c"
    "\<forall>nx s xs s'. pull nx (unat (tx_slots P q)) s = Inr (xs, s') \<longrightarrow>
       (\<exists>q'. tx_fill_from_iter P c nx s = Inr (of_nat (length xs), q', s') \<and>
         items q' = items q @ xs \<and> cap q' = cap q)"
    unfolding rtrb_producer_ok_def by blast
  then show ?thesis by (auto simp: producer_get_all_def)
qed

lemma consumer_get_all_ok:
  assumes "rtrb_consumer_ok C items chunk rest"
  obtains c where "consumer_get_all C q = Inr c" "unat (rx_chunk_len C c) = length (items q)"
    "chunk (rx_chunk_into_iter C c) = items q" "rest (rx_chunk_into_iter C c) = []"
proof -
  have n: "unat (rx_slots C q) = length (items q)"
    using assms by (simp add: rtrb_consumer_ok_def)
  with assms obtain c where "rx_read_chunk C q (rx_slots C q) = Inr c"
    "rx_chunk_len C c = rx_slots C q" "chunk (rx_chunk_into_iter C c) = items q"
    "rest (rx_chunk_into_iter C c) = []"
    unfolding rtrb_consumer_ok_def by (metis drop_all order_refl take_all)
  with n show thesis by (intro that [of c]) (auto simp: consumer_get_all_def)
qed

text \<open>Both operations as one advance of the counter, everything else being determined.\<close>

lemma read_drop_eq:
  assumes ok: "rtrb_consumer_ok C items chunk rest"
    and len: "length (chunk (rc_iter s)) \<le> unat (rc_initial_len s)"
  shows "\<exists>n q. ReadChunksIterCounter_drop advance C s =
      rbind (advance (rc_ticker s) n) (\<lambda>k. Inr (k, q))
    \<and> items q = chunk (rc_iter s) @ rest (rc_iter s)
    \<and> unat n = unat (rc_initial_len s) - length (chunk (rc_iter s))"
proof -
  have l: "unat (rx_iter_len C (rc_iter s)) = length (chunk (rc_iter s))"
    and d: "items (rx_iter_drop C (rc_iter s)) = chunk (rc_iter s) @ rest (rc_iter s)"
    using ok by (auto simp: rtrb_consumer_ok_def)
  let ?n = "rc_initial_len s - rx_iter_len C (rc_iter s)"
  have "unat ?n = unat (rc_initial_len s) - length (chunk (rc_iter s))"
    using l len by (simp add: unat_sub word_le_nat_alt)
  moreover have "strict_sub (rc_initial_len s) (rx_iter_len C (rc_iter s)) = Inr ?n"
    using l len by (simp add: strict_ok)
  ultimately show ?thesis
    using d by (auto simp: ReadChunksIterCounter_drop_def)
qed

lemma recv_take_eq:
  fixes k :: nat and self :: "('c, 'q) IndexedRx"
  assumes ok: "rtrb_consumer_ok C items chunk rest"
    and dev: "checked_signed_diff idx (current (irx_counter self)) = Some d"
  defines "c \<equiv> unat (current (irx_counter self))"
  defines "m \<equiv> (if k \<le> c - unat idx then 0 else unat idx + k - c)"
  shows "\<exists>n q. recv_take advance current C self idx pad k =
      rbind (advance (irx_counter self) n) (\<lambda>k'. Inr
        (take k (map pad [0..<c - unat idx] @ drop (unat idx - c) (items (irx_rx self))),
         self\<lparr>irx_rx := q, irx_counter := k'\<rparr>))
    \<and> items q = drop m (items (irx_rx self))
    \<and> unat n = min m (length (items (irx_rx self)))"
proof -
  let ?q = "irx_rx self" and ?nx = "ReadChunksIterCounter_next C"
  let ?nt = "ReadChunksIterCounter_nth C" and ?it = "\<lambda>c. ReadChunksIterCounter_new C c (irx_counter self)"
  obtain ch where ch: "consumer_get_all C ?q = Inr ch" "unat (rx_chunk_len C ch) = length (items ?q)"
    "chunk (rx_chunk_into_iter C ch) = items ?q" "rest (rx_chunk_into_iter C ch) = []"
    by (rule consumer_get_all_ok [OF ok, of ?q])
  note li = rtrb_list_iter [OF ok, where 'k = 'c]
  note shift = shift_iter_fields [OF dev, of "?it ch"]
  have it: "IndexedRx_recv current C self idx = Inr (shift_iter (?it ch) d)"
    by (simp add: IndexedRx_recv_def dev ch)
  have new: "chunk (rc_iter (?it ch)) = items ?q" "rest (rc_iter (?it ch)) = []"
    "rc_ticker (?it ch) = irx_counter self" "unat (rc_initial_len (?it ch)) = length (items ?q)"
    by (simp_all add: ReadChunksIterCounter_new_def ch)
  have y: "list_iter.yields (\<lambda>s. chunk (rc_iter s)) pad (shift_iter (?it ch) d) =
      map pad [0..<c - unat idx] @ drop (unat idx - c) (items ?q)"
    by (simp add: list_iter.yields_def [OF li] shift new c_def)
  have m: "m = (if k \<le> c - unat idx then 0 else unat idx - c + (k - (c - unat idx)))"
    by (auto simp: m_def)
  obtain st' where st': "pull (shift_next ?nx ?nt pad) k (shift_iter (?it ch) d) =
      Inr (take k (map pad [0..<c - unat idx] @ drop (unat idx - c) (items ?q)), st')"
    and inner: "chunk (rc_iter (si_inner st')) = drop m (items ?q)"
    and frame: "rc_ticker (si_inner st') = irx_counter self"
      "unat (rc_initial_len (si_inner st')) = length (items ?q)" "rest (rc_iter (si_inner st')) = []"
    using list_iter.pull_shift_next [OF li, of pad k "shift_iter (?it ch) d"]
    unfolding y shift new c_def [symmetric] m if_distrib [of "\<lambda>n. drop n _"] drop_0
    by (metis (no_types, lifting) Pair_inject new(4))
  obtain n q where "ReadChunksIterCounter_drop advance C (si_inner st') =
      rbind (advance (irx_counter self) n) (\<lambda>k. Inr (k, q))"
    "items q = drop m (items ?q)"
    "unat n = length (items ?q) - (length (items ?q) - m)"
    using read_drop_eq [OF ok, of "si_inner st'" advance] inner frame by auto
  with it st' show ?thesis
    by (intro exI [of _ n] exI [of _ q]) (simp add: recv_take_def min_def rbind_assoc)
qed

text \<open>
  The same for iterators that walk down a list only from good states (\<open>R\<close>), as an iterator
  with an invariant does.
\<close>

lemma nth_default_simulates:
  assumes step: "\<And>s. R s \<Longrightarrow> \<exists>s'. nx s = Inr (if f s = [] then None else Some (hd (f s)), s')
      \<and> f s' = tl (f s) \<and> R s'"
  shows "R s \<Longrightarrow> \<exists>s'. nth_default nx s n = Inr (if n < length (f s) then Some (f s ! n) else None, s')
      \<and> f s' = drop (Suc n) (f s) \<and> R s'"
proof (induction n arbitrary: s)
  case 0
  from step [OF 0] show ?case by (auto simp: hd_conv_nth drop_Suc)
next
  case (Suc n)
  from step [OF Suc.prems] obtain s1 where
    s1: "nx s = Inr (if f s = [] then None else Some (hd (f s)), s1)" "f s1 = tl (f s)" "R s1" by blast
  show ?case
  proof (cases "f s")
    case Nil
    with s1 show ?thesis by auto
  next
    case (Cons x xs)
    with Suc.IH [OF s1(3)] s1 show ?thesis by auto
  qed
qed

lemma pull_shift_simulates:
  assumes step: "\<And>s. R s \<Longrightarrow> \<exists>s'. nx s = Inr (if f s = [] then None else Some (hd (f s)), s')
      \<and> f s' = tl (f s) \<and> R s'"
    and "R (si_inner st)"
  shows "\<exists>st'. pull (shift_next nx (nth_default nx) pad) k st =
      Inr (take k (map pad [si_pad_calls st..<si_pad_calls st + si_padding st]
        @ drop (si_skipping st) (f (si_inner st))), st') \<and> R (si_inner st')"
proof -
  let ?f = "\<lambda>st. map pad [si_pad_calls st..<si_pad_calls st + si_padding st]
        @ drop (si_skipping st) (f (si_inner st))"
  have "\<exists>st'. shift_next nx (nth_default nx) pad st = Inr (if ?f st = [] then None else Some (hd (?f st)), st')
      \<and> ?f st' = tl (?f st) \<and> R (si_inner st')" if R: "R (si_inner st)" for st
  proof (cases "0 < si_padding st")
    case True
    then obtain m where "si_padding st = Suc m" by (cases "si_padding st") auto
    with R show ?thesis by (simp add: shift_next_def upt_conv_Cons del: upt_Suc)
  next
    case False
    from step [OF R] obtain i where i: "nx (si_inner st) =
        Inr (if f (si_inner st) = [] then None else Some (hd (f (si_inner st))), i)"
      "f i = tl (f (si_inner st))" "R i" by blast
    from nth_default_simulates [where R = R and f = f and nx = nx, OF step R, of "si_skipping st"]
    obtain j where j: "nth_default nx (si_inner st) (si_skipping st) =
        Inr (if si_skipping st < length (f (si_inner st)) then Some (f (si_inner st) ! si_skipping st) else None, j)"
      "f j = drop (Suc (si_skipping st)) (f (si_inner st))" "R j" by blast
    show ?thesis
      using False i j by (cases "si_skipping st = 0")
        (auto simp: shift_next_def hd_drop_conv_nth drop_Suc tl_drop)
  qed
  from pull_simulates [where R = "\<lambda>st. R (si_inner st)" and f = ?f, OF this assms(2)]
  show ?thesis by blast
qed

lemma list_next_step:
  "\<exists>s'. list_next s = Inr (if s = [] then None else Some (hd s), s') \<and> s' = tl s \<and> True"
  by (cases s) simp_all

text \<open>What a send does, given what its shifted iterator yields.\<close>

lemma send_pulled:
  assumes ok: "rtrb_producer_ok P items cap"
    and dev: "checked_signed_diff (current (itx_counter self)) idx = Some d"
    and pull: "pull (shift_next nx (nth_default nx) pad) (unat (tx_slots P (itx_tx self))) (shift_iter it d)
      = Inr (pushed, st')"
  shows "\<exists>n q. IndexedTx_send advance current P self idx nx it pad =
      rbind (advance (itx_counter self) n) (\<lambda>k'. Inr (self\<lparr>itx_counter := k', itx_tx := q\<rparr>, si_inner st'))
    \<and> items q = items (itx_tx self) @ pushed \<and> cap q = cap (itx_tx self) \<and> unat n = length pushed"
proof -
  let ?q = "itx_tx self" and ?nx = "shift_next nx (nth_default nx) pad"
  obtain ch where ch: "producer_get_all P ?q = Inr ch"
    "\<forall>nx s xs s'. pull nx (unat (tx_slots P ?q)) s = Inr (xs, s') \<longrightarrow>
       (\<exists>q'. tx_fill_from_iter P ch nx s = Inr (of_nat (length xs), q', s') \<and>
         items q' = items ?q @ xs \<and> cap q' = cap ?q)"
    using producer_get_all_ok [OF ok, of ?q] by blast
  then obtain q' where q': "tx_fill_from_iter P ch ?nx (shift_iter it d) =
      Inr (of_nat (length pushed), q', st')" "items q' = items ?q @ pushed" "cap q' = cap ?q"
    using pull by blast
  have "length pushed \<le> unat (tx_slots P ?q)" by (rule pull_length [OF pull])
  also have "\<dots> < 2 ^ LENGTH(64)" by (rule unsigned_less)
  finally have "unat (of_nat (length pushed) :: usize) = length pushed" by simp
  with q' ch(1) dev show ?thesis
    by (intro exI [of _ "of_nat (length pushed)"] exI [of _ q']) (simp add: IndexedTx_send_def)
qed

context counter_laws
begin

lemma recv_take_aligned:
  fixes k :: nat and self :: "('c, 'q) IndexedRx"
  assumes ok: "rtrb_consumer_ok C items chunk rest"
    and dev: "checked_signed_diff idx (current (irx_counter self)) = Some d"
    and fits: "unat (current (irx_counter self)) + length (items (irx_rx self)) < 2 ^ 64"
  defines "c \<equiv> unat (current (irx_counter self))"
  defines "m \<equiv> (if k \<le> c - unat idx then 0 else unat idx + k - c)"
  shows "\<exists>self'. recv_take advance current C self idx pad k =
      Inr (take k (map pad [0..<c - unat idx] @ drop (unat idx - c) (items (irx_rx self))), self')
    \<and> items (irx_rx self') = drop m (items (irx_rx self))
    \<and> unat (current (irx_counter self')) = c + min m (length (items (irx_rx self)))"
proof -
  obtain n q where r: "recv_take advance current C self idx pad k =
      rbind (advance (irx_counter self) n) (\<lambda>k'. Inr
        (take k (map pad [0..<c - unat idx] @ drop (unat idx - c) (items (irx_rx self))),
         self\<lparr>irx_rx := q, irx_counter := k'\<rparr>))"
    "items q = drop m (items (irx_rx self))" "unat n = min m (length (items (irx_rx self)))"
    using recv_take_eq [OF ok, of idx current self d advance pad k] dev unfolding c_def m_def by blast
  then have "unat (current (irx_counter self)) + unat n < 2 ^ 64" using fits by simp
  then obtain k' where "advance (irx_counter self) n = Inr k'" using advance_returns by blast
  with r advance_exact show ?thesis unfolding c_def by auto
qed

lemma send_aligned:
  fixes pad :: "nat \<Rightarrow> 'a"
  assumes ok: "rtrb_producer_ok P items cap"
    and dev: "checked_signed_diff (current (itx_counter self)) idx = Some d"
    and fits: "unat (current (itx_counter self)) + unat (tx_slots P (itx_tx self)) < 2 ^ 64"
    and step: "\<And>s. R s \<Longrightarrow> \<exists>s'. nx s = Inr (if f s = [] then None else Some (hd (f s)), s')
      \<and> f s' = tl (f s) \<and> R s'"
    and "R it"
  defines "c \<equiv> unat (current (itx_counter self))"
  defines "pushed \<equiv> take (unat (tx_slots P (itx_tx self)))
      (map pad [0..<unat idx - c] @ drop (c - unat idx) (f it))"
  shows "\<exists>self' it'. IndexedTx_send advance current P self idx nx it pad = Inr (self', it')
    \<and> items (itx_tx self') = items (itx_tx self) @ pushed
    \<and> cap (itx_tx self') = cap (itx_tx self)
    \<and> unat (current (itx_counter self')) = c + length pushed \<and> R it'"
proof -
  have R: "R (si_inner (shift_iter it d))" using \<open>R it\<close> shift_iter_fields [OF dev, of it] by simp
  from pull_shift_simulates [where R = R and f = f and nx = nx, OF step R, of pad "unat (tx_slots P (itx_tx self))"]
  obtain st' where st': "pull (shift_next nx (nth_default nx) pad) (unat (tx_slots P (itx_tx self)))
      (shift_iter it d) = Inr (pushed, st')" "R (si_inner st')"
    using shift_iter_fields [OF dev, of it] by (auto simp: pushed_def c_def)
  from send_pulled [OF ok, of current, OF dev st'(1), of advance] obtain n q where r:
    "IndexedTx_send advance current P self idx nx it pad =
      rbind (advance (itx_counter self) n) (\<lambda>k'. Inr (self\<lparr>itx_counter := k', itx_tx := q\<rparr>, si_inner st'))"
    "items q = items (itx_tx self) @ pushed" "cap q = cap (itx_tx self)" "unat n = length pushed" by blast
  have "length pushed \<le> unat (tx_slots P (itx_tx self))" by (rule pull_length [OF st'(1)])
  with fits r(4) have "unat (current (itx_counter self)) + unat n < 2 ^ 64" by linarith
  then obtain k' where "advance (itx_counter self) n = Inr k'" using advance_returns by blast
  with r st'(2) advance_exact show ?thesis unfolding c_def by fastforce
qed

lemma send_list_aligned:
  fixes pad :: "nat \<Rightarrow> 'a" and vs :: "'a list"
  assumes "rtrb_producer_ok P items cap"
    and "checked_signed_diff (current (itx_counter self)) idx = Some d"
    and "unat (current (itx_counter self)) + unat (tx_slots P (itx_tx self)) < 2 ^ 64"
  defines "c \<equiv> unat (current (itx_counter self))"
  defines "pushed \<equiv> take (unat (tx_slots P (itx_tx self)))
      (map pad [0..<unat idx - c] @ drop (c - unat idx) vs)"
  shows "\<exists>self' vs'. IndexedTx_send advance current P self idx list_next vs pad = Inr (self', vs')
    \<and> items (itx_tx self') = items (itx_tx self) @ pushed
    \<and> cap (itx_tx self') = cap (itx_tx self)
    \<and> unat (current (itx_counter self')) = c + length pushed"
  using send_aligned [where R = "\<lambda>_. True" and f = "\<lambda>s. s" and nx = list_next, OF assms(1-3) list_next_step]
  unfolding c_def pushed_def by blast

end

section \<open>A ring as the concrete instance\<close>

text \<open>
  A ring of eight slots that satisfies the hypotheses on \<open>rtrb\<close>: the queue is a list, a
  read iterator the list with its read position and the end of its chunk.
\<close>

definition ring8_items :: "'a list \<Rightarrow> 'a list" where
  "ring8_items q = take 8 q"

definition ring8_producer :: "('a list, 'a list \<times> nat, 's, 'a) rtrb_producer" where
  "ring8_producer =
     \<lparr>tx_slots = (\<lambda>q. of_nat (8 - length (ring8_items q))),
      tx_write_chunk_uninit = (\<lambda>q n. if unat n \<le> 8 - length (ring8_items q)
          then Inr (ring8_items q, unat n) else Inl (TooFewSlots (of_nat (8 - length (ring8_items q))))),
      tx_fill_from_iter = (\<lambda>(q, n) nx s.
          rbind (pull nx n s) (\<lambda>(xs, s'). Inr (of_nat (length xs), q @ xs, s'))),
      tx_is_abandoned = (\<lambda>q. False)\<rparr>"

definition ring8_chunk :: "'a list \<times> nat \<times> nat \<Rightarrow> 'a list" where
  "ring8_chunk = (\<lambda>(q, a, b). drop a (take b (ring8_items q)))"

definition ring8_rest :: "'a list \<times> nat \<times> nat \<Rightarrow> 'a list" where
  "ring8_rest = (\<lambda>(q, a, b). drop (max a b) (ring8_items q))"

definition ring8_consumer :: "('a list, 'a list \<times> nat, 'a list \<times> nat \<times> nat, 'a) rtrb_consumer" where
  "ring8_consumer =
     \<lparr>rx_slots = (\<lambda>q. of_nat (length (ring8_items q))),
      rx_read_chunk = (\<lambda>q n. if unat n \<le> length (ring8_items q)
          then Inr (q, unat n) else Inl (TooFewSlots (of_nat (length (ring8_items q))))),
      rx_chunk_len = (\<lambda>(q, n). of_nat n),
      rx_chunk_into_iter = (\<lambda>(q, n). (q, 0, n)),
      rx_iter_next = (\<lambda>(q, a, b). case ring8_chunk (q, a, b) of
          [] \<Rightarrow> (None, (q, a, b)) | x # _ \<Rightarrow> (Some x, (q, Suc a, b))),
      rx_iter_nth = (\<lambda>(q, a, b) n. let xs = ring8_chunk (q, a, b) in
          (if n < length xs then Some (xs ! n) else None, (q, a + min (Suc n) (length xs), b))),
      rx_iter_len = (\<lambda>i. of_nat (length (ring8_chunk i))),
      rx_iter_drop = (\<lambda>i. ring8_chunk i @ ring8_rest i),
      rx_is_abandoned = (\<lambda>q. False)\<rparr>"

lemma ring8_items_len: "length (ring8_items q) \<le> 8"
  by (simp add: ring8_items_def)

lemma unat_of_nat8: "n \<le> 8 \<Longrightarrow> unat (of_nat n :: usize) = n"
  by simp

lemma ring8_producer_ok: "rtrb_producer_ok ring8_producer ring8_items (\<lambda>_. 8)"
proof -
  have slots: "unat (tx_slots ring8_producer q) = 8 - length (ring8_items q)" for q :: "'a list"
    unfolding ring8_producer_def by (simp add: unat_of_nat8 del: of_nat_diff)
  have push: "ring8_items (ring8_items q @ xs) = ring8_items q @ xs"
    if "pull nx (unat n) s = Inr (xs, s')" "unat n \<le> 8 - length (ring8_items q)"
    for nx :: "('s, 'a) next_fn" and n :: usize and s xs s' q
    using pull_length [OF that(1)] that(2) ring8_items_len [of q]
    by (simp add: ring8_items_def [of "_ @ _"])
  show ?thesis
    unfolding rtrb_producer_ok_def slots
    by (auto simp: push ring8_producer_def ring8_items_len)
qed

lemma drop_take_append: "drop a (take b xs) @ drop (max a b) xs = drop a xs"
proof (cases "a \<le> b")
  case True
  then have "drop b xs = drop (b - a) (drop a xs)" by simp
  with True show ?thesis by (simp add: drop_take max_def append_take_drop_id del: drop_drop)
next
  case False
  then show ?thesis by (simp add: max_def)
qed

lemma ring8_consumer_ok: "rtrb_consumer_ok ring8_consumer ring8_items ring8_chunk ring8_rest"
proof -
  have chunk8: "length (ring8_chunk i) \<le> 8" for i :: "'a list \<times> nat \<times> nat"
    using ring8_items_len [of "fst i"] by (cases i) (simp add: ring8_chunk_def)
  have drop_ok: "ring8_items (ring8_chunk i @ ring8_rest i) = ring8_chunk i @ ring8_rest i"
    for i :: "'a list \<times> nat \<times> nat"
    using ring8_items_len [of "fst i"]
    by (cases i) (simp add: ring8_chunk_def ring8_rest_def drop_take_append ring8_items_def [of "drop _ _"])
  have next_ok: "\<exists>i'. rx_iter_next ring8_consumer i =
      (if ring8_chunk i = [] then None else Some (hd (ring8_chunk i)), i') \<and>
      ring8_chunk i' = tl (ring8_chunk i) \<and> ring8_rest i' = ring8_rest i"
    for i :: "'a list \<times> nat \<times> nat"
  proof (cases i)
    case (fields q a b)
    show ?thesis
    proof (cases "ring8_chunk i")
      case Nil
      with fields show ?thesis by (simp add: ring8_consumer_def)
    next
      case (Cons x xs)
      then have "a < b" using fields by (cases "a < b") (auto simp: ring8_chunk_def)
      moreover have "drop (Suc a) (take b (ring8_items q)) = tl (drop a (take b (ring8_items q)))"
        by (simp add: drop_Suc tl_drop)
      ultimately show ?thesis
        using Cons fields by (auto simp: ring8_consumer_def ring8_chunk_def ring8_rest_def max_def)
    qed
  qed
  have nth_ok: "\<exists>i'. rx_iter_nth ring8_consumer i n =
      (if n < length (ring8_chunk i) then Some (ring8_chunk i ! n) else None, i') \<and>
      ring8_chunk i' = drop (Suc n) (ring8_chunk i) \<and> ring8_rest i' = ring8_rest i"
    for i :: "'a list \<times> nat \<times> nat" and n
    by (cases i) (auto simp: ring8_consumer_def Let_def ring8_chunk_def ring8_rest_def min_def max_def
        add.commute split: if_splits)
  show ?thesis
    unfolding rtrb_consumer_ok_def
  proof (intro conjI allI impI next_ok nth_ok)
    fix q :: "'a list" and n :: usize and i :: "'a list \<times> nat \<times> nat"
    show "unat (rx_slots ring8_consumer q) = length (ring8_items q)"
      by (simp add: ring8_consumer_def unat_of_nat8 ring8_items_len)
    show "unat (rx_iter_len ring8_consumer i) = length (ring8_chunk i)"
      by (simp add: ring8_consumer_def unat_of_nat8 chunk8)
    show "ring8_items (rx_iter_drop ring8_consumer i) = ring8_chunk i @ ring8_rest i"
      by (simp add: ring8_consumer_def drop_ok)
    assume "unat n \<le> length (ring8_items q)"
    then show "\<exists>c. rx_read_chunk ring8_consumer q n = Inr c \<and> rx_chunk_len ring8_consumer c = n \<and>
        ring8_chunk (rx_chunk_into_iter ring8_consumer c) = take (unat n) (ring8_items q) \<and>
        ring8_rest (rx_chunk_into_iter ring8_consumer c) = drop (unat n) (ring8_items q)"
      by (simp add: ring8_consumer_def ring8_chunk_def ring8_rest_def)
  qed
qed

section \<open>Both ends of one ring\<close>

text \<open>
  A sender and a receiver on the same ring, each with its own counter, interleaved in any
  order. The run carries the list of everything ever pushed.
\<close>

record 'q spsc =
  sp_ring :: 'q
  sp_tx :: GenericCounter
  sp_rx :: GenericCounter

inductive spsc_run ::
  "('q, 'c, 'a list ShiftIter, 'a) rtrb_producer \<Rightarrow> ('q, 'd, 'i, 'a) rtrb_consumer \<Rightarrow>
   ('q \<Rightarrow> 'a list) \<Rightarrow> 'a list \<Rightarrow> 'q spsc \<Rightarrow> bool"
  for P C items where
  spsc_start: "items (sp_ring s) = [] \<Longrightarrow> sp_tx s = GenericCounter_new \<Longrightarrow> sp_rx s = GenericCounter_new
     \<Longrightarrow> spsc_run P C items [] s"
| spsc_send: "spsc_run P C items H s \<Longrightarrow>
     IndexedTx_send GenericCounter_advance GenericCounter_current P
       (IndexedTx_new (sp_ring s) (sp_tx s)) idx list_next vs pad = Inr (tx, vs') \<Longrightarrow>
     spsc_run P C items (H @ drop (length (items (sp_ring s))) (items (itx_tx tx)))
       (s\<lparr>sp_ring := itx_tx tx, sp_tx := itx_counter tx\<rparr>)"
| spsc_recv: "spsc_run P C items H s \<Longrightarrow>
     recv_take GenericCounter_advance GenericCounter_current C
       (IndexedRx_new (sp_ring s) (sp_rx s)) idx pad k = Inr (xs, rx) \<Longrightarrow>
     spsc_run P C items H (s\<lparr>sp_ring := irx_rx rx, sp_rx := irx_counter rx\<rparr>)"

abbreviation gc_pos :: "GenericCounter \<Rightarrow> nat" where
  "gc_pos c \<equiv> unat (GenericCounter_current c)"

lemma recv_take_Inr:
  assumes ok: "rtrb_consumer_ok C items chunk rest"
    and r: "recv_take GenericCounter_advance GenericCounter_current C self idx pad k = Inr (xs, self')"
  defines "c \<equiv> gc_pos (irx_counter self)"
  shows "xs = take k (map pad [0..<c - unat idx] @ drop (unat idx - c) (items (irx_rx self)))"
    and "\<exists>m. items (irx_rx self') = drop m (items (irx_rx self))
      \<and> gc_pos (irx_counter self') = c + min m (length (items (irx_rx self)))"
proof -
  from r obtain d where d: "checked_signed_diff idx (GenericCounter_current (irx_counter self)) = Some d"
    by (cases "checked_signed_diff idx (GenericCounter_current (irx_counter self))")
      (auto simp: recv_take_def IndexedRx_recv_def)
  note eq = recv_take_eq [where current = GenericCounter_current and self = self
    and advance = GenericCounter_advance and pad = pad and k = k, OF ok d]
  show "xs = take k (map pad [0..<c - unat idx] @ drop (unat idx - c) (items (irx_rx self)))"
    using eq r by (auto simp: c_def rust_simps)
  show "\<exists>m. items (irx_rx self') = drop m (items (irx_rx self))
      \<and> gc_pos (irx_counter self') = c + min m (length (items (irx_rx self)))"
    using eq r unfolding c_def by (fastforce simp: rust_simps dest: generic.advance_exact)
qed

lemma send_Inr:
  assumes ok: "rtrb_producer_ok P items cap"
    and r: "IndexedTx_send GenericCounter_advance GenericCounter_current P self idx list_next vs pad
      = Inr (self', vs')"
  shows "\<exists>pushed. items (itx_tx self') = items (itx_tx self) @ pushed
    \<and> gc_pos (itx_counter self') = gc_pos (itx_counter self) + length pushed"
proof -
  from r obtain d where d: "checked_signed_diff (GenericCounter_current (itx_counter self)) idx = Some d"
    by (cases "checked_signed_diff (GenericCounter_current (itx_counter self)) idx")
      (auto simp: IndexedTx_send_def)
  obtain pushed st' where "pull (shift_next list_next (nth_default list_next) pad)
      (unat (tx_slots P (itx_tx self))) (shift_iter vs d) = Inr (pushed, st')"
    using pull_shift_simulates [where R = "\<lambda>_. True" and f = "\<lambda>s. s" and nx = list_next, OF list_next_step]
    by blast
  from send_pulled [OF ok, of GenericCounter_current, OF d this, of GenericCounter_advance] r show ?thesis
    by (fastforce simp: rust_simps dest: generic.advance_exact)
qed

lemma spsc_run_inv:
  assumes P: "rtrb_producer_ok P items cap" and C: "rtrb_consumer_ok C items chunk rest"
    and "spsc_run P C items H s"
  shows "length H = gc_pos (sp_tx s) \<and> gc_pos (sp_rx s) \<le> length H
    \<and> items (sp_ring s) = drop (gc_pos (sp_rx s)) H"
  using assms(3)
proof (induction rule: spsc_run.induct)
  case (spsc_start s)
  then show ?case by (simp add: GenericCounter_new_def GenericCounter_current_def)
next
  case (spsc_send H s idx vs pad tx vs')
  from send_Inr [OF P spsc_send.hyps(2)] spsc_send.IH show ?case
    by (auto simp: IndexedTx_new_def)
next
  case (spsc_recv H s idx pad k xs rx)
  from recv_take_Inr(2) [OF C spsc_recv.hyps(2)] obtain m where
    "items (irx_rx rx) = drop m (items (sp_ring s))"
    "gc_pos (irx_counter rx) = gc_pos (sp_rx s) + min m (length (items (sp_ring s)))"
    by (auto simp: IndexedRx_new_def)
  with spsc_recv.IH show ?case by (auto simp: min_def add.commute)
qed

lemma recv_stream:
  assumes "rtrb_consumer_ok C items chunk rest"
    and "checked_signed_diff idx (GenericCounter_current (irx_counter self)) \<noteq> None"
    and "gc_pos (irx_counter self) + length (items (irx_rx self)) < 2 ^ 64"
    and "items (irx_rx self) = map stream
      [gc_pos (irx_counter self)..<gc_pos (irx_counter self) + length (items (irx_rx self))]"
  shows "\<exists>xs self'.
      recv_take GenericCounter_advance GenericCounter_current C self idx pad k = Inr (xs, self')
    \<and> length xs = min k (gc_pos (irx_counter self) + length (items (irx_rx self)) - unat idx)
    \<and> (\<forall>j < length xs. xs ! j =
        (if unat idx + j < gc_pos (irx_counter self) then pad j else stream (unat idx + j)))
    \<and> items (irx_rx self') = map stream
        [gc_pos (irx_counter self')..<gc_pos (irx_counter self) + length (items (irx_rx self))]"
proof -
  let ?c = "gc_pos (irx_counter self)" and ?q = "items (irx_rx self)"
  let ?e = "?c + length ?q"
  obtain d where "checked_signed_diff idx (GenericCounter_current (irx_counter self)) = Some d"
    using assms(2) by blast
  from generic.recv_take_aligned [OF assms(1) this assms(3), of pad k]
  obtain self' m where r: "recv_take GenericCounter_advance GenericCounter_current C self idx pad k =
      Inr (take k (map pad [0..<?c - unat idx] @ drop (unat idx - ?c) ?q), self')"
    "items (irx_rx self') = drop m ?q" "gc_pos (irx_counter self') = ?c + min m (length ?q)"
    by blast
  have q: "?q ! j = stream (?c + j)" if "j < length ?q" for j
    using that by (subst assms(4)) simp
  have "take k (map pad [0..<?c - unat idx] @ drop (unat idx - ?c) ?q) ! j =
      (if unat idx + j < ?c then pad j else stream (unat idx + j))"
    if "j < length (take k (map pad [0..<?c - unat idx] @ drop (unat idx - ?c) ?q))" for j
    using that q [of "unat idx + j - ?c"] unfolding shifted_nth [OF that] shifted_length by auto
  moreover have "drop m ?q = map stream [?c + min m (length ?q)..<?e]"
    by (subst assms(4)) (auto simp: map_upt_drop min_def)
  ultimately show ?thesis using r shifted_length [of k pad ?c "unat idx" ?q] by metis
qed

section \<open>Properties\<close>

text \<open>C10: \<open>IndexedRx::recv\<close> over a lawful ring. If the queued items are the stretch of a
  logical stream that starts at the receiver's counter, then pulling \<open>k\<close> items for index
  \<open>idx\<close> never panics, yields exactly \<open>min k (end - idx)\<close> items, the item at offset
  \<open>j\<close> is the stream's item \<open>idx + j\<close> (or padding where that item has already been
  consumed), and the queue is again the stretch that starts at the new counter.\<close>

theorem recv_follows_timeline:
  assumes "rtrb_consumer_ok C items chunk rest"
    and "checked_signed_diff idx (GenericCounter_current (irx_counter self)) \<noteq> None"
    and "gc_pos (irx_counter self) + length (items (irx_rx self)) < 2 ^ 64"
    and "items (irx_rx self) = map stream
      [gc_pos (irx_counter self)..<gc_pos (irx_counter self) + length (items (irx_rx self))]"
  shows "\<exists>xs self'.
      recv_take GenericCounter_advance GenericCounter_current C self idx pad k = Inr (xs, self')
    \<and> length xs = min k (gc_pos (irx_counter self) + length (items (irx_rx self)) - unat idx)
    \<and> (\<forall>j < length xs. xs ! j =
        (if unat idx + j < gc_pos (irx_counter self) then pad j else stream (unat idx + j)))
    \<and> items (irx_rx self') = map stream
        [gc_pos (irx_counter self')..<gc_pos (irx_counter self) + length (items (irx_rx self))]"
  by (rule recv_stream [OF assms])

theorem recv_follows_timeline_witness:
  "\<exists>xs self'.
      recv_take GenericCounter_advance GenericCounter_current ring8_consumer
        (IndexedRx_new [105, 106, 107 :: nat] \<lparr>gc_value = 5\<rparr>) 3 (\<lambda>_. 0) 4 = Inr (xs, self')
    \<and> length xs = 4
    \<and> (\<forall>j < length xs. xs ! j =
        (if unat (3 :: u64) + j < 5 then 0 else 100 + (unat (3 :: u64) + j)))
    \<and> ring8_items (irx_rx self') = map ((+) 100) [gc_pos (irx_counter self')..<8]"
  using recv_follows_timeline [where C = ring8_consumer and items = ring8_items and chunk = ring8_chunk
      and rest = ring8_rest and self = "IndexedRx_new [105, 106, 107] \<lparr>gc_value = 5\<rparr>"
      and idx = 3 and stream = "(+) 100" and pad = "\<lambda>_. 0" and k = 4, OF ring8_consumer_ok]
  by (simp add: IndexedRx_new_def GenericCounter_current_def checked_signed_diff_def ring8_items_def
      upt_conv_Cons)

text \<open>C11: \<open>IndexedTx::send\<close> over a lawful ring. Sending values meant for index \<open>idx\<close>
  never panics, appends \<open>min slots (idx + length values - counter)\<close> items, the item that
  lands at logical position \<open>counter + j\<close> is the value meant for that position (or padding
  where the values start later), and the counter moves by exactly the number appended.\<close>

theorem send_places_on_timeline:
  assumes "rtrb_producer_ok P items cap"
    and "checked_signed_diff (GenericCounter_current (itx_counter self)) idx \<noteq> None"
    and "gc_pos (itx_counter self) + unat (tx_slots P (itx_tx self)) < 2 ^ 64"
  shows "\<exists>self' vs' pushed.
      IndexedTx_send GenericCounter_advance GenericCounter_current P self idx list_next vs pad
        = Inr (self', vs')
    \<and> items (itx_tx self') = items (itx_tx self) @ pushed
    \<and> length pushed = min (unat (tx_slots P (itx_tx self)))
        (unat idx + length vs - gc_pos (itx_counter self))
    \<and> (\<forall>j < length pushed. pushed ! j =
        (if gc_pos (itx_counter self) + j < unat idx then pad j
         else vs ! (gc_pos (itx_counter self) + j - unat idx)))
    \<and> gc_pos (itx_counter self') = gc_pos (itx_counter self) + length pushed"
proof -
  let ?c = "gc_pos (itx_counter self)"
  let ?xs = "take (unat (tx_slots P (itx_tx self))) (map pad [0..<unat idx - ?c] @ drop (?c - unat idx) vs)"
  obtain d where d: "checked_signed_diff (GenericCounter_current (itx_counter self)) idx = Some d"
    using assms(2) by blast
  have "\<exists>self' vs'. IndexedTx_send GenericCounter_advance GenericCounter_current P self idx list_next vs pad
      = Inr (self', vs') \<and> items (itx_tx self') = items (itx_tx self) @ ?xs
      \<and> gc_pos (itx_counter self') = ?c + length ?xs"
    using generic.send_list_aligned [where self = self and vs = vs and pad = pad, OF assms(1) d assms(3)]
    by blast
  moreover have "\<forall>j < length ?xs. ?xs ! j = (if ?c + j < unat idx then pad j else vs ! (?c + j - unat idx))"
    using shifted_nth by blast
  ultimately show ?thesis using shifted_length by metis
qed

theorem send_places_on_timeline_witness:
  "\<exists>self' vs' pushed.
      IndexedTx_send GenericCounter_advance GenericCounter_current ring8_producer
        (IndexedTx_new [7 :: nat] \<lparr>gc_value = 5\<rparr>) 3 list_next [30, 40, 50, 60] (\<lambda>_. 0) = Inr (self', vs')
    \<and> ring8_items (itx_tx self') = [7] @ pushed
    \<and> length pushed = 2
    \<and> (\<forall>j < length pushed. pushed ! j = (if 5 + j < 3 then 0 else [30, 40, 50, 60] ! (5 + j - 3)))
    \<and> gc_pos (itx_counter self') = 5 + length pushed"
  using send_places_on_timeline [where P = ring8_producer and items = ring8_items
      and self = "IndexedTx_new [7] \<lparr>gc_value = 5\<rparr>" and idx = 3 and vs = "[30, 40, 50, 60]"
      and pad = "\<lambda>_. 0", OF ring8_producer_ok]
  by (simp add: IndexedTx_new_def GenericCounter_current_def checked_signed_diff_def ring8_items_def
      ring8_producer_def)

text \<open>C1: A sender and a receiver on one ring, interleaved in any order. Whatever both have
  done, the sender's counter is the number of items ever pushed, and a read for index \<open>idx\<close>
  panics exactly when the distance between \<open>idx\<close> and the receiver's counter is not an \<open>i64\<close>.
  Otherwise it yields the pushed history from position \<open>idx\<close> on, in order and without gaps or
  repetitions, with padding only for positions it has already passed; it ends at the last item
  pushed, without padding beyond it, and leaves in the ring exactly the history from the new
  counter on.\<close>

theorem spsc_recv_reads_history:
  assumes "rtrb_producer_ok P items cap" and "rtrb_consumer_ok C items chunk rest"
    and "spsc_run P C items H s"
  shows "length H = gc_pos (sp_tx s)
    \<and> (case checked_signed_diff idx (GenericCounter_current (sp_rx s)) of
        None \<Rightarrow> recv_take GenericCounter_advance GenericCounter_current C
          (IndexedRx_new (sp_ring s) (sp_rx s)) idx pad k = Inl UnwrapNone
      | Some _ \<Rightarrow> \<exists>xs rx. recv_take GenericCounter_advance GenericCounter_current C
            (IndexedRx_new (sp_ring s) (sp_rx s)) idx pad k = Inr (xs, rx)
          \<and> length xs = min k (length H - unat idx)
          \<and> (\<forall>j < length xs. xs ! j = (if unat idx + j < gc_pos (sp_rx s) then pad j else H ! (unat idx + j)))
          \<and> items (irx_rx rx) = drop (gc_pos (irx_counter rx)) H)"
proof -
  let ?c = "gc_pos (sp_rx s)" and ?q = "items (sp_ring s)" and ?rx = "IndexedRx_new (sp_ring s) (sp_rx s)"
  let ?xs = "take k (map pad [0..<?c - unat idx] @ drop (unat idx - ?c) ?q)"
  have H: "length H = gc_pos (sp_tx s)" "?c \<le> length H" "?q = drop ?c H"
    using spsc_run_inv [OF assms(1-3)] by auto
  have rx: "irx_counter ?rx = sp_rx s" "irx_rx ?rx = sp_ring s" by (simp_all add: IndexedRx_new_def)
  have len: "length ?xs = min k (length H - unat idx)"
    unfolding shifted_length using H(2) by (simp add: H(3))
  have nth: "?xs ! j = (if unat idx + j < ?c then pad j else H ! (unat idx + j))" if "j < length ?xs" for j
    using that H(2) len unfolding shifted_nth [OF that] by (auto simp: H(3))
  show ?thesis
  proof (cases "checked_signed_diff idx (GenericCounter_current (sp_rx s))")
    case None
    then show ?thesis using H(1) by (simp add: recv_take_def IndexedRx_recv_def rx)
  next
    case (Some d)
    have "?c + length ?q < 2 ^ 64" using H(1,2) unsigned_less [of "GenericCounter_current (sp_tx s)"] by (simp add: H(3))
    then obtain rx' m where "recv_take GenericCounter_advance GenericCounter_current C ?rx idx pad k = Inr (?xs, rx')"
      "items (irx_rx rx') = drop m ?q" "gc_pos (irx_counter rx') = ?c + min m (length ?q)"
      using generic.recv_take_aligned [where self = ?rx and idx = idx and d = d and k = k and pad = pad, OF assms(2)]
        Some unfolding rx by blast
    moreover from this(2,3) have "items (irx_rx rx') = drop (gc_pos (irx_counter rx')) H"
      using H(2) by (auto simp: H(3) min_def add.commute)
    ultimately show ?thesis using H(1) len nth Some by auto
  qed
qed

theorem spsc_recv_reads_history_witness:
  "\<exists>H s xs rx. spsc_run ring8_producer ring8_consumer ring8_items H s
    \<and> H = [0, 10, 11 :: nat] \<and> length H = gc_pos (sp_tx s)
    \<and> recv_take GenericCounter_advance GenericCounter_current ring8_consumer
        (IndexedRx_new (sp_ring s) (sp_rx s)) 1 (\<lambda>_. 0) 5 = Inr (xs, rx)
    \<and> xs = [10, 11] \<and> ring8_items (irx_rx rx) = drop (gc_pos (irx_counter rx)) H"
proof -
  let ?s0 = "\<lparr>sp_ring = [] :: nat list, sp_tx = GenericCounter_new, sp_rx = GenericCounter_new\<rparr>"
  have start: "spsc_run ring8_producer ring8_consumer ring8_items [] ?s0"
    by (rule spsc_start) (simp_all add: ring8_items_def)
  obtain tx vs' where tx: "IndexedTx_send GenericCounter_advance GenericCounter_current ring8_producer
      (IndexedTx_new (sp_ring ?s0) (sp_tx ?s0)) 1 list_next [10, 11] (\<lambda>_. 0) = Inr (tx, vs')"
    "ring8_items (itx_tx tx) = [0, 10, 11]"
    using generic.send_list_aligned [where self = "IndexedTx_new [] GenericCounter_new" and idx = 1 and d = "- 1"
        and vs = "[10, 11]" and pad = "\<lambda>_. 0", OF ring8_producer_ok]
    by (auto simp: IndexedTx_new_def GenericCounter_new_def GenericCounter_current_def
        checked_signed_diff_def ring8_items_def ring8_producer_def)
  define s where "s = ?s0\<lparr>sp_ring := itx_tx tx, sp_tx := itx_counter tx\<rparr>"
  have run: "spsc_run ring8_producer ring8_consumer ring8_items [0, 10, 11] s"
    using spsc_send [OF start tx(1)] tx(2) by (simp add: ring8_items_def s_def)
  have "checked_signed_diff 1 (GenericCounter_current (sp_rx s)) = Some 1" "gc_pos (sp_rx s) = 0"
    by (simp_all add: s_def GenericCounter_new_def GenericCounter_current_def checked_signed_diff_def)
  with spsc_recv_reads_history [where idx = 1 and pad = "\<lambda>_. 0" and k = 5, OF ring8_producer_ok ring8_consumer_ok run]
  obtain xs rx where recv: "3 = gc_pos (sp_tx s)" "recv_take GenericCounter_advance GenericCounter_current ring8_consumer
        (IndexedRx_new (sp_ring s) (sp_rx s)) 1 (\<lambda>_. 0) 5 = Inr (xs, rx)"
      "length xs = 2" "\<forall>j < length xs. xs ! j = [0, 10, 11] ! (1 + j)"
      "ring8_items (irx_rx rx) = drop (gc_pos (irx_counter rx)) [0, 10, 11]"
    by auto
  then have "xs = [10, 11]" by (intro nth_equalityI) (auto simp: less_Suc_eq numeral_2_eq_2)
  with run recv show ?thesis by (intro exI [of _ "[0, 10, 11]"] exI [of _ s] exI [of _ xs] exI [of _ rx]) simp
qed

end
