(* ===== verification/Sample_Type.thy ===== *)
theory Sample_Type
  imports Rust_Prelude
begin

text \<open>
  The sample types of \<open>syfala_utils/src/sample_type.rs\<close>: the traits \<open>SampleSize\<close>,
  \<open>SampleFromBytes\<close>, \<open>SampleToBytes\<close> and \<open>SampleTypeSilence\<close> as one record of
  operations, and its ten implementations. A signed integer and a float are their bit
  patterns, which is what the byte conversions move. The locale \<open>sample_codec\<close> is the
  contract the byte streams rely on: a fixed width, panics exactly on slices of another
  length, and both round trips.
\<close>

section \<open>Little-endian bytes\<close>

fun nat_to_le :: "nat \<Rightarrow> nat \<Rightarrow> u8 list" where
  "nat_to_le 0 x = []"
| "nat_to_le (Suc n) x = of_nat x # nat_to_le n (x div 256)"

fun nat_from_le :: "u8 list \<Rightarrow> nat" where
  "nat_from_le [] = 0"
| "nat_from_le (b # bs) = unat b + 256 * nat_from_le bs"

definition to_le_bytes :: "'a::len word \<Rightarrow> u8 list" where
  "to_le_bytes w = nat_to_le (LENGTH('a) div 8) (unat w)"

definition from_le_bytes :: "u8 list \<Rightarrow> 'a::len word" where
  "from_le_bytes bs = of_nat (nat_from_le bs)"

lemma length_nat_to_le [simp]: "length (nat_to_le n x) = n"
  by (induction n arbitrary: x) simp_all

lemma nat_from_le_bound: "nat_from_le bs < 256 ^ length bs"
proof (induction bs)
  case Nil
  then show ?case by simp
next
  case (Cons b bs)
  have "unat b < 256" using unsigned_less [of b, where 'a = nat] by simp
  with Cons show ?case by simp
qed

lemma nat_from_to_le: "x < 256 ^ n \<Longrightarrow> nat_from_le (nat_to_le n x) = x"
proof (induction n arbitrary: x)
  case 0
  then show ?case by simp
next
  case (Suc n)
  then have "x div 256 < 256 ^ n" by (simp add: less_mult_imp_div_less mult.commute)
  with Suc.IH show ?case by (simp add: unat_of_nat)
qed

lemma nat_to_from_le: "nat_to_le (length bs) (nat_from_le bs) = bs"
proof (induction bs)
  case Nil
  then show ?case by simp
next
  case (Cons b bs)
  have "unat b < 256" using unsigned_less [of b, where 'a = nat] by simp
  then have "(unat b + 256 * nat_from_le bs) div 256 = nat_from_le bs" by simp
  moreover have "(of_nat (unat b + 256 * nat_from_le bs) :: u8) = b"
  proof -
    have "(256 :: u8) = 0" by simp
    then show ?thesis by (simp only: of_nat_add of_nat_mult of_nat_numeral) simp
  qed
  ultimately show ?case using Cons by simp
qed

lemma le_bytes_round_trip:
  assumes "8 * (LENGTH('a) div 8) = LENGTH('a::len)"
  shows "from_le_bytes (to_le_bytes w) = (w :: 'a word)"
    and "length bs = LENGTH('a) div 8 \<Longrightarrow> to_le_bytes (from_le_bytes bs :: 'a word) = bs"
proof -
  have "(256 :: nat) ^ (LENGTH('a) div 8) = 2 ^ (8 * (LENGTH('a) div 8))"
    by (simp add: power_mult)
  then have pow: "(256 :: nat) ^ (LENGTH('a) div 8) = 2 ^ LENGTH('a)" using assms by simp
  have "unat w < 256 ^ (LENGTH('a) div 8)"
    unfolding pow by (rule unsigned_less)
  then show "from_le_bytes (to_le_bytes w) = w"
    by (simp add: from_le_bytes_def to_le_bytes_def nat_from_to_le)
  show "to_le_bytes (from_le_bytes bs :: 'a word) = bs" if len: "length bs = LENGTH('a) div 8"
  proof -
    have "nat_from_le bs < 2 ^ LENGTH('a)"
      using nat_from_le_bound [of bs] by (simp add: len pow)
    then have "unat (of_nat (nat_from_le bs) :: 'a word) = nat_from_le bs" by simp
    then show ?thesis
      using nat_to_from_le [of bs] by (simp add: from_le_bytes_def to_le_bytes_def len)
  qed
qed

section \<open>The sample traits\<close>

record 'a sample_ops =
  SIZE :: u8  \<comment> \<open>\<open>NonZeroU8\<close>\<close>
  from_bytes :: "u8 list \<Rightarrow> 'a rust"
  to_bytes :: "'a \<Rightarrow> u8 list \<Rightarrow> u8 list rust"
  SILENCE :: 'a

text \<open>
  \<open>slice.try_into().unwrap()\<close> panics when the slice is not an array of the type's width;
  so does \<open>slice.as_mut_array().unwrap()\<close>, which is otherwise overwritten in place.
\<close>

definition from_le_slice :: "u8 list \<Rightarrow> 'a::len word rust" where
  "from_le_slice sl =
     (if length sl = LENGTH('a) div 8 then Inr (from_le_bytes sl) else Inl UnwrapErr)"

definition to_le_slice :: "'a::len word \<Rightarrow> u8 list \<Rightarrow> u8 list rust" where
  "to_le_slice w sl =
     (if length sl = LENGTH('a) div 8 then Inr (to_le_bytes w) else Inl UnwrapNone)"

definition u8_sample :: "8 word sample_ops" where
  "u8_sample = \<lparr>SIZE = 1, from_bytes = from_le_slice, to_bytes = to_le_slice, SILENCE = (- 1) div 2 + 1\<rparr>"

definition u16_sample :: "16 word sample_ops" where
  "u16_sample = \<lparr>SIZE = 2, from_bytes = from_le_slice, to_bytes = to_le_slice, SILENCE = (- 1) div 2 + 1\<rparr>"

definition u32_sample :: "32 word sample_ops" where
  "u32_sample = \<lparr>SIZE = 4, from_bytes = from_le_slice, to_bytes = to_le_slice, SILENCE = (- 1) div 2 + 1\<rparr>"

definition u64_sample :: "64 word sample_ops" where
  "u64_sample = \<lparr>SIZE = 8, from_bytes = from_le_slice, to_bytes = to_le_slice, SILENCE = (- 1) div 2 + 1\<rparr>"

definition i8_sample :: "8 word sample_ops" where
  "i8_sample = \<lparr>SIZE = 1, from_bytes = from_le_slice, to_bytes = to_le_slice, SILENCE = 0\<rparr>"

definition i16_sample :: "16 word sample_ops" where
  "i16_sample = \<lparr>SIZE = 2, from_bytes = from_le_slice, to_bytes = to_le_slice, SILENCE = 0\<rparr>"

definition i32_sample :: "32 word sample_ops" where
  "i32_sample = \<lparr>SIZE = 4, from_bytes = from_le_slice, to_bytes = to_le_slice, SILENCE = 0\<rparr>"

definition i64_sample :: "64 word sample_ops" where
  "i64_sample = \<lparr>SIZE = 8, from_bytes = from_le_slice, to_bytes = to_le_slice, SILENCE = 0\<rparr>"

text \<open>Floats by bit pattern: \<open>0.\<close> is the pattern with every bit clear.\<close>

definition f32_sample :: "32 word sample_ops" where
  "f32_sample = \<lparr>SIZE = 4, from_bytes = from_le_slice, to_bytes = to_le_slice, SILENCE = 0\<rparr>"

definition f64_sample :: "64 word sample_ops" where
  "f64_sample = \<lparr>SIZE = 8, from_bytes = from_le_slice, to_bytes = to_le_slice, SILENCE = 0\<rparr>"

lemmas sample_defs = u8_sample_def u16_sample_def u32_sample_def u64_sample_def
  i8_sample_def i16_sample_def i32_sample_def i64_sample_def f32_sample_def f64_sample_def

text \<open>The bytes of a sample, whatever was in the buffer before.\<close>

definition sample_enc :: "'a sample_ops \<Rightarrow> 'a \<Rightarrow> u8 list" where
  "sample_enc ops x =
     (case to_bytes ops x (replicate (unat (SIZE ops)) 0) of Inl _ \<Rightarrow> [] | Inr bs \<Rightarrow> bs)"

section \<open>The contract of a sample type\<close>

locale sample_codec =
  fixes ops :: "'a sample_ops"
  assumes size_pos: "0 < unat (SIZE ops)"
    and to_bytes_returns:
      "length sl = unat (SIZE ops) \<Longrightarrow> \<exists>bs. to_bytes ops x sl = Inr bs \<and> length bs = unat (SIZE ops)"
    and to_bytes_panics: "length sl \<noteq> unat (SIZE ops) \<Longrightarrow> \<exists>p. to_bytes ops x sl = Inl p"
    and to_bytes_overwrites:
      "length sl = length sl' \<Longrightarrow> to_bytes ops x sl = to_bytes ops x sl'"
    and from_bytes_panics: "length sl \<noteq> unat (SIZE ops) \<Longrightarrow> \<exists>p. from_bytes ops sl = Inl p"
    and from_to: "to_bytes ops x sl = Inr bs \<Longrightarrow> from_bytes ops bs = Inr x"
    and to_from: "length bs = unat (SIZE ops) \<Longrightarrow> \<exists>x. from_bytes ops bs = Inr x \<and> to_bytes ops x bs = Inr bs"
begin

abbreviation enc :: "'a \<Rightarrow> u8 list" where
  "enc \<equiv> sample_enc ops"

lemma to_bytes_enc: "length sl = unat (SIZE ops) \<Longrightarrow> to_bytes ops x sl = Inr (enc x)"
  using to_bytes_overwrites [of sl "replicate (unat (SIZE ops)) 0" x]
    to_bytes_returns [of "replicate (unat (SIZE ops)) 0" x]
  by (auto simp: sample_enc_def)

lemma length_enc [simp]: "length (enc x) = unat (SIZE ops)"
  using to_bytes_returns [of "replicate (unat (SIZE ops)) 0" x]
  by (auto simp: sample_enc_def)

lemma from_bytes_enc [simp]: "from_bytes ops (enc x) = Inr x"
  using from_to [OF to_bytes_enc [of "replicate (unat (SIZE ops)) 0" x]] by simp

lemma enc_inj: "enc x = enc y \<longleftrightarrow> x = y"
  by (metis from_bytes_enc sum.inject(2))

end

lemma le_ops_codec:
  assumes "from_bytes ops = (from_le_slice :: u8 list \<Rightarrow> 'a::len word rust)" "to_bytes ops = to_le_slice"
    "unat (SIZE ops) = LENGTH('a) div 8" "8 * (LENGTH('a) div 8) = LENGTH('a)"
  shows "sample_codec ops"
proof -
  have "0 < LENGTH('a) div 8" using assms(4) by (metis len_gt_0 mult_is_0 neq0_conv)
  moreover have len: "length (to_le_bytes w) = LENGTH('a) div 8" for w :: "'a word"
    by (simp add: to_le_bytes_def)
  ultimately show ?thesis
    using le_bytes_round_trip [where 'a = 'a, OF assms(4)]
    by unfold_locales (auto simp: assms(1-3) from_le_slice_def to_le_slice_def split: if_splits)
qed

interpretation u8: sample_codec u8_sample
  by (rule le_ops_codec) (simp_all add: sample_defs)

interpretation u16: sample_codec u16_sample
  by (rule le_ops_codec) (simp_all add: sample_defs)

interpretation u32: sample_codec u32_sample
  by (rule le_ops_codec) (simp_all add: sample_defs)

interpretation u64: sample_codec u64_sample
  by (rule le_ops_codec) (simp_all add: sample_defs)

interpretation i8: sample_codec i8_sample
  by (rule le_ops_codec) (simp_all add: sample_defs)

interpretation i16: sample_codec i16_sample
  by (rule le_ops_codec) (simp_all add: sample_defs)

interpretation i32: sample_codec i32_sample
  by (rule le_ops_codec) (simp_all add: sample_defs)

interpretation i64: sample_codec i64_sample
  by (rule le_ops_codec) (simp_all add: sample_defs)

interpretation f32: sample_codec f32_sample
  by (rule le_ops_codec) (simp_all add: sample_defs)

interpretation f64: sample_codec f64_sample
  by (rule le_ops_codec) (simp_all add: sample_defs)

section \<open>Properties\<close>

text \<open>C28: Every one of the ten sample types is a lawful codec: its width is positive, reading
  and writing panic exactly on a slice of another length, and bytes and samples round-trip
  both ways.\<close>

theorem sample_types_lawful:
  "sample_codec u8_sample \<and> sample_codec u16_sample \<and> sample_codec u32_sample \<and> sample_codec u64_sample
   \<and> sample_codec i8_sample \<and> sample_codec i16_sample \<and> sample_codec i32_sample \<and> sample_codec i64_sample
   \<and> sample_codec f32_sample \<and> sample_codec f64_sample"
  by (intro conjI u8.sample_codec_axioms u16.sample_codec_axioms u32.sample_codec_axioms
      u64.sample_codec_axioms i8.sample_codec_axioms i16.sample_codec_axioms i32.sample_codec_axioms
      i64.sample_codec_axioms f32.sample_codec_axioms f64.sample_codec_axioms)

text \<open>The silence of an unsigned sample is the middle of its range, and that of a signed
  sample or a float is zero.\<close>

lemma silence_values:
  "unat (SILENCE u8_sample) = 2 ^ 7 \<and> unat (SILENCE u16_sample) = 2 ^ 15
   \<and> unat (SILENCE u32_sample) = 2 ^ 31 \<and> unat (SILENCE u64_sample) = 2 ^ 63
   \<and> sint (SILENCE i8_sample) = 0 \<and> sint (SILENCE i16_sample) = 0
   \<and> sint (SILENCE i32_sample) = 0 \<and> sint (SILENCE i64_sample) = 0
   \<and> SILENCE f32_sample = 0 \<and> SILENCE f64_sample = 0"
  by (simp add: sample_defs unat_div)

end
