(* ===== verification/Byte_Producer.thy ===== *)
theory Byte_Producer
  imports Indexed_Queue Sample_Type
begin

text \<open>
  Samples to bytes, \<open>syfala_utils/src/byte_producer.rs\<close>: the stateful byte stream over a
  sample iterator, its framer, and the packet producer over a ring buffer. The lemmas of
  the locale \<open>byte_stream\<close> say that, however often a packet's iterator is abandoned half
  way, the bytes handed out are the consecutive bytes of one logical sample stream.
\<close>

section \<open>Definitions\<close>

record SampleByteStream =
  sbs_sample_bytes :: "u8 list"
  sbs_byte_idx :: u64

text \<open>The iterator borrows the stream; the model carries it along.\<close>

record 's SampleByteStreamIter =
  sbi_iter :: 's
  sbi_stream :: SampleByteStream

definition sbi_emit :: "u64 \<Rightarrow> 's SampleByteStreamIter \<Rightarrow> (u8 option \<times> 's SampleByteStreamIter) rust" where
  "sbi_emit spl_byte_idx it =
     (let st = sbi_stream it in
      rbind (strict_add (sbs_byte_idx st) 1) (\<lambda>idx'.
        if unat spl_byte_idx < length (sbs_sample_bytes st)
        then Inr (Some (sbs_sample_bytes st ! unat spl_byte_idx),
                  it\<lparr>sbi_stream := st\<lparr>sbs_byte_idx := idx'\<rparr>\<rparr>)
        else Inl SliceIndex))"

definition SampleByteStreamIter_next ::
  "'a sample_ops \<Rightarrow> ('s, 'a) next_fn \<Rightarrow> ('s SampleByteStreamIter, u8) next_fn" where
  "SampleByteStreamIter_next ops nx it =
     (let st = sbi_stream it;
          spl_byte_idx = sbs_byte_idx st mod ucast (SIZE ops)
      in if spl_byte_idx = 0
         then rbind (nx (sbi_iter it)) (\<lambda>(r, i).
           case r of
             None \<Rightarrow> Inr (None, it\<lparr>sbi_iter := i\<rparr>)
           | Some x \<Rightarrow> rbind (to_bytes ops x (sbs_sample_bytes st)) (\<lambda>bs.
               sbi_emit spl_byte_idx
                 (it\<lparr>sbi_iter := i, sbi_stream := st\<lparr>sbs_sample_bytes := bs\<rparr>\<rparr>)))
         else sbi_emit spl_byte_idx it)"

definition SampleByteStream_new :: "'a sample_ops \<Rightarrow> SampleByteStream" where
  "SampleByteStream_new ops =
     \<lparr>sbs_sample_bytes = replicate (unat (SIZE ops)) 0, sbs_byte_idx = 0\<rparr>"

definition SampleByteStream_current_byte_idx :: "SampleByteStream \<Rightarrow> u64" where
  "SampleByteStream_current_byte_idx self = sbs_byte_idx self"

definition SampleByteStream_feed_samples :: "SampleByteStream \<Rightarrow> 's \<Rightarrow> 's SampleByteStreamIter" where
  "SampleByteStream_feed_samples self samples = \<lparr>sbi_iter = samples, sbi_stream = self\<rparr>"

definition SampleByteStream_frame_samples ::
  "SampleByteStream \<Rightarrow> 's \<Rightarrow> u64 \<times> 's SampleByteStreamIter" where
  "SampleByteStream_frame_samples self samples =
     (SampleByteStream_current_byte_idx self, SampleByteStream_feed_samples self samples)"

text \<open>\<open>SampleSource\<close> for a ring consumer: a chunk of everything available, iterated.\<close>

definition Consumer_get_samples :: "('q, 'c, 'i, 'a) rtrb_consumer \<Rightarrow> 'q \<Rightarrow> 'i rust" where
  "Consumer_get_samples C q = rbind (consumer_get_all C q) (\<lambda>c. Inr (rx_chunk_into_iter C c))"

definition chunk_iter_next :: "('q, 'c, 'i, 'a) rtrb_consumer \<Rightarrow> ('i, 'a) next_fn" where
  "chunk_iter_next C i = Inr (rx_iter_next C i)"

record ('src, 'f) IndexedAudioSampleStreamReceiver =
  ias_source :: 'src
  ias_framer :: 'f

definition produce_packet ::
  "('src \<Rightarrow> 'i rust) \<Rightarrow> ('f \<Rightarrow> 'i \<Rightarrow> u64 \<times> 'it) \<Rightarrow>
   ('src, 'f) IndexedAudioSampleStreamReceiver \<Rightarrow> (u64 \<times> 'it) rust" where
  "produce_packet get_samples frame_samples self =
     rbind (get_samples (ias_source self)) (\<lambda>samples. Inr (frame_samples (ias_framer self) samples))"

text \<open>
  A caller that takes at most \<open>k\<close> bytes of the packet (what fits in its datagram) and
  drops the iterator, which releases the ring chunk.
\<close>

definition packet_take ::
  "'a sample_ops \<Rightarrow> ('q, 'c, 'i, 'a) rtrb_consumer \<Rightarrow>
   ('q, SampleByteStream) IndexedAudioSampleStreamReceiver \<Rightarrow> nat \<Rightarrow>
   (u64 \<times> u8 list \<times> ('q, SampleByteStream) IndexedAudioSampleStreamReceiver) rust" where
  "packet_take ops C self k =
     rbind (produce_packet (Consumer_get_samples C) SampleByteStream_frame_samples self) (\<lambda>(idx, it).
     rbind (pull (SampleByteStreamIter_next ops (chunk_iter_next C)) k it) (\<lambda>(bs, it').
       Inr (idx, bs, \<lparr>ias_source = rx_iter_drop C (sbi_iter it'), ias_framer = sbi_stream it'\<rparr>)))"

section \<open>Rounding up to samples\<close>

definition cdiv :: "nat \<Rightarrow> nat \<Rightarrow> nat" where
  "cdiv i z = (i + (z - 1)) div z"

lemma cdiv_Suc: "0 < z \<Longrightarrow> cdiv (Suc i) z = Suc (i div z)"
  by (simp add: cdiv_def div_add_self2)

lemma cdiv_dvd:
  assumes "0 < z" "i mod z = 0"
  shows "cdiv i z = i div z"
proof -
  obtain q where "i = q * z" using assms(2) by (metis mod_0_imp_dvd dvd_def mult.commute)
  then have "i + (z - 1) = (z - 1) + q * z" by simp
  then have "cdiv i z = q + (z - 1) div z"
    using assms(1) unfolding cdiv_def by (metis div_mult_self1 not_gr0)
  with \<open>i = q * z\<close> assms(1) show ?thesis by simp
qed

lemma cdiv_not_dvd:
  assumes "0 < z" "i mod z \<noteq> 0"
  shows "cdiv i z = Suc (i div z)"
proof -
  obtain j where j: "i = Suc j" using assms(2) by (cases i) auto
  have "(Suc j) div z = j div z" using assms j by (metis div_Suc)
  with j assms show ?thesis by (simp add: cdiv_Suc)
qed

lemma le_cdiv: "0 < z \<Longrightarrow> i \<le> cdiv i z * z"
proof (cases "i mod z = 0")
  case True
  assume "0 < z"
  with True show ?thesis by (simp add: cdiv_dvd) (metis True add.right_neutral div_mult_mod_eq order_refl)
next
  case False
  assume z: "0 < z"
  have "i = i div z * z + i mod z" by simp
  moreover have "i mod z < z" using z by simp
  ultimately show ?thesis unfolding cdiv_not_dvd [OF z False] mult_Suc by linarith
qed

lemma cdiv_le: "0 < z \<Longrightarrow> cdiv i z \<le> e \<Longrightarrow> i \<le> e * z"
  using le_cdiv [of z i] mult_le_mono1 [of "cdiv i z" e z] by linarith

section \<open>Bytes of a logical sample stream\<close>

text \<open>
  Byte \<open>i\<close> of the logical stream \<open>S\<close> of samples, and the state of a byte stream that
  stands at its position in it: inside a sample, the buffer holds that sample's bytes.
\<close>

definition stream_byte :: "'a sample_ops \<Rightarrow> (nat \<Rightarrow> 'a) \<Rightarrow> nat \<Rightarrow> u8" where
  "stream_byte ops S i = sample_enc ops (S (i div unat (SIZE ops))) ! (i mod unat (SIZE ops))"

definition stream_at :: "'a sample_ops \<Rightarrow> (nat \<Rightarrow> 'a) \<Rightarrow> SampleByteStream \<Rightarrow> bool" where
  "stream_at ops S st \<longleftrightarrow> length (sbs_sample_bytes st) = unat (SIZE ops)
     \<and> (unat (sbs_byte_idx st) mod unat (SIZE ops) \<noteq> 0 \<longrightarrow>
          sbs_sample_bytes st = sample_enc ops (S (unat (sbs_byte_idx st) div unat (SIZE ops))))"

lemma stream_byte_concat:
  assumes "sample_codec ops"
  shows "map (stream_byte ops S) [0..<n * unat (SIZE ops)] = concat (map (\<lambda>i. sample_enc ops (S i)) [0..<n])"
proof (induction n)
  case 0
  then show ?case by simp
next
  case (Suc n)
  let ?w = "unat (SIZE ops)"
  have w: "0 < ?w" and len: "length (sample_enc ops x) = ?w" for x
    using sample_codec.size_pos [OF assms] sample_codec.length_enc [OF assms] by auto
  have "stream_byte ops S (n * ?w + j) = sample_enc ops (S n) ! j" if "j < ?w" for j
    using that w by (simp add: stream_byte_def)
  then have "map (stream_byte ops S) [n * ?w..<n * ?w + ?w] = sample_enc ops (S n)"
    by (intro nth_equalityI) (simp_all add: len)
  moreover have "[0..<Suc n * ?w] = [0..<n * ?w] @ [n * ?w..<n * ?w + ?w]"
    using upt_add_eq_append [of 0 "n * ?w" ?w] by (simp add: add.commute)
  ultimately show ?case using Suc by simp
qed

locale byte_stream = sample_codec ops + list_iter nx nt items frame
  for ops :: "'a sample_ops"
    and nx :: "('s, 'a) next_fn" and nt :: "('s, 'a) nth_fn"
    and items :: "'s \<Rightarrow> 'a list" and frame :: "'s \<Rightarrow> 'f"
begin

abbreviation width :: nat where
  "width \<equiv> unat (SIZE ops)"

abbreviation byte_at :: "(nat \<Rightarrow> 'a) \<Rightarrow> nat \<Rightarrow> u8" where
  "byte_at \<equiv> stream_byte ops"

abbreviation stream_ok :: "(nat \<Rightarrow> 'a) \<Rightarrow> SampleByteStream \<Rightarrow> bool" where
  "stream_ok \<equiv> stream_at ops"

lemma unat_size64: "unat (ucast (SIZE ops) :: u64) = width"
  by (simp add: unat_ucast_wider)

lemma unat_spl_idx: "unat (idx mod ucast (SIZE ops) :: u64) = unat idx mod width"
  by (simp add: unat_mod unat_size64)

lemma emit_ok:
  assumes "length (sbs_sample_bytes (sbi_stream it)) = width"
    "sbs_sample_bytes (sbi_stream it) = enc (S (unat (sbs_byte_idx (sbi_stream it)) div width))"
    "unat j = unat (sbs_byte_idx (sbi_stream it)) mod width"
    "Suc (unat (sbs_byte_idx (sbi_stream it))) < 2 ^ 64"
  defines "it' \<equiv> it\<lparr>sbi_stream := (sbi_stream it)\<lparr>sbs_byte_idx := sbs_byte_idx (sbi_stream it) + 1\<rparr>\<rparr>"
  shows "sbi_emit j it = Inr (Some (byte_at S (unat (sbs_byte_idx (sbi_stream it)))), it')"
    and "stream_ok S (sbi_stream it')"
    and "unat (sbs_byte_idx (sbi_stream it')) = Suc (unat (sbs_byte_idx (sbi_stream it)))"
proof -
  let ?i = "sbs_byte_idx (sbi_stream it)"
  have u: "unat (?i + 1) = Suc (unat ?i)"
    using assms(4) by (simp add: unat_plus_1)
  have "unat j < width" using assms(3) size_pos by simp
  with assms(1-4) show "sbi_emit j it = Inr (Some (byte_at S (unat ?i)), it')"
    by (simp add: sbi_emit_def Let_def strict_add_def stream_byte_def it'_def)
  show "unat (sbs_byte_idx (sbi_stream it')) = Suc (unat ?i)"
    by (simp add: it'_def u)
  have "Suc (unat ?i) mod width \<noteq> 0 \<Longrightarrow> Suc (unat ?i) div width = unat ?i div width"
    by (metis div_Suc)
  then show "stream_ok S (sbi_stream it')"
    using assms(1,2) by (auto simp: stream_at_def it'_def u)
qed

abbreviation pos :: "'s SampleByteStreamIter \<Rightarrow> nat" where
  "pos it \<equiv> unat (sbs_byte_idx (sbi_stream it))"

text \<open>The iterator stands at its position in the stream \<open>S\<close>, with samples up to \<open>e\<close> to come.\<close>

definition at_stream :: "(nat \<Rightarrow> 'a) \<Rightarrow> nat \<Rightarrow> 's SampleByteStreamIter \<Rightarrow> bool" where
  "at_stream S e it \<longleftrightarrow> stream_ok S (sbi_stream it) \<and> cdiv (pos it) width \<le> e
     \<and> items (sbi_iter it) = map S [cdiv (pos it) width..<e]"

lemma next_end:
  assumes "at_stream S e it" "e * width \<le> pos it"
  shows "\<exists>it'. SampleByteStreamIter_next ops nx it = Inr (None, it') \<and> at_stream S e it'
    \<and> sbi_stream it' = sbi_stream it \<and> frame (sbi_iter it') = frame (sbi_iter it)"
proof -
  have eq: "pos it = e * width"
    using assms cdiv_le [OF size_pos] by (auto simp: at_stream_def intro: antisym)
  then have "items (sbi_iter it) = []" and z: "pos it mod width = 0"
    using assms(1) size_pos by (auto simp: at_stream_def cdiv_dvd)
  then obtain i where "nx (sbi_iter it) = Inr (None, i)" "items i = []" "frame i = frame (sbi_iter it)"
    using next_items [of "sbi_iter it"] by auto
  moreover have "sbs_byte_idx (sbi_stream it) mod ucast (SIZE ops) = (0 :: u64)"
    using z by (simp add: word_unat_eq_iff unat_spl_idx)
  ultimately show ?thesis
    using assms(1) eq size_pos
    by (intro exI [of _ "it\<lparr>sbi_iter := i\<rparr>"])
      (simp add: SampleByteStreamIter_next_def Let_def at_stream_def cdiv_dvd)
qed

lemma next_byte:
  assumes at: "at_stream S e it" and lt: "pos it < e * width" and fits: "Suc (pos it) < 2 ^ 64"
  shows "\<exists>it'. SampleByteStreamIter_next ops nx it = Inr (Some (byte_at S (pos it)), it')
    \<and> at_stream S e it' \<and> pos it' = Suc (pos it) \<and> frame (sbi_iter it') = frame (sbi_iter it)"
proof (cases "pos it mod width = 0")
  case True
  let ?m = "pos it div width" and ?st = "sbi_stream it"
  have m: "?m < e" using lt size_pos by (simp add: less_mult_imp_div_less)
  with at True have its: "items (sbi_iter it) = S ?m # map S [Suc ?m..<e]"
    using size_pos by (simp add: at_stream_def cdiv_dvd upt_conv_Cons)
  obtain i where i: "nx (sbi_iter it) = Inr (Some (S ?m), i)" "items i = map S [Suc ?m..<e]"
      "frame i = frame (sbi_iter it)"
    using next_items [of "sbi_iter it"] its by auto
  let ?it = "it\<lparr>sbi_iter := i, sbi_stream := ?st\<lparr>sbs_sample_bytes := enc (S ?m)\<rparr>\<rparr>"
  have "to_bytes ops (S ?m) (sbs_sample_bytes ?st) = Inr (enc (S ?m))"
    using at by (simp add: at_stream_def stream_at_def to_bytes_enc)
  moreover have "sbs_byte_idx ?st mod ucast (SIZE ops) = (0 :: u64)"
    using True by (simp add: word_unat_eq_iff unat_spl_idx)
  ultimately have "SampleByteStreamIter_next ops nx it = sbi_emit 0 ?it"
    using i(1) by (simp add: SampleByteStreamIter_next_def Let_def)
  with emit_ok [of ?it S 0] i m True fits size_pos show ?thesis
    by (auto simp: at_stream_def cdiv_Suc)
next
  case False
  have "SampleByteStreamIter_next ops nx it =
      sbi_emit (sbs_byte_idx (sbi_stream it) mod ucast (SIZE ops)) it"
    using False by (auto simp: SampleByteStreamIter_next_def Let_def word_unat_eq_iff unat_spl_idx)
  with emit_ok [of it S "sbs_byte_idx (sbi_stream it) mod ucast (SIZE ops)"] at False fits size_pos
  show ?thesis
    by (auto simp: at_stream_def stream_at_def unat_spl_idx cdiv_Suc cdiv_not_dvd)
qed

lemma pull_bytes:
  assumes "at_stream S e it" "min (pos it + k) (e * width) < 2 ^ 64"
  shows "\<exists>it'. pull (SampleByteStreamIter_next ops nx) k it =
      Inr (map (byte_at S) [pos it..<min (pos it + k) (e * width)], it')
    \<and> at_stream S e it' \<and> pos it' = min (pos it + k) (e * width)
    \<and> frame (sbi_iter it') = frame (sbi_iter it)"
  using assms
proof (induction k arbitrary: it)
  case 0
  then have "pos it \<le> e * width" using cdiv_le [OF size_pos] by (simp add: at_stream_def)
  with 0 show ?case by auto
next
  case (Suc k)
  show ?case
  proof (cases "pos it < e * width")
    case True
    with Suc.prems obtain it1 where it1: "SampleByteStreamIter_next ops nx it =
        Inr (Some (byte_at S (pos it)), it1)" "at_stream S e it1" "pos it1 = Suc (pos it)"
        "frame (sbi_iter it1) = frame (sbi_iter it)"
      using next_byte [of S e it] by (auto simp: min_def split: if_splits)
    moreover have "min (pos it1 + k) (e * width) = min (pos it + Suc k) (e * width)"
      using it1(3) by simp
    ultimately show ?thesis
      using Suc.IH [of it1] Suc.prems(2) True by (auto simp: upt_conv_Cons)
  next
    case False
    with next_end [OF Suc.prems(1)] Suc.prems(1) cdiv_le [OF size_pos, of "pos it" e]
    show ?thesis by (auto simp: at_stream_def)
  qed
qed

end

lemma rtrb_chunk_iter:
  assumes "rtrb_consumer_ok C items chunk rest"
  shows "list_iter (chunk_iter_next C) (\<lambda>i n. Inr (rx_iter_nth C i n)) chunk rest"
proof unfold_locales
  fix i n
  show "\<exists>i'. chunk_iter_next C i = Inr (if chunk i = [] then None else Some (hd (chunk i)), i')
      \<and> chunk i' = tl (chunk i) \<and> rest i' = rest i"
    using assms unfolding rtrb_consumer_ok_def chunk_iter_next_def by metis
  show "\<exists>i'. Inr (rx_iter_nth C i n) = Inr (if n < length (chunk i) then Some (chunk i ! n) else None, i')
      \<and> chunk i' = drop (Suc n) (chunk i) \<and> rest i' = rest i"
    using assms unfolding rtrb_consumer_ok_def by metis
qed

interpretation f32_vec: byte_stream f32_sample list_next "nth_default list_next" "\<lambda>xs. xs" "\<lambda>xs. ()"
  by unfold_locales

section \<open>Packets\<close>

lemma packet_take_spec:
  assumes "sample_codec ops" and "rtrb_consumer_ok C items chunk rest"
    and "stream_at ops S (ias_framer self)"
    and "items (ias_source self) = map S [cdiv i (unat (SIZE ops))..<e]"
    and "cdiv i (unat (SIZE ops)) \<le> e"
    and "i = unat (sbs_byte_idx (ias_framer self))"
    and "e * unat (SIZE ops) < 2 ^ 64"
  shows "\<exists>self'. packet_take ops C self k =
      Inr (sbs_byte_idx (ias_framer self), map (stream_byte ops S) [i..<min (i + k) (e * unat (SIZE ops))], self')
    \<and> stream_at ops S (ias_framer self')
    \<and> unat (sbs_byte_idx (ias_framer self')) = min (i + k) (e * unat (SIZE ops))
    \<and> items (ias_source self') =
        map S [cdiv (min (i + k) (e * unat (SIZE ops))) (unat (SIZE ops))..<e]"
proof -
  have bs: "byte_stream ops (chunk_iter_next C) (\<lambda>i n. Inr (rx_iter_nth C i n)) chunk rest"
    using assms(1) rtrb_chunk_iter [OF assms(2)] by (rule byte_stream.intro)
  obtain c where c: "consumer_get_all C (ias_source self) = Inr c"
    "chunk (rx_chunk_into_iter C c) = items (ias_source self)" "rest (rx_chunk_into_iter C c) = []"
    using consumer_get_all_ok [OF assms(2)] .
  let ?it = "SampleByteStream_feed_samples (ias_framer self) (rx_chunk_into_iter C c)"
  have "byte_stream.at_stream ops chunk S e ?it"
    using assms(3-6) c
    by (simp add: byte_stream.at_stream_def [OF bs] SampleByteStream_feed_samples_def)
  moreover have "unat (sbs_byte_idx (sbi_stream ?it)) = i"
    using assms(6) by (simp add: SampleByteStream_feed_samples_def)
  ultimately obtain it' where it': "pull (SampleByteStreamIter_next ops (chunk_iter_next C)) k ?it =
      Inr (map (stream_byte ops S) [i..<min (i + k) (e * unat (SIZE ops))], it')"
    "byte_stream.at_stream ops chunk S e it'"
    "unat (sbs_byte_idx (sbi_stream it')) = min (i + k) (e * unat (SIZE ops))"
    "rest (sbi_iter it') = rest (sbi_iter ?it)"
    using byte_stream.pull_bytes [OF bs, of S e ?it k] assms(7) by fastforce
  moreover have "items (rx_iter_drop C (sbi_iter it')) = chunk (sbi_iter it')"
    using assms(2) c(3) it'(4)
    by (auto simp: rtrb_consumer_ok_def SampleByteStream_feed_samples_def)
  ultimately show ?thesis
    using c(1) by (simp add: packet_take_def produce_packet_def Consumer_get_samples_def
        SampleByteStream_frame_samples_def SampleByteStream_current_byte_idx_def
        byte_stream.at_stream_def [OF bs])
qed

section \<open>Properties\<close>

text \<open>C7: A packet produced from the ring carries the next bytes of the logical sample stream.
  If the framer stands at its position in stream \<open>S\<close> and the ring holds the samples from
  there up to sample \<open>e\<close>, then taking \<open>k\<close> bytes never panics, the packet's index is the
  position, its bytes are the stream's bytes from there (as many as asked for and available),
  and framer and ring are again at their positions: no byte is lost or repeated between
  packets, also when a packet ends inside a sample.\<close>

theorem packets_are_consecutive:
  assumes "sample_codec ops" and "rtrb_consumer_ok C items chunk rest"
    and "stream_at ops S (ias_framer self)"
    and "items (ias_source self) = map S [cdiv i (unat (SIZE ops))..<e]"
    and "cdiv i (unat (SIZE ops)) \<le> e"
    and "i = unat (sbs_byte_idx (ias_framer self))"
    and "e * unat (SIZE ops) < 2 ^ 64"
  shows "\<exists>self'. packet_take ops C self k =
      Inr (sbs_byte_idx (ias_framer self), map (stream_byte ops S) [i..<min (i + k) (e * unat (SIZE ops))], self')
    \<and> stream_at ops S (ias_framer self')
    \<and> unat (sbs_byte_idx (ias_framer self')) = min (i + k) (e * unat (SIZE ops))
    \<and> items (ias_source self') =
        map S [cdiv (min (i + k) (e * unat (SIZE ops))) (unat (SIZE ops))..<e]"
  by (rule packet_take_spec [OF assms])

theorem packets_are_consecutive_witness:
  "\<exists>self'. packet_take u16_sample ring8_consumer
      \<lparr>ias_source = [0x0302, 0x0504 :: 16 word],
       ias_framer = \<lparr>sbs_sample_bytes = [0, 1], sbs_byte_idx = 1\<rparr>\<rparr> 2 =
      Inr (1, map (stream_byte u16_sample (\<lambda>n. [0x0100, 0x0302, 0x0504] ! n)) [1..<3], self')
    \<and> stream_at u16_sample (\<lambda>n. [0x0100, 0x0302, 0x0504] ! n) (ias_framer self')
    \<and> unat (sbs_byte_idx (ias_framer self')) = 3
    \<and> ring8_items (ias_source self') = map (\<lambda>n. [0x0100, 0x0302, 0x0504] ! n) [2..<3]"
proof -
  let ?S = "\<lambda>n. [0x0100, 0x0302, 0x0504 :: 16 word] ! n"
  let ?self = "\<lparr>ias_source = [0x0302, 0x0504], ias_framer = \<lparr>sbs_sample_bytes = [0, 1], sbs_byte_idx = 1\<rparr>\<rparr>"
  have size: "unat (SIZE u16_sample) = 2" by (simp add: u16_sample_def)
  have "nat_to_le 2 256 = [0, 1]" unfolding numeral_2_eq_2 by simp
  then have st: "stream_at u16_sample ?S (ias_framer ?self)"
    by (simp add: stream_at_def size sample_enc_def to_le_bytes_def u16_sample_def to_le_slice_def)
  have "cdiv (Suc 0) 2 = 1" "cdiv 3 2 = 2" by (simp_all add: cdiv_def)
  then show ?thesis
    using packets_are_consecutive [where i = 1 and k = 2 and e = 3, OF u16.sample_codec_axioms
        ring8_consumer_ok st]
    by (simp add: ring8_items_def size upt_conv_Cons flip: numeral_3_eq_3 numeral_2_eq_2)
qed

text \<open>C29: Feeding a fresh stream a list of samples and draining it yields the concatenation of
  the samples' bytes, in order, and nothing else.\<close>

theorem feed_samples_yields_encodings:
  assumes "sample_codec ops" and "length xs * unat (SIZE ops) < 2 ^ 64"
    and "length xs * unat (SIZE ops) \<le> k"
  shows "\<exists>it'. pull (SampleByteStreamIter_next ops list_next) k
      (SampleByteStream_feed_samples (SampleByteStream_new ops) xs) =
    Inr (concat (map (sample_enc ops) xs), it')"
proof -
  let ?it = "SampleByteStream_feed_samples (SampleByteStream_new ops) xs"
  have bs: "byte_stream ops list_next (nth_default list_next) (\<lambda>xs. xs) (\<lambda>xs. ())"
    using assms(1) vec.list_iter_axioms by (rule byte_stream.intro)
  have "byte_stream.at_stream ops (\<lambda>xs. xs) ((!) xs) (length xs) ?it"
    using sample_codec.size_pos [OF assms(1)]
    by (simp add: byte_stream.at_stream_def [OF bs] SampleByteStream_feed_samples_def
        SampleByteStream_new_def stream_at_def cdiv_dvd map_nth)
  then obtain it' where "pull (SampleByteStreamIter_next ops list_next) k ?it =
      Inr (map (stream_byte ops ((!) xs)) [0..<length xs * unat (SIZE ops)], it')"
    using byte_stream.pull_bytes [OF bs, of "(!) xs" "length xs" ?it k] assms(2,3)
    by (auto simp: SampleByteStream_feed_samples_def SampleByteStream_new_def min.absorb2)
  moreover have "map (\<lambda>i. sample_enc ops (xs ! i)) [0..<length xs] = map (sample_enc ops) xs"
    by (intro nth_equalityI) simp_all
  ultimately show ?thesis by (simp add: stream_byte_concat [OF assms(1)])
qed

theorem feed_samples_yields_encodings_witness:
  "\<exists>it'. pull (SampleByteStreamIter_next u16_sample list_next) 10
      (SampleByteStream_feed_samples (SampleByteStream_new u16_sample) [0x0102, 0x0304]) =
    Inr (concat (map (sample_enc u16_sample) [0x0102, 0x0304]), it')"
  using feed_samples_yields_encodings [of u16_sample "[0x0102, 0x0304]" 10] u16.sample_codec_axioms
  by (simp add: u16_sample_def)

end
