(* ===== verification/Byte_Consumer.thy ===== *)
theory Byte_Consumer
  imports Byte_Producer
begin

text \<open>
  Bytes back to samples, \<open>syfala_utils/src/byte_consumer.rs\<close>: \<open>AudioPacketSamplePadder\<close>
  and the packet consumer that writes its samples into a ring. The index bookkeeping is
  eager (at the call of \<open>feed_bytes\<close>), the byte loop is lazy (at each \<open>next\<close> of the
  returned iterator), and the model keeps the two apart. The bytes of a packet are a finite
  list. The lemmas show what the loop does as it is written, including that the slice it
  takes to decode a complete sample, \<open>current_sample_bytes[curr - size..curr]\<close>, always
  panics, because \<open>curr\<close> is an index inside the sample.
\<close>

section \<open>Definitions\<close>

record AudioPacketSamplePadder =
  apsp_byte_idx :: u64
  apsp_sample_bytes :: "u8 list"

definition AudioPacketSamplePadder_new :: "'a sample_ops \<Rightarrow> AudioPacketSamplePadder" where
  "AudioPacketSamplePadder_new ops =
     \<lparr>apsp_byte_idx = 0, apsp_sample_bytes = replicate (unat (SIZE ops)) 0\<rparr>"

text \<open>The closure of \<open>filter_map\<close>: one byte.\<close>

definition padder_push ::
  "'a sample_ops \<Rightarrow> AudioPacketSamplePadder \<Rightarrow> u8 \<Rightarrow> ('a option \<times> AudioPacketSamplePadder) rust" where
  "padder_push ops self byte =
     (let bps = ucast (SIZE ops) :: u64;
          sample_size = ucast (SIZE ops) :: usize;
          curr = apsp_byte_idx self mod bps
      in if length (apsp_sample_bytes self) \<le> unat curr then Inl SliceIndex
         else let buf = (apsp_sample_bytes self)[unat curr := byte] in
           rbind (strict_add (apsp_byte_idx self) 1) (\<lambda>idx'.
             let self' = \<lparr>apsp_byte_idx = idx', apsp_sample_bytes = buf\<rparr> in
             if idx' mod bps \<noteq> 0 then Inr (None, self')
             else rbind (strict_sub curr sample_size) (\<lambda>lo.
               if unat lo \<le> unat curr \<and> unat curr \<le> length buf
               then rbind (from_bytes ops (take (unat curr - unat lo) (drop (unat lo) buf)))
                      (\<lambda>x. Inr (Some x, self'))
               else Inl SliceIndex)))"

text \<open>\<open>FilterMap::next\<close>: bytes are pushed until one of them completes a sample.\<close>

fun padder_scan ::
  "'a sample_ops \<Rightarrow> u8 list \<Rightarrow> AudioPacketSamplePadder \<Rightarrow>
   ('a option \<times> u8 list \<times> AudioPacketSamplePadder) rust" where
  "padder_scan ops [] self = Inr (None, [], self)"
| "padder_scan ops (b # bs) self =
     rbind (padder_push ops self b) (\<lambda>(r, self').
       case r of None \<Rightarrow> padder_scan ops bs self' | Some x \<Rightarrow> Inr (Some x, bs, self'))"

record PadderIter =
  pit_padding :: nat
  pit_pad_calls :: nat
  pit_skip :: nat
  pit_bytes :: "u8 list"
  pit_padder :: AudioPacketSamplePadder

definition PadderIter_next :: "'a sample_ops \<Rightarrow> (nat \<Rightarrow> 'a) \<Rightarrow> (PadderIter, 'a) next_fn" where
  "PadderIter_next ops pad_fn it =
     (if 0 < pit_padding it
      then Inr (Some (pad_fn (pit_pad_calls it)),
                it\<lparr>pit_padding := pit_padding it - 1, pit_pad_calls := Suc (pit_pad_calls it)\<rparr>)
      else rbind (padder_scan ops (drop (pit_skip it) (pit_bytes it)) (pit_padder it)) (\<lambda>(r, bs, p).
             Inr (r, it\<lparr>pit_skip := 0, pit_bytes := bs, pit_padder := p\<rparr>)))"

definition feed_bytes ::
  "'a sample_ops \<Rightarrow> AudioPacketSamplePadder \<Rightarrow> u64 \<Rightarrow> u8 list \<Rightarrow> PadderIter rust" where
  "feed_bytes ops self byte_idx bytes =
     (if unat (SIZE ops) \<noteq> length (apsp_sample_bytes self) then Inl AssertFailed
      else
        let cur = apsp_byte_idx self;
            bps = ucast (SIZE ops) :: u64
        in rbind
          (if byte_idx < cur then Inr (0, unat (- 1 :: usize), self)
           else if byte_idx = cur then Inr (0, 0, self)
           else
             let prev_spl_idx = cur div bps in
             rbind (strict_sub bps 1) (\<lambda>b1.
             rbind (strict_add byte_idx b1) (\<lambda>t.
               let next_spl_idx = t div bps in
               rbind (strict_sub next_spl_idx prev_spl_idx) (\<lambda>n_padding_samples.
               rbind (strict_mul next_spl_idx bps) (\<lambda>next_spl_byte_idx.
               rbind (strict_sub next_spl_byte_idx cur) (\<lambda>n_skipped_bytes.
                 Inr (unat n_padding_samples, unat n_skipped_bytes,
                      self\<lparr>apsp_byte_idx := next_spl_byte_idx\<rparr>)))))))
          (\<lambda>(n_padding_spls, n_skipped_bytes, self').
             Inr \<lparr>pit_padding = n_padding_spls, pit_pad_calls = 0, pit_skip = n_skipped_bytes,
                  pit_bytes = bytes, pit_padder = self'\<rparr>))"

definition frame_bytes_next :: "'a sample_ops \<Rightarrow> (PadderIter, 'a) next_fn" where
  "frame_bytes_next ops = PadderIter_next ops (\<lambda>_. SILENCE ops)"

text \<open>\<open>SampleSink\<close> for a ring producer: as many samples as there are free slots.\<close>

definition Producer_consume_samples ::
  "('q, 'c, 's, 'a) rtrb_producer \<Rightarrow> 'q \<Rightarrow> ('s, 'a) next_fn \<Rightarrow> 's \<Rightarrow> (usize \<times> 'q \<times> 's) rust" where
  "Producer_consume_samples P q nx it =
     rbind (producer_get_all P q) (\<lambda>c. tx_fill_from_iter P c nx it)"

record ('q, 'f) IndexedAudioByteStreamSender =
  ibs_sink :: 'q
  ibs_framer :: 'f

definition consume_packet ::
  "'a sample_ops \<Rightarrow> ('q, 'c, PadderIter, 'a) rtrb_producer \<Rightarrow>
   ('q, AudioPacketSamplePadder) IndexedAudioByteStreamSender \<Rightarrow> u64 \<Rightarrow> u8 list \<Rightarrow>
   ('q, AudioPacketSamplePadder) IndexedAudioByteStreamSender rust" where
  "consume_packet ops P self byte_idx bytes =
     rbind (feed_bytes ops (ibs_framer self) byte_idx bytes) (\<lambda>it.
     rbind (Producer_consume_samples P (ibs_sink self) (frame_bytes_next ops) it) (\<lambda>(n, q, it').
       Inr \<lparr>ibs_sink = q, ibs_framer = pit_padder it'\<rparr>))"

section \<open>The byte loop\<close>

abbreviation apsp_pos :: "AudioPacketSamplePadder \<Rightarrow> nat" where
  "apsp_pos self \<equiv> unat (apsp_byte_idx self)"

context sample_codec
begin

abbreviation w :: nat where
  "w \<equiv> unat (SIZE ops)"

lemma unat_bps: "unat (ucast (SIZE ops) :: u64) = w"
  by (simp add: unat_ucast_wider)

lemma unat_mod_bps: "unat (i mod ucast (SIZE ops) :: u64) = unat i mod w"
  by (simp add: unat_mod unat_bps)

lemma bps_sub_overflow: "strict_sub (i mod ucast (SIZE ops)) (ucast (SIZE ops) :: u64) = Inl Overflow"
  using size_pos by (simp add: strict_sub_def unat_mod_bps unat_bps not_le)

lemma padder_push_eq:
  assumes "length (apsp_sample_bytes self) = w"
  shows "padder_push ops self b =
    (if Suc (apsp_pos self) < 2 ^ 64 \<and> Suc (apsp_pos self) mod w \<noteq> 0
     then Inr (None, \<lparr>apsp_byte_idx = apsp_byte_idx self + 1,
                      apsp_sample_bytes = (apsp_sample_bytes self)[apsp_pos self mod w := b]\<rparr>)
     else Inl Overflow)"
proof -
  have "(apsp_byte_idx self + 1) mod ucast (SIZE ops) = (0 :: u64) \<longleftrightarrow> Suc (apsp_pos self) mod w = 0"
    if "Suc (apsp_pos self) < 2 ^ 64"
    using unat_plus_1 [of "apsp_byte_idx self"] that by (simp add: word_unat_eq_iff unat_mod_bps)
  moreover have "\<not> w \<le> apsp_pos self mod w" using size_pos by (simp add: not_le)
  ultimately show ?thesis
    using assms by (auto simp: padder_push_def Let_def strict_add_def bps_sub_overflow unat_mod_bps)
qed

text \<open>No byte ever yields a sample.\<close>

lemma padder_push_no_sample: "padder_push ops self b = Inr (r, self') \<Longrightarrow> r = None"
  by (auto simp: padder_push_def Let_def bps_sub_overflow rbind_eq_Inr_iff split: if_splits)

lemma padder_scan_no_sample: "padder_scan ops bs self = Inr (r, bs', self') \<Longrightarrow> r = None \<and> bs' = []"
proof (induction bs arbitrary: self)
  case Nil
  then show ?case by simp
next
  case (Cons b bs)
  then obtain r1 self1 where p: "padder_push ops self b = Inr (r1, self1)"
    and rest: "(case r1 of None \<Rightarrow> padder_scan ops bs self1 | Some x \<Rightarrow> Inr (Some x, bs, self1))
      = Inr (r, bs', self')"
    by (auto simp: rbind_eq_Inr_iff)
  with padder_push_no_sample [OF p] Cons.IH show ?case by simp
qed

text \<open>Bytes that do not reach the end of the current sample are buffered.\<close>

lemma padder_scan_buffers:
  assumes "length (apsp_sample_bytes self) = w"
    and "apsp_pos self mod w + length bs < w" and "apsp_pos self + length bs < 2 ^ 64"
  shows "\<exists>self'. padder_scan ops bs self = Inr (None, [], self')
    \<and> apsp_pos self' = apsp_pos self + length bs \<and> length (apsp_sample_bytes self') = w
    \<and> take (apsp_pos self mod w + length bs) (apsp_sample_bytes self')
        = take (apsp_pos self mod w) (apsp_sample_bytes self) @ bs"
  using assms
proof (induction bs arbitrary: self)
  case Nil
  then show ?case by simp
next
  case (Cons b bs)
  let ?m = "apsp_pos self mod w"
  let ?self = "\<lparr>apsp_byte_idx = apsp_byte_idx self + 1,
      apsp_sample_bytes = (apsp_sample_bytes self)[?m := b]\<rparr>"
  have m: "Suc (apsp_pos self) mod w = Suc ?m"
    using Cons.prems(2) by (simp add: mod_Suc)
  have pos: "apsp_pos ?self = Suc (apsp_pos self)"
    using Cons.prems(3) by (simp add: unat_plus_1)
  have "padder_push ops self b = Inr (None, ?self)"
    using Cons.prems m by (simp add: padder_push_eq)
  moreover obtain self' where "padder_scan ops bs ?self = Inr (None, [], self')"
    "apsp_pos self' = apsp_pos ?self + length bs" "length (apsp_sample_bytes self') = w"
    "take (apsp_pos ?self mod w + length bs) (apsp_sample_bytes self')
       = take (apsp_pos ?self mod w) (apsp_sample_bytes ?self) @ bs"
    using Cons.IH [of ?self] Cons.prems m pos by auto
  moreover have "take (Suc ?m) ((apsp_sample_bytes self)[?m := b]) = take ?m (apsp_sample_bytes self) @ [b]"
    using Cons.prems(1,2) by (simp add: take_Suc_conv_app_nth)
  ultimately show ?case using pos m by simp
qed

text \<open>Bytes that reach the end of the current sample panic.\<close>

lemma padder_scan_panics:
  assumes "length (apsp_sample_bytes self) = w" and "w \<le> apsp_pos self mod w + length bs"
  shows "padder_scan ops bs self = Inl Overflow"
  using assms
proof (induction bs arbitrary: self)
  case Nil
  then show ?case using mod_less_divisor [OF size_pos, of "apsp_pos self"] by simp
next
  case (Cons b bs)
  let ?self = "\<lparr>apsp_byte_idx = apsp_byte_idx self + 1,
      apsp_sample_bytes = (apsp_sample_bytes self)[apsp_pos self mod w := b]\<rparr>"
  show ?case
  proof (cases "Suc (apsp_pos self) < 2 ^ 64 \<and> Suc (apsp_pos self) mod w \<noteq> 0")
    case True
    then have "apsp_pos ?self mod w = Suc (apsp_pos self mod w)"
      using unat_plus_1 [of "apsp_byte_idx self"] by (simp add: mod_Suc split: if_splits)
    with Cons True show ?thesis by (simp add: padder_push_eq)
  next
    case False
    then have "padder_push ops self b = Inl Overflow"
      by (simp only: padder_push_eq [OF Cons.prems(1)] if_False)
    then show ?thesis by simp
  qed
qed

section \<open>The index bookkeeping\<close>

lemma feed_bytes_reordered:
  assumes "length (apsp_sample_bytes self) = w" "byte_idx < apsp_byte_idx self"
  shows "feed_bytes ops self byte_idx bytes = Inr
    \<lparr>pit_padding = 0, pit_pad_calls = 0, pit_skip = 2 ^ 64 - 1, pit_bytes = bytes, pit_padder = self\<rparr>"
proof -
  have "unat (- 1 :: usize) = 2 ^ 64 - 1"
    by (simp add: unsigned_minus_1_eq_mask mask_eq_exp_minus_1)
  with assms show ?thesis by (simp add: feed_bytes_def Let_def)
qed

lemma feed_bytes_in_order:
  assumes "length (apsp_sample_bytes self) = w"
  shows "feed_bytes ops self (apsp_byte_idx self) bytes = Inr
    \<lparr>pit_padding = 0, pit_pad_calls = 0, pit_skip = 0, pit_bytes = bytes, pit_padder = self\<rparr>"
  using assms by (simp add: feed_bytes_def Let_def)

lemma feed_bytes_gap:
  assumes len: "length (apsp_sample_bytes self) = w" and gt: "apsp_pos self < unat byte_idx"
    and fits: "unat byte_idx + w \<le> 2 ^ 64" "cdiv (unat byte_idx) w * w < 2 ^ 64"
  shows "feed_bytes ops self byte_idx bytes = Inr
    \<lparr>pit_padding = cdiv (unat byte_idx) w - apsp_pos self div w, pit_pad_calls = 0,
     pit_skip = cdiv (unat byte_idx) w * w - apsp_pos self, pit_bytes = bytes,
     pit_padder = self\<lparr>apsp_byte_idx := of_nat (cdiv (unat byte_idx) w * w)\<rparr>\<rparr>"
proof -
  let ?bps = "ucast (SIZE ops) :: u64" and ?cur = "apsp_byte_idx self" and ?n = "cdiv (unat byte_idx) w"
  let ?t = "byte_idx + (?bps - 1)" and ?nx = "(byte_idx + (?bps - 1)) div ?bps"
  have b1: "unat (?bps - 1) = w - 1" "strict_sub ?bps 1 = Inr (?bps - 1)"
    using size_pos unat_bps by (simp_all add: strict_sub_def unat_sub word_le_nat_alt Suc_le_eq)
  have "unat byte_idx + (w - 1) < 2 ^ 64" using fits(1) size_pos by linarith
  then have t: "unat ?t = unat byte_idx + (w - 1)" "strict_add byte_idx (?bps - 1) = Inr ?t"
    using b1(1) unat_add_lem [of byte_idx "?bps - 1"] by (simp_all add: strict_add_def)
  then have nx: "unat ?nx = ?n" by (simp add: unat_div unat_bps cdiv_def)
  have "unat byte_idx \<le> ?n * w" using le_cdiv [OF size_pos] .
  then have cur: "apsp_pos self \<le> ?n * w" using gt by linarith
  then have prev: "apsp_pos self div w \<le> ?n" using size_pos
    by (metis div_le_mono nonzero_mult_div_cancel_right not_gr0)
  have mul: "strict_mul ?nx ?bps = Inr (of_nat (?n * w))"
    using fits(2) by (simp add: strict_mul_eq_Inr_iff nx unat_bps del: of_nat_mult)
  have pads: "strict_sub ?nx (?cur div ?bps) = Inr (?nx - ?cur div ?bps)"
    "unat (?nx - ?cur div ?bps) = ?n - apsp_pos self div w"
    using prev nx by (simp_all add: strict_sub_def unat_div unat_bps unat_sub word_le_nat_alt)
  have skip: "strict_sub (of_nat (?n * w)) ?cur = Inr (of_nat (?n * w) - ?cur)"
    "unat (of_nat (?n * w) - ?cur) = ?n * w - apsp_pos self"
    using cur fits(2) by (simp_all add: strict_sub_def unat_sub word_le_nat_alt del: of_nat_mult)
  have "\<not> byte_idx < ?cur" "byte_idx \<noteq> ?cur" using gt by (auto simp: word_less_nat_alt)
  then show ?thesis
    using len b1(2) t(2) pads mul skip by (simp add: feed_bytes_def Let_def del: of_nat_mult)
qed

section \<open>What the returned iterator yields\<close>

lemma PadderIter_next_pad:
  "pit_padding it = Suc m \<Longrightarrow> PadderIter_next ops pad it =
     Inr (Some (pad (pit_pad_calls it)), it\<lparr>pit_padding := m, pit_pad_calls := Suc (pit_pad_calls it)\<rparr>)"
  by (simp add: PadderIter_next_def)

text \<open>Up to the padding, nothing but padding is pulled and no byte is read.\<close>

lemma pull_padding:
  "k \<le> pit_padding it \<Longrightarrow> pull (PadderIter_next ops pad) k it =
     Inr (map pad [pit_pad_calls it..<pit_pad_calls it + k],
          it\<lparr>pit_padding := pit_padding it - k, pit_pad_calls := pit_pad_calls it + k\<rparr>)"
proof (induction k arbitrary: it)
  case 0
  then show ?case by simp
next
  case (Suc k)
  then obtain m where m: "pit_padding it = Suc m" by (cases "pit_padding it") auto
  have "[pit_pad_calls it..<Suc (pit_pad_calls it + k)]
      = pit_pad_calls it # [Suc (pit_pad_calls it)..<Suc (pit_pad_calls it + k)]"
    by (simp add: upt_conv_Cons del: upt_Suc)
  with Suc m show ?case by (simp add: PadderIter_next_pad del: upt_Suc)
qed

text \<open>Past the padding, the byte loop runs once: it buffers every byte or it panics.\<close>

lemma pull_past_padding:
  "pit_padding it < k \<Longrightarrow> pull (PadderIter_next ops pad) k it =
     rbind (padder_scan ops (drop (pit_skip it) (pit_bytes it)) (pit_padder it)) (\<lambda>(r, bs, p).
       Inr (map pad [pit_pad_calls it..<pit_pad_calls it + pit_padding it],
            it\<lparr>pit_padding := 0, pit_pad_calls := pit_pad_calls it + pit_padding it,
               pit_skip := 0, pit_bytes := bs, pit_padder := p\<rparr>))"
proof (induction "pit_padding it" arbitrary: it k)
  case 0
  then obtain k' where k: "k = Suc k'" by (cases k) auto
  have upd: "it\<lparr>pit_padding := 0, pit_pad_calls := pit_pad_calls it, pit_skip := a, pit_bytes := b, pit_padder := c\<rparr>
      = it\<lparr>pit_skip := a, pit_bytes := b, pit_padder := c\<rparr>" for a b c
    using 0 by (cases it) simp
  show ?case
  proof (cases "padder_scan ops (drop (pit_skip it) (pit_bytes it)) (pit_padder it)")
    case (Inl e)
    then show ?thesis using 0 k by (simp add: PadderIter_next_def)
  next
    case (Inr b)
    obtain r bs p where b: "b = (r, bs, p)" by (cases b)
    then have "r = None" using padder_scan_no_sample Inr by blast
    then show ?thesis using 0 k Inr b upd by (simp add: PadderIter_next_def)
  qed
next
  case (Suc m)
  then obtain k' where k: "k = Suc k'" "m < k'" by (cases k) auto
  let ?it = "it\<lparr>pit_padding := m, pit_pad_calls := Suc (pit_pad_calls it)\<rparr>"
  have "[pit_pad_calls it..<Suc (pit_pad_calls it + m)]
      = pit_pad_calls it # [Suc (pit_pad_calls it)..<Suc (pit_pad_calls it + m)]"
    by (simp add: upt_conv_Cons del: upt_Suc)
  with Suc.hyps(1) [of ?it k'] Suc.hyps(2) [symmetric] k show ?case
    by (simp add: PadderIter_next_pad rbind_assoc split_def del: upt_Suc)
qed

lemma pull_only_padding:
  assumes "pull (PadderIter_next ops pad) k it = Inr (xs, it')"
  shows "xs = map pad [pit_pad_calls it..<pit_pad_calls it + min k (pit_padding it)]"
proof (cases "k \<le> pit_padding it")
  case True
  with assms show ?thesis by (simp add: pull_padding min_def)
next
  case False
  with assms show ?thesis by (auto simp: pull_past_padding rbind_eq_Inr_iff min_def)
qed

lemma pull_buffers:
  assumes "pit_padding it < k" "length (apsp_sample_bytes (pit_padder it)) = w"
    and "apsp_pos (pit_padder it) mod w + (length (pit_bytes it) - pit_skip it) < w"
    and "apsp_pos (pit_padder it) + (length (pit_bytes it) - pit_skip it) < 2 ^ 64"
  shows "\<exists>it'. pull (PadderIter_next ops pad) k it =
      Inr (map pad [pit_pad_calls it..<pit_pad_calls it + pit_padding it], it')
    \<and> apsp_pos (pit_padder it') = apsp_pos (pit_padder it) + (length (pit_bytes it) - pit_skip it)
    \<and> length (apsp_sample_bytes (pit_padder it')) = w
    \<and> take (apsp_pos (pit_padder it) mod w + (length (pit_bytes it) - pit_skip it))
          (apsp_sample_bytes (pit_padder it'))
        = take (apsp_pos (pit_padder it) mod w) (apsp_sample_bytes (pit_padder it))
          @ drop (pit_skip it) (pit_bytes it)"
  using padder_scan_buffers [of "pit_padder it" "drop (pit_skip it) (pit_bytes it)"] assms
  by (auto simp: pull_past_padding)

lemma pull_panics:
  assumes "pit_padding it < k" "length (apsp_sample_bytes (pit_padder it)) = w"
    and "w \<le> apsp_pos (pit_padder it) mod w + (length (pit_bytes it) - pit_skip it)"
  shows "pull (PadderIter_next ops pad) k it = Inl Overflow"
  using padder_scan_panics [of "pit_padder it" "drop (pit_skip it) (pit_bytes it)"] assms
  by (simp add: pull_past_padding)

end

section \<open>The sink\<close>

lemma Producer_consume_samples_eq:
  assumes "rtrb_producer_ok P items cap"
  shows "pull nx (cap q - length (items q)) it = Inr (xs, it') \<Longrightarrow>
      \<exists>q'. Producer_consume_samples P q nx it = Inr (of_nat (length xs), q', it')
        \<and> items q' = items q @ xs \<and> cap q' = cap q"
    and "pull nx (cap q - length (items q)) it = Inl e \<Longrightarrow> Producer_consume_samples P q nx it = Inl e"
proof -
  have "unat (tx_slots P q) = cap q - length (items q)"
    using assms unfolding rtrb_producer_ok_def by (metis add_diff_cancel_left')
  moreover obtain c where "tx_write_chunk_uninit P q (tx_slots P q) = Inr c"
    "\<forall>nx s e. pull nx (unat (tx_slots P q)) s = Inl e \<longrightarrow> tx_fill_from_iter P c nx s = Inl e"
    "\<forall>nx s xs s'. pull nx (unat (tx_slots P q)) s = Inr (xs, s') \<longrightarrow>
       (\<exists>q'. tx_fill_from_iter P c nx s = Inr (of_nat (length xs), q', s') \<and>
          items q' = items q @ xs \<and> cap q' = cap q)"
    using assms unfolding rtrb_producer_ok_def by blast
  ultimately show "pull nx (cap q - length (items q)) it = Inr (xs, it') \<Longrightarrow>
      \<exists>q'. Producer_consume_samples P q nx it = Inr (of_nat (length xs), q', it')
        \<and> items q' = items q @ xs \<and> cap q' = cap q"
    and "pull nx (cap q - length (items q)) it = Inl e \<Longrightarrow> Producer_consume_samples P q nx it = Inl e"
    by (simp_all add: Producer_consume_samples_def producer_get_all_def)
qed

text \<open>A packet whose iterator is known to return, or to panic, when the free slots are filled.\<close>

lemma consume_packet_returns:
  assumes "rtrb_producer_ok P items cap"
    and "feed_bytes ops (ibs_framer self) byte_idx bytes = Inr it"
    and "pull (frame_bytes_next ops) (cap (ibs_sink self) - length (items (ibs_sink self))) it = Inr (xs, it')"
  shows "\<exists>q'. consume_packet ops P self byte_idx bytes = Inr \<lparr>ibs_sink = q', ibs_framer = pit_padder it'\<rparr>
    \<and> items q' = items (ibs_sink self) @ xs \<and> cap q' = cap (ibs_sink self)"
  using Producer_consume_samples_eq(1) [OF assms(1,3)] assms(2) by (auto simp: consume_packet_def)

lemma consume_packet_panics:
  assumes "rtrb_producer_ok P items cap"
    and "feed_bytes ops (ibs_framer self) byte_idx bytes = Inr it"
    and "pull (frame_bytes_next ops) (cap (ibs_sink self) - length (items (ibs_sink self))) it = Inl e"
  shows "consume_packet ops P self byte_idx bytes = Inl e"
  using Producer_consume_samples_eq(2) [OF assms(1,3)] assms(2) by (auto simp: consume_packet_def)

section \<open>Properties\<close>

text \<open>C26: Whatever packet is consumed, if the call returns then all it has added to the ring is
  silence: no sample decoded from received bytes ever reaches the sink.\<close>

theorem consume_packet_adds_only_silence:
  assumes "sample_codec ops" and "rtrb_producer_ok P items cap"
    and "consume_packet ops P self byte_idx bytes = Inr self'"
  shows "\<exists>n. items (ibs_sink self') = items (ibs_sink self) @ replicate n (SILENCE ops)"
proof -
  let ?k = "cap (ibs_sink self) - length (items (ibs_sink self))"
  from assms(3) obtain it where it: "feed_bytes ops (ibs_framer self) byte_idx bytes = Inr it"
    by (auto simp: consume_packet_def rbind_eq_Inr_iff)
  obtain xs it' where pl: "pull (frame_bytes_next ops) ?k it = Inr (xs, it')"
    using consume_packet_panics [OF assms(2) it] assms(3)
    by (cases "pull (frame_bytes_next ops) ?k it") auto
  have "xs = replicate (min ?k (pit_padding it)) (SILENCE ops)"
    using sample_codec.pull_only_padding [OF assms(1) pl [unfolded frame_bytes_next_def]]
    by (simp add: map_replicate_const)
  with consume_packet_returns [OF assms(2) it pl] assms(3) show ?thesis by auto
qed

theorem consume_packet_adds_only_silence_witness:
  "\<exists>self'. consume_packet u16_sample ring8_producer
      \<lparr>ibs_sink = [], ibs_framer = AudioPacketSamplePadder_new u16_sample\<rparr> 0 [7] = Inr self'
    \<and> (\<exists>n. ring8_items (ibs_sink self') = ring8_items [] @ replicate n (SILENCE u16_sample))"
proof -
  let ?f = "AudioPacketSamplePadder_new u16_sample"
  let ?it = "\<lparr>pit_padding = 0, pit_pad_calls = 0, pit_skip = 0, pit_bytes = [7 :: u8], pit_padder = ?f\<rparr>"
  let ?self = "\<lparr>ibs_sink = [], ibs_framer = ?f\<rparr>"
  have f: "length (apsp_sample_bytes ?f) = unat (SIZE u16_sample)" "apsp_byte_idx ?f = 0"
    "unat (SIZE u16_sample) = 2"
    by (simp_all add: AudioPacketSamplePadder_new_def u16_sample_def)
  have "feed_bytes u16_sample (ibs_framer ?self) 0 [7] = Inr ?it"
    using u16.feed_bytes_in_order [OF f(1), of "[7]"] f(2) by simp
  moreover have "\<exists>it'. pull (frame_bytes_next u16_sample) 8 ?it = Inr ([], it')"
    using u16.pull_buffers [of ?it 8 "\<lambda>_. SILENCE u16_sample"] f by (auto simp: frame_bytes_next_def)
  ultimately have "\<exists>self'. consume_packet u16_sample ring8_producer ?self 0 [7] = Inr self'"
    using consume_packet_returns [OF ring8_producer_ok, of u16_sample ?self 0 "[7]"]
    by (fastforce simp: ring8_items_def)
  with consume_packet_adds_only_silence [OF u16.sample_codec_axioms ring8_producer_ok, of ?self 0 "[7]"]
  show ?thesis by fastforce
qed

text \<open>C14: A packet at the expected index, with room in the ring: if its bytes do not complete
  the sample under way they are appended to the buffered prefix of that sample and the
  position advances past them, and if they complete it the call panics with an overflow, in
  the subtraction that computes the slice to decode.\<close>

theorem consume_packet_in_order:
  assumes "sample_codec ops" and "rtrb_producer_ok P items cap"
    and "length (apsp_sample_bytes (ibs_framer self)) = unat (SIZE ops)"
    and "byte_idx = apsp_byte_idx (ibs_framer self)"
    and "length (items (ibs_sink self)) < cap (ibs_sink self)"
    and "m = unat byte_idx mod unat (SIZE ops)"
    and "unat byte_idx + length bytes < 2 ^ 64"
  shows "if unat (SIZE ops) \<le> m + length bytes then consume_packet ops P self byte_idx bytes = Inl Overflow
    else \<exists>self'. consume_packet ops P self byte_idx bytes = Inr self'
      \<and> items (ibs_sink self') = items (ibs_sink self)
      \<and> unat (apsp_byte_idx (ibs_framer self')) = unat byte_idx + length bytes
      \<and> length (apsp_sample_bytes (ibs_framer self')) = unat (SIZE ops)
      \<and> take (m + length bytes) (apsp_sample_bytes (ibs_framer self'))
          = take m (apsp_sample_bytes (ibs_framer self)) @ bytes"
proof -
  let ?it = "\<lparr>pit_padding = 0, pit_pad_calls = 0, pit_skip = 0, pit_bytes = bytes, pit_padder = ibs_framer self\<rparr>"
  let ?k = "cap (ibs_sink self) - length (items (ibs_sink self))"
  note feed = sample_codec.feed_bytes_in_order [OF assms(1,3), of bytes, folded assms(4)]
  show ?thesis
  proof (cases "unat (SIZE ops) \<le> m + length bytes")
    case True
    then have "pull (frame_bytes_next ops) ?k ?it = Inl Overflow"
      using sample_codec.pull_panics [OF assms(1), of ?it ?k] assms(3-6)
      by (simp add: frame_bytes_next_def)
    from consume_packet_panics [OF assms(2) feed this] True show ?thesis by simp
  next
    case False
    then obtain it' where "pull (frame_bytes_next ops) ?k ?it = Inr ([], it')"
      "unat (apsp_byte_idx (pit_padder it')) = unat byte_idx + length bytes"
      "length (apsp_sample_bytes (pit_padder it')) = unat (SIZE ops)"
      "take (m + length bytes) (apsp_sample_bytes (pit_padder it'))
         = take m (apsp_sample_bytes (ibs_framer self)) @ bytes"
      using sample_codec.pull_buffers [OF assms(1), of ?it ?k "\<lambda>_. SILENCE ops"] assms(3-7)
      by (auto simp: frame_bytes_next_def)
    with consume_packet_returns [OF assms(2) feed] False show ?thesis by fastforce
  qed
qed

theorem consume_packet_in_order_witness:
  "consume_packet u16_sample ring8_producer
      \<lparr>ibs_sink = [], ibs_framer = AudioPacketSamplePadder_new u16_sample\<rparr> 0 [7, 8] = Inl Overflow"
  using consume_packet_in_order [OF u16.sample_codec_axioms ring8_producer_ok,
      of "\<lparr>ibs_sink = [], ibs_framer = AudioPacketSamplePadder_new u16_sample\<rparr>" 0 0 "[7, 8]"]
  by (simp add: AudioPacketSamplePadder_new_def u16_sample_def ring8_items_def)

text \<open>C27: A packet that starts before the expected index is dropped whole: nothing is written to
  the ring and the framer keeps its position and its partial sample.\<close>

theorem consume_packet_reordered:
  assumes "sample_codec ops" and "rtrb_producer_ok P items cap"
    and "length (apsp_sample_bytes (ibs_framer self)) = unat (SIZE ops)"
    and "byte_idx < apsp_byte_idx (ibs_framer self)" and "length bytes < 2 ^ 64"
  shows "\<exists>self'. consume_packet ops P self byte_idx bytes = Inr self'
    \<and> items (ibs_sink self') = items (ibs_sink self) \<and> ibs_framer self' = ibs_framer self"
proof -
  let ?it = "\<lparr>pit_padding = 0, pit_pad_calls = 0, pit_skip = 2 ^ 64 - 1, pit_bytes = bytes,
      pit_padder = ibs_framer self\<rparr>"
  let ?k = "cap (ibs_sink self) - length (items (ibs_sink self))"
  have drop: "drop (2 ^ 64 - 1) bytes = []" using assms(5) by simp
  have "\<exists>it'. pull (frame_bytes_next ops) ?k ?it = Inr ([], it') \<and> pit_padder it' = ibs_framer self"
  proof (cases "0 < ?k")
    case True
    with drop show ?thesis
      using sample_codec.pull_past_padding [OF assms(1), of ?it ?k "\<lambda>_. SILENCE ops"]
      by (simp add: frame_bytes_next_def)
  next
    case False
    then show ?thesis by simp
  qed
  then obtain it' where "pull (frame_bytes_next ops) ?k ?it = Inr ([], it')"
    and framer: "pit_padder it' = ibs_framer self" by blast
  from consume_packet_returns [OF assms(2) sample_codec.feed_bytes_reordered [OF assms(1,3,4)] this(1)]
  show ?thesis by (auto simp: framer)
qed

theorem consume_packet_reordered_witness:
  "\<exists>self'. consume_packet u16_sample ring8_producer
      \<lparr>ibs_sink = [9], ibs_framer = \<lparr>apsp_byte_idx = 5, apsp_sample_bytes = [1, 2]\<rparr>\<rparr> 3 [7, 8] = Inr self'
    \<and> ring8_items (ibs_sink self') = [9]
    \<and> ibs_framer self' = \<lparr>apsp_byte_idx = 5, apsp_sample_bytes = [1, 2]\<rparr>"
  using consume_packet_reordered [OF u16.sample_codec_axioms ring8_producer_ok,
      of "\<lparr>ibs_sink = [9], ibs_framer = \<lparr>apsp_byte_idx = 5, apsp_sample_bytes = [1, 2]\<rparr>\<rparr>" 3 "[7, 8]"]
  by (simp add: u16_sample_def ring8_items_def)

text \<open>C15: A packet that starts \<open>g > 0\<close> bytes late. With \<open>n\<close> the first whole sample at or after
  the packet's start, the ring gets silence for the samples from the one under way up to
  \<open>n\<close>, as far as it has room, and the framer moves to the byte index of \<open>n\<close>. When all the
  padding is written and a slot is left, bytes are skipped; as the code computes it, the count
  runs from the old position instead of the packet's start, so that \<open>g\<close> bytes too many
  are dropped. If what is left is a whole sample or more, which is the usual case, the call
  panics; otherwise it is buffered as if it began at sample \<open>n\<close>.\<close>

theorem consume_packet_gap:
  assumes "sample_codec ops" and "rtrb_producer_ok P items cap"
    and "length (apsp_sample_bytes (ibs_framer self)) = w" and "w = unat (SIZE ops)"
    and "c = unat (apsp_byte_idx (ibs_framer self))" and "unat byte_idx = c + g" and "0 < g"
    and "n = cdiv (c + g) w" and "c + g + w \<le> 2 ^ 64" and "n * w + w < 2 ^ 64"
    and "free = cap (ibs_sink self) - length (items (ibs_sink self))"
    and "left = drop ((n * w - (c + g)) + g) bytes"
  shows "if free \<le> n - c div w
    then \<exists>self'. consume_packet ops P self byte_idx bytes = Inr self'
      \<and> items (ibs_sink self') = items (ibs_sink self) @ replicate free (SILENCE ops)
      \<and> unat (apsp_byte_idx (ibs_framer self')) = n * w
      \<and> apsp_sample_bytes (ibs_framer self') = apsp_sample_bytes (ibs_framer self)
    else if w \<le> length left then consume_packet ops P self byte_idx bytes = Inl Overflow
    else \<exists>self'. consume_packet ops P self byte_idx bytes = Inr self'
      \<and> items (ibs_sink self') = items (ibs_sink self) @ replicate (n - c div w) (SILENCE ops)
      \<and> unat (apsp_byte_idx (ibs_framer self')) = n * w + length left
      \<and> length (apsp_sample_bytes (ibs_framer self')) = w
      \<and> take (length left) (apsp_sample_bytes (ibs_framer self')) = left"
proof -
  let ?p = "(ibs_framer self)\<lparr>apsp_byte_idx := of_nat (n * w)\<rparr>"
  let ?it = "\<lparr>pit_padding = n - c div w, pit_pad_calls = 0, pit_skip = n * w - c, pit_bytes = bytes,
      pit_padder = ?p\<rparr>"
  have fits: "n * w < 2 ^ 64" using assms(10) by linarith
  have late: "apsp_pos (ibs_framer self) < unat byte_idx" using assms(5-7) by linarith
  have feed: "feed_bytes ops (ibs_framer self) byte_idx bytes = Inr ?it"
    using sample_codec.feed_bytes_gap [OF assms(1) assms(3) [unfolded assms(4)] late, of bytes]
      assms(4-6,8,9) fits by (simp del: of_nat_mult)
  have pos: "unat (of_nat (n * w) :: u64) = n * w" using fits by (simp del: of_nat_mult)
  have "c + g \<le> n * w"
    using le_cdiv [OF sample_codec.size_pos [OF assms(1)], of "c + g"] assms(4,8) by simp
  then have skip: "n * w - (c + g) + g = n * w - c" by linarith
  note returns = consume_packet_returns [OF assms(2) feed, folded assms(11)]
  consider (full) "free \<le> n - c div w" | (panic) "n - c div w < free" "w \<le> length left"
    | (buffer) "n - c div w < free" "length left < w" by linarith
  then show ?thesis
  proof cases
    case full
    then show ?thesis
      using returns sample_codec.pull_padding [OF assms(1), of free ?it "\<lambda>_. SILENCE ops"] pos
      by (fastforce simp: frame_bytes_next_def map_replicate_const)
  next
    case panic
    then have "pull (frame_bytes_next ops) free ?it = Inl Overflow"
      using sample_codec.pull_panics [OF assms(1), of ?it free] assms(3,4,12) skip pos
      by (simp add: frame_bytes_next_def)
    from consume_packet_panics [OF assms(2) feed this [unfolded assms(11)]] panic show ?thesis by simp
  next
    case buffer
    then obtain it' where "pull (frame_bytes_next ops) free ?it =
        Inr (replicate (n - c div w) (SILENCE ops), it')"
      "apsp_pos (pit_padder it') = n * w + length left" "length (apsp_sample_bytes (pit_padder it')) = w"
      "take (length left) (apsp_sample_bytes (pit_padder it')) = left"
      using sample_codec.pull_buffers [OF assms(1), of ?it free "\<lambda>_. SILENCE ops"] pos skip assms(3,4,10,12)
      by (auto simp: frame_bytes_next_def map_replicate_const simp del: of_nat_mult)
    with returns buffer show ?thesis by fastforce
  qed
qed

text \<open>Packets that start four bytes late: four of their bytes are skipped, and of seven bytes a whole
  sample is left, of five bytes half a sample.\<close>

theorem consume_packet_gap_witness:
  "consume_packet u16_sample ring8_producer
      \<lparr>ibs_sink = [], ibs_framer = AudioPacketSamplePadder_new u16_sample\<rparr> 4 [1, 2, 3, 4, 5, 6, 7] = Inl Overflow
   \<and> (\<exists>self'. consume_packet u16_sample ring8_producer
      \<lparr>ibs_sink = [], ibs_framer = AudioPacketSamplePadder_new u16_sample\<rparr> 4 [1, 2, 3, 4, 5] = Inr self'
    \<and> ring8_items (ibs_sink self') = replicate 2 (SILENCE u16_sample)
    \<and> unat (apsp_byte_idx (ibs_framer self')) = 5
    \<and> take 1 (apsp_sample_bytes (ibs_framer self')) = [5])"
proof -
  let ?self = "\<lparr>ibs_sink = [], ibs_framer = AudioPacketSamplePadder_new u16_sample\<rparr>"
  have hyps: "length (apsp_sample_bytes (ibs_framer ?self)) = 2" "2 = unat (SIZE u16_sample)"
    "0 = unat (apsp_byte_idx (ibs_framer ?self))" "unat (4 :: u64) = 0 + 4"
    "2 = cdiv (0 + 4) 2" "8 = 8 - length (ring8_items (ibs_sink ?self))"
    by (simp_all add: AudioPacketSamplePadder_new_def u16_sample_def ring8_items_def cdiv_def)
  note gap = consume_packet_gap [OF u16.sample_codec_axioms ring8_producer_ok hyps(1-4) _ hyps(5) _ _ hyps(6)]
  from gap [where bytes = "[1, 2, 3, 4, 5, 6, 7]" and left = "[5, 6, 7]"]
    gap [where bytes = "[1, 2, 3, 4, 5]" and left = "[5]"]
  show ?thesis by (auto simp: ring8_items_def)
qed

end
