(* ===== verification/Proto.thy ===== *)
theory Proto
  imports Rust_Prelude
begin

text \<open>
  The protocol crate, \<open>syfala_proto\<close>: stream formats (\<open>format.rs\<close>), audio headers
  (\<open>lib.rs\<close>) and the message types of both roles (\<open>message.rs\<close>). An \<open>f64\<close> is its IEEE
  bit pattern; a \<open>NonZero\<close> integer is the integer, and \<open>Format_wf\<close> states that the
  fields which the source types as \<open>NonZero\<close> or validates are so.
\<close>

unbundle bit_operations_syntax

section \<open>Formats\<close>

datatype SampleType = U8 | U16 | U24 | U32 | U64 | I8 | I16 | I24 | I32 | I64 | IEEF32 | IEEF64

definition is_signed :: "SampleType \<Rightarrow> bool" where
  "is_signed t = (case t of I8 \<Rightarrow> True | I16 \<Rightarrow> True | I24 \<Rightarrow> True | I32 \<Rightarrow> True
     | IEEF32 \<Rightarrow> True | IEEF64 \<Rightarrow> True | _ \<Rightarrow> False)"

definition is_float :: "SampleType \<Rightarrow> bool" where
  "is_float t = (case t of IEEF32 \<Rightarrow> True | IEEF64 \<Rightarrow> True | _ \<Rightarrow> False)"

definition sample_size :: "SampleType \<Rightarrow> u8 rust" where
  "sample_size t =
     (let res = (case t of
          U8 \<Rightarrow> 1 | I8 \<Rightarrow> 1
        | U16 \<Rightarrow> 2 | I16 \<Rightarrow> 2
        | U24 \<Rightarrow> 3 | I24 \<Rightarrow> 3
        | U32 \<Rightarrow> 4 | I32 \<Rightarrow> 4 | IEEF32 \<Rightarrow> 4
        | U64 \<Rightarrow> 8 | I64 \<Rightarrow> 8 | IEEF64 \<Rightarrow> 8)
      in unwrap (nonzero_new res))"

text \<open>\<open>f64::is_normal\<close> and \<open>f64::is_sign_positive\<close>, on the bit pattern.\<close>

definition f64_is_normal :: "u64 \<Rightarrow> bool" where
  "f64_is_normal x = (let e = drop_bit 52 x AND mask 11 in e \<noteq> 0 \<and> e \<noteq> mask 11)"

definition f64_is_sign_positive :: "u64 \<Rightarrow> bool" where
  "f64_is_sign_positive x = (\<not> bit x 63)"

datatype SampleRate = SampleRate (SampleRate_get: u64)

datatype SampleRateError = SampleRateError

definition SampleRate_new :: "u64 \<Rightarrow> SampleRate option" where
  "SampleRate_new val =
     (if f64_is_normal val \<and> f64_is_sign_positive val then Some (SampleRate val) else None)"

definition SampleRate_try_from :: "u64 \<Rightarrow> SampleRateError + SampleRate" where
  "SampleRate_try_from val =
     (case SampleRate_new val of None \<Rightarrow> Inl SampleRateError | Some r \<Rightarrow> Inr r)"

datatype ChannelCount = ChannelCount (channels: u32)

datatype BufferSize = BufferSize (frames: u32)

record Format =
  sample_rate :: SampleRate
  channel_count :: ChannelCount
  buffer_size :: BufferSize
  sample_type :: SampleType

text \<open>\<open>48e3\<close> is the bit pattern \<open>0x40E7700000000000\<close>.\<close>

definition Format_standard :: "Format rust" where
  "Format_standard =
     rbind (unwrap (SampleRate_new 0x40E7700000000000)) (\<lambda>r.
     rbind (unwrap (nonzero_new 2)) (\<lambda>c.
       Inr \<lparr>sample_rate = r, channel_count = ChannelCount c, buffer_size = BufferSize 32,
            sample_type = IEEF32\<rparr>))"

definition chunk_size_samples :: "Format \<Rightarrow> u32 option rust" where
  "chunk_size_samples self =
     (case nonzero_new (frames (buffer_size self)) of
        None \<Rightarrow> Inr None
      | Some n \<Rightarrow> rbind (unwrap (checked_mul n (channels (channel_count self)))) (\<lambda>m. Inr (Some m)))"

definition chunk_size_bytes :: "Format \<Rightarrow> u32 option rust" where
  "chunk_size_bytes self =
     rbind (chunk_size_samples self) (\<lambda>r.
       case r of
         None \<Rightarrow> Inr None
       | Some n \<Rightarrow>
           rbind (sample_size (sample_type self)) (\<lambda>s.
           rbind (unwrap (checked_mul n (ucast s))) (\<lambda>m. Inr (Some m))))"

record StreamFormats =
  inputs :: "Format list"
  outputs :: "Format list"

definition StreamFormats_default :: StreamFormats where
  "StreamFormats_default = \<lparr>inputs = [], outputs = []\<rparr>"

section \<open>Audio headers\<close>

record AudioStreamMessageHeader =
  byte_idx :: u64
  n_bytes :: u32

definition next_byte_idx :: "AudioStreamMessageHeader \<Rightarrow> u64 rust" where
  "next_byte_idx self = strict_add (byte_idx self) (ucast (n_bytes self))"

record AudioMessageHeader =
  stream_idx :: u32
  stream_msg :: AudioStreamMessageHeader

section \<open>Messages\<close>

datatype ('t, 'u) IOState = Start 't | Stop 'u

datatype ('f, 'r) Error = Failure 'f | Refusal 'r

type_synonym unit_error = "(unit, unit) Error"

datatype ClientControl = RequestIOStateChange "(unit, unit) IOState" | ClientControl_Heartbeat

datatype ClientConnected = ClientConnected_Control ClientControl | ClientConnected_Audio AudioMessageHeader

datatype Client =
    Client_Discovery
  | Client_ConnectionResult "unit_error + unit"
  | Client_Connected ClientConnected
  | Client_Disconnect

definition Client_HEARTBEAT :: Client where
  "Client_HEARTBEAT = Client_Connected (ClientConnected_Control ClientControl_Heartbeat)"

definition Client_START_IO :: Client where
  "Client_START_IO = Client_Connected (ClientConnected_Control (RequestIOStateChange (Start ())))"

definition Client_STOP_IO :: Client where
  "Client_STOP_IO = Client_Connected (ClientConnected_Control (RequestIOStateChange (Stop ())))"

definition Client_CONN_SUCCESS :: Client where
  "Client_CONN_SUCCESS = Client_ConnectionResult (Inr ())"

definition Client_CONN_FAILED :: Client where
  "Client_CONN_FAILED = Client_ConnectionResult (Inl (Failure ()))"

definition Client_CONN_REFUSED :: Client where
  "Client_CONN_REFUSED = Client_ConnectionResult (Inl (Refusal ()))"

definition Client_audio :: "AudioMessageHeader \<Rightarrow> Client" where
  "Client_audio header = Client_Connected (ClientConnected_Audio header)"

datatype ServerControl =
    IOStateChangeResult "(unit_error + unit, unit_error + unit) IOState"
  | ServerControl_Heartbeat

datatype ServerConnected = ServerConnected_Control ServerControl | ServerConnected_Audio AudioMessageHeader

datatype Server =
    Server_Connect StreamFormats
  | Server_Connected ServerConnected
  | Server_Disconnect

definition Server_HEARTBEAT :: Server where
  "Server_HEARTBEAT = Server_Connected (ServerConnected_Control ServerControl_Heartbeat)"

definition Server_START_IO_OK :: Server where
  "Server_START_IO_OK = Server_Connected (ServerConnected_Control (IOStateChangeResult (Start (Inr ()))))"

definition Server_START_IO_FAILED :: Server where
  "Server_START_IO_FAILED =
     Server_Connected (ServerConnected_Control (IOStateChangeResult (Start (Inl (Failure ())))))"

definition Server_START_IO_REFUSED :: Server where
  "Server_START_IO_REFUSED =
     Server_Connected (ServerConnected_Control (IOStateChangeResult (Start (Inl (Refusal ())))))"

definition Server_STOP_IO_OK :: Server where
  "Server_STOP_IO_OK = Server_Connected (ServerConnected_Control (IOStateChangeResult (Stop (Inr ()))))"

definition Server_STOP_IO_FAILED :: Server where
  "Server_STOP_IO_FAILED =
     Server_Connected (ServerConnected_Control (IOStateChangeResult (Stop (Inl (Failure ())))))"

definition Server_STOP_IO_REFUSED :: Server where
  "Server_STOP_IO_REFUSED =
     Server_Connected (ServerConnected_Control (IOStateChangeResult (Stop (Inl (Refusal ())))))"

definition Server_audio :: "AudioMessageHeader \<Rightarrow> Server" where
  "Server_audio header = Server_Connected (ServerConnected_Audio header)"

lemmas client_consts = Client_HEARTBEAT_def Client_START_IO_def Client_STOP_IO_def
  Client_CONN_SUCCESS_def Client_CONN_FAILED_def Client_CONN_REFUSED_def Client_audio_def

lemmas server_consts = Server_HEARTBEAT_def Server_START_IO_OK_def Server_START_IO_FAILED_def
  Server_START_IO_REFUSED_def Server_STOP_IO_OK_def Server_STOP_IO_FAILED_def
  Server_STOP_IO_REFUSED_def Server_audio_def

section \<open>Well-formed formats\<close>

definition Format_wf :: "Format \<Rightarrow> bool" where
  "Format_wf f \<longleftrightarrow> channels (channel_count f) \<noteq> 0
     \<and> SampleRate_new (SampleRate_get (sample_rate f)) = Some (sample_rate f)"

text \<open>Sample widths in bytes, as the format names them.\<close>

definition sample_bits :: "SampleType \<Rightarrow> nat" where
  "sample_bits t = (case t of U8 \<Rightarrow> 8 | I8 \<Rightarrow> 8 | U16 \<Rightarrow> 16 | I16 \<Rightarrow> 16 | U24 \<Rightarrow> 24 | I24 \<Rightarrow> 24
     | U32 \<Rightarrow> 32 | I32 \<Rightarrow> 32 | IEEF32 \<Rightarrow> 32 | U64 \<Rightarrow> 64 | I64 \<Rightarrow> 64 | IEEF64 \<Rightarrow> 64)"

lemma sample_size_bits: "\<exists>s. sample_size t = Inr s \<and> 8 * unat s = sample_bits t \<and> 0 < unat s"
  by (cases t) (simp_all add: sample_size_def nonzero_new_def sample_bits_def)

lemma checked_mul_Some_iff:
  "checked_mul a b = Some c \<longleftrightarrow> unat c = unat a * unat b" for a b c :: "'a::len word"
  using strict_mul_eq_Inr_iff [of a b c]
  by (auto simp: checked_mul_def strict_mul_def split: if_splits)

text \<open>The exponent field, and the range of patterns with sign bit clear and a normal exponent.\<close>

lemma exponent_field:
  "unat (drop_bit 52 x AND mask 11 :: u64) = unat x div 2 ^ 52 mod 2 ^ 11"
  by (simp flip: take_bit_eq_mask add: unsigned_take_bit_eq unsigned_drop_bit_eq take_bit_eq_mod
      drop_bit_eq_div take_bit_drop_bit unat_mod unat_div)

lemma sign_bit: "bit x 63 \<longleftrightarrow> 2 ^ 63 \<le> unat x" for x :: u64
proof -
  have "unat x div 2 ^ 63 < 2"
    using unsigned_less [of x] by (simp add: div_less_iff_less_mult)
  then have "odd (unat x div 2 ^ 63) \<longleftrightarrow> unat x div 2 ^ 63 \<noteq> 0"
    by (cases "unat x div 2 ^ 63") (auto simp: less_2_cases_iff)
  moreover have "bit x 63 \<longleftrightarrow> bit (unat x) 63" by (simp add: bit_unsigned_iff)
  moreover have "bit (unat x) 63 \<longleftrightarrow> odd (unat x div 2 ^ 63)" by (rule bit_iff_odd)
  moreover have "unat x div 2 ^ 63 \<noteq> 0 \<longleftrightarrow> 2 ^ 63 \<le> unat x" by (auto simp: div_eq_0_iff not_less)
  ultimately show ?thesis by blast
qed

section \<open>Properties\<close>

text \<open>C40: A sample rate is accepted exactly when the bit pattern of the \<open>f64\<close> lies in the
  range from the smallest to the largest positive normal number; zero, subnormals,
  negatives, infinities and NaNs are all outside it, and an accepted value is kept as it is.\<close>

theorem sample_rate_accepts_positive_normals:
  "SampleRate_new x = (if 2 ^ 52 \<le> unat x \<and> unat x < 2047 * 2 ^ 52 then Some (SampleRate x) else None)
   \<and> SampleRate_try_from x =
      (if 2 ^ 52 \<le> unat x \<and> unat x < 2047 * 2 ^ 52 then Inr (SampleRate x) else Inl SampleRateError)"
proof -
  let ?e = "unat x div 2 ^ 52"
  have "unat (mask 11 :: u64) = 2047" by (simp add: mask_eq_exp_minus_1)
  then have "f64_is_normal x \<longleftrightarrow> ?e mod 2 ^ 11 \<noteq> 0 \<and> ?e mod 2 ^ 11 \<noteq> 2047"
    by (simp add: f64_is_normal_def Let_def word_unat_eq_iff exponent_field)
  moreover have "bit x 63 \<longleftrightarrow> \<not> ?e < 2048"
    unfolding sign_bit by (simp add: div_less_iff_less_mult not_less)
  moreover have "2 ^ 52 \<le> unat x \<longleftrightarrow> ?e \<noteq> 0" by (auto simp: div_eq_0_iff not_less)
  moreover have "unat x < 2047 * 2 ^ 52 \<longleftrightarrow> ?e < 2047" by (simp add: div_less_iff_less_mult)
  ultimately have "f64_is_normal x \<and> f64_is_sign_positive x \<longleftrightarrow> 2 ^ 52 \<le> unat x \<and> unat x < 2047 * 2 ^ 52"
    unfolding f64_is_sign_positive_def by auto
  then show ?thesis by (simp only: SampleRate_try_from_def SampleRate_new_def) simp
qed

text \<open>C38: For a well-formed format, the buffer size in bytes is absent when the format gives no
  buffer size, is the exact product of frames, channels and bytes per sample when that fits
  32 bits, and a panic otherwise; it never wraps around.\<close>

theorem chunk_size_bytes_exact:
  assumes "Format_wf f"
    and "bytes = unat (frames (buffer_size f)) * unat (channels (channel_count f))
           * (sample_bits (sample_type f) div 8)"
  shows "chunk_size_bytes f =
    (if frames (buffer_size f) = 0 then Inr None
     else if bytes < 2 ^ 32 then Inr (Some (of_nat bytes)) else Inl UnwrapNone)"
proof -
  let ?n = "frames (buffer_size f)" and ?c = "channels (channel_count f)"
  obtain s where s: "sample_size (sample_type f) = Inr s" "sample_bits (sample_type f) div 8 = unat s" "0 < unat s"
    using sample_size_bits [of "sample_type f"] by (metis nonzero_mult_div_cancel_left zero_neq_numeral)
  have us: "unat (ucast s :: u32) = unat s" by (simp add: unat_ucast_wider)
  show ?thesis
  proof (cases "unat ?n * unat ?c < 2 ^ 32")
    case True
    then have m: "checked_mul ?n ?c = Some (?n * ?c)" "unat (?n * ?c) = unat ?n * unat ?c"
      using unat_mult_lem [of ?n ?c] by (simp_all add: checked_mul_def)
    have "of_nat bytes = ?n * ?c * ucast s" unfolding assms(2) s(2) by (simp flip: us)
    with m s us assms(2) show ?thesis
      by (simp add: chunk_size_bytes_def chunk_size_samples_def nonzero_new_def
          checked_mul_def [of "?n * ?c"])
  next
    case False
    moreover have "unat ?n * unat ?c \<le> bytes" unfolding assms(2) s(2) using s(3) by simp
    ultimately have "\<not> bytes < 2 ^ 32" by linarith
    moreover have "?n \<noteq> 0" using False by auto
    ultimately show ?thesis
      using False by (simp add: chunk_size_bytes_def chunk_size_samples_def nonzero_new_def checked_mul_def)
  qed
qed

theorem chunk_size_bytes_exact_witness:
  "Format_standard = Inr \<lparr>sample_rate = SampleRate 0x40E7700000000000, channel_count = ChannelCount 2,
      buffer_size = BufferSize 32, sample_type = IEEF32\<rparr>
   \<and> chunk_size_bytes \<lparr>sample_rate = SampleRate 0x40E7700000000000, channel_count = ChannelCount 2,
      buffer_size = BufferSize 32, sample_type = IEEF32\<rparr> = Inr (Some 256)"
proof -
  let ?f = "\<lparr>sample_rate = SampleRate 0x40E7700000000000, channel_count = ChannelCount 2,
      buffer_size = BufferSize 32, sample_type = IEEF32\<rparr>"
  have r: "SampleRate_new 0x40E7700000000000 = Some (SampleRate 0x40E7700000000000)"
    by (simp add: SampleRate_new_def f64_is_normal_def f64_is_sign_positive_def Let_def mask_eq_exp_minus_1 bit_iff_odd)
  then have "Format_wf ?f" by (simp add: Format_wf_def)
  with r show ?thesis
    using chunk_size_bytes_exact [of ?f 256]
    by (simp add: Format_standard_def nonzero_new_def sample_bits_def)
qed

end
