(* ===== verification/Wire.thy ===== *)
theory Wire
  imports Proto Sample_Type
begin

text \<open>
  The wire layer, \<open>syfala_network/src/lib.rs\<close>: the flat message enums with their
  discriminants, the conversions to and from the protocol's nested messages, and the
  encode/decode functions. The serializer (crate \<open>postcard\<close>) is a parameter: the records
  \<open>postcard_ser\<close> and \<open>postcard_de\<close>, with its documented behaviour as the hypotheses
  \<open>postcard_writes\<close> (the bytes of a message go to the writer, and the writer comes back)
  and \<open>postcard_reads\<close> (a message is read back from its bytes and the rest of the input
  remains). The two writers of the source, \<open>&mut [u8]\<close> and \<open>Cursor\<close>, are the standard
  library's and are modelled.
\<close>

section \<open>Flat messages\<close>

text \<open>\<open>*b"...."\<close>\<close>

definition byte_str :: "string \<Rightarrow> u8 list" where
  "byte_str cs = map of_char cs"

datatype ClientMessageFlat =
    CF_Discovery
  | CF_ConnectionSuccess
  | CF_ConnectionFailed
  | CF_ConnectionRefused
  | CF_StartIO
  | CF_StopIO
  | CF_AudioHeader u32 u64 u32
  | CF_Disconnect
  | CF_Heartbeat

definition client_discriminant :: "ClientMessageFlat \<Rightarrow> u32" where
  "client_discriminant v = from_le_bytes (byte_str (case v of
       CF_Discovery \<Rightarrow> ''cdsc''
     | CF_ConnectionSuccess \<Rightarrow> ''ccok''
     | CF_ConnectionFailed \<Rightarrow> ''ccer''
     | CF_ConnectionRefused \<Rightarrow> ''ccrf''
     | CF_StartIO \<Rightarrow> ''csta''
     | CF_StopIO \<Rightarrow> ''csto''
     | CF_AudioHeader _ _ _ \<Rightarrow> ''caud''
     | CF_Disconnect \<Rightarrow> ''cded''
     | CF_Heartbeat \<Rightarrow> ''cliv''))"

definition client_of_flat :: "ClientMessageFlat \<Rightarrow> Client" where
  "client_of_flat v = (case v of
       CF_Discovery \<Rightarrow> Client_Discovery
     | CF_StartIO \<Rightarrow> Client_START_IO
     | CF_StopIO \<Rightarrow> Client_STOP_IO
     | CF_AudioHeader si bi nb \<Rightarrow>
         Client_audio \<lparr>stream_idx = si, stream_msg = \<lparr>byte_idx = bi, n_bytes = nb\<rparr>\<rparr>
     | CF_ConnectionSuccess \<Rightarrow> Client_CONN_SUCCESS
     | CF_ConnectionFailed \<Rightarrow> Client_CONN_FAILED
     | CF_ConnectionRefused \<Rightarrow> Client_CONN_REFUSED
     | CF_Disconnect \<Rightarrow> Client_Disconnect
     | CF_Heartbeat \<Rightarrow> Client_HEARTBEAT)"

definition flat_of_client :: "Client \<Rightarrow> ClientMessageFlat" where
  "flat_of_client v = (case v of
       Client_Discovery \<Rightarrow> CF_Discovery
     | Client_Connected c \<Rightarrow> (case c of
         ClientConnected_Control ctrl \<Rightarrow> (case ctrl of
           RequestIOStateChange s \<Rightarrow> (case s of
             Start _ \<Rightarrow> CF_StartIO
           | Stop _ \<Rightarrow> CF_StopIO)
         | ClientControl_Heartbeat \<Rightarrow> CF_Heartbeat)
       | ClientConnected_Audio h \<Rightarrow>
           CF_AudioHeader (stream_idx h) (byte_idx (stream_msg h)) (n_bytes (stream_msg h)))
     | Client_ConnectionResult r \<Rightarrow> (case r of
         Inr _ \<Rightarrow> CF_ConnectionSuccess
       | Inl e \<Rightarrow> (case e of
           Failure _ \<Rightarrow> CF_ConnectionFailed
         | Refusal _ \<Rightarrow> CF_ConnectionRefused))
     | Client_Disconnect \<Rightarrow> CF_Disconnect)"

datatype ServerMessageFlat =
    SF_Connect StreamFormats
  | SF_StartIOFailed
  | SF_StartIORefused
  | SF_StartIOSuccess
  | SF_StopIOFailed
  | SF_StopIORefused
  | SF_StopIOSuccess
  | SF_AudioHeader u32 u64 u32
  | SF_Disconnect
  | SF_Heartbeat

definition server_discriminant :: "ServerMessageFlat \<Rightarrow> u32" where
  "server_discriminant v = from_le_bytes (byte_str (case v of
       SF_Connect _ \<Rightarrow> ''scon''
     | SF_StartIOFailed \<Rightarrow> ''saif''
     | SF_StartIORefused \<Rightarrow> ''sair''
     | SF_StartIOSuccess \<Rightarrow> ''sais''
     | SF_StopIOFailed \<Rightarrow> ''soif''
     | SF_StopIORefused \<Rightarrow> ''soir''
     | SF_StopIOSuccess \<Rightarrow> ''sois''
     | SF_AudioHeader _ _ _ \<Rightarrow> ''saud''
     | SF_Disconnect \<Rightarrow> ''sded''
     | SF_Heartbeat \<Rightarrow> ''sliv''))"

definition server_of_flat :: "ServerMessageFlat \<Rightarrow> Server" where
  "server_of_flat v = (case v of
       SF_Connect f \<Rightarrow> Server_Connect f
     | SF_StartIOFailed \<Rightarrow> Server_START_IO_FAILED
     | SF_StartIORefused \<Rightarrow> Server_START_IO_REFUSED
     | SF_StartIOSuccess \<Rightarrow> Server_START_IO_OK
     | SF_StopIOFailed \<Rightarrow> Server_STOP_IO_FAILED
     | SF_StopIORefused \<Rightarrow> Server_STOP_IO_REFUSED
     | SF_StopIOSuccess \<Rightarrow> Server_STOP_IO_OK
     | SF_AudioHeader si bi nb \<Rightarrow>
         Server_audio \<lparr>stream_idx = si, stream_msg = \<lparr>byte_idx = bi, n_bytes = nb\<rparr>\<rparr>
     | SF_Disconnect \<Rightarrow> Server_Disconnect
     | SF_Heartbeat \<Rightarrow> Server_HEARTBEAT)"

definition flat_of_server :: "Server \<Rightarrow> ServerMessageFlat" where
  "flat_of_server v = (case v of
       Server_Connect f \<Rightarrow> SF_Connect f
     | Server_Connected c \<Rightarrow> (case c of
         ServerConnected_Control ctrl \<Rightarrow> (case ctrl of
           IOStateChangeResult s \<Rightarrow> (case s of
             Start r \<Rightarrow> (case r of
               Inr _ \<Rightarrow> SF_StartIOSuccess
             | Inl e \<Rightarrow> (case e of Failure _ \<Rightarrow> SF_StartIOFailed | Refusal _ \<Rightarrow> SF_StartIORefused))
           | Stop r \<Rightarrow> (case r of
               Inr _ \<Rightarrow> SF_StopIOSuccess
             | Inl e \<Rightarrow> (case e of Failure _ \<Rightarrow> SF_StopIOFailed | Refusal _ \<Rightarrow> SF_StopIORefused)))
         | ServerControl_Heartbeat \<Rightarrow> SF_Heartbeat)
       | ServerConnected_Audio h \<Rightarrow>
           SF_AudioHeader (stream_idx h) (byte_idx (stream_msg h)) (n_bytes (stream_msg h)))
     | Server_Disconnect \<Rightarrow> SF_Disconnect)"

section \<open>Errors\<close>

datatype PostcardError = DeserializeUnexpectedEnd | SerializeBufferFull | PostcardError nat

datatype ErrorKind = UnexpectedEof | WouldBlock | TimedOut | FileTooLarge | InvalidInput | Other | ErrorKind nat

definition postcard_to_io_err :: "PostcardError \<Rightarrow> ErrorKind" where
  "postcard_to_io_err e = (case e of DeserializeUnexpectedEnd \<Rightarrow> UnexpectedEof | _ \<Rightarrow> Other)"

definition io_err_is_timeout :: "ErrorKind \<Rightarrow> bool" where
  "io_err_is_timeout e = (e \<in> set [WouldBlock, TimedOut])"

definition AUDIO_STREAM_MESSAGE_HEADER_SIZE :: nat where
  "AUDIO_STREAM_MESSAGE_HEADER_SIZE = 8 + 4"

definition AUDIO_MESSAGE_HEADER_SIZE :: nat where
  "AUDIO_MESSAGE_HEADER_SIZE = AUDIO_STREAM_MESSAGE_HEADER_SIZE + 4"

section \<open>Writers\<close>

text \<open>
  \<open>impl Write for &mut [u8]\<close>: the slice shrinks to the part not written yet. \<open>sw_done\<close> is
  the part of the caller's buffer that lies before the slice.
\<close>

record SliceWriter =
  sw_done :: "u8 list"
  sw_rest :: "u8 list"

definition slice_writer :: "u8 list \<Rightarrow> SliceWriter" where
  "slice_writer buf = \<lparr>sw_done = [], sw_rest = buf\<rparr>"

definition slice_write_all :: "SliceWriter \<Rightarrow> u8 list \<Rightarrow> SliceWriter option" where
  "slice_write_all w bs =
     (if length bs \<le> length (sw_rest w)
      then Some \<lparr>sw_done = sw_done w @ bs, sw_rest = drop (length bs) (sw_rest w)\<rparr>
      else None)"

text \<open>\<open>Cursor<[u8; N]>\<close>: a buffer that stays whole, and a position.\<close>

record Cursor =
  cursor_ref :: "u8 list"
  cursor_position :: nat

definition cursor_new :: "u8 list \<Rightarrow> Cursor" where
  "cursor_new buf = \<lparr>cursor_ref = buf, cursor_position = 0\<rparr>"

definition cursor_write_all :: "Cursor \<Rightarrow> u8 list \<Rightarrow> Cursor option" where
  "cursor_write_all c bs =
     (if cursor_position c + length bs \<le> length (cursor_ref c)
      then Some \<lparr>cursor_ref = take (cursor_position c) (cursor_ref c) @ bs
                   @ drop (cursor_position c + length bs) (cursor_ref c),
                 cursor_position = cursor_position c + length bs\<rparr>
      else None)"

section \<open>The serializer interface\<close>

record ('m, 'w) postcard_ser =
  pc_to_io :: "'m \<Rightarrow> 'w \<Rightarrow> (PostcardError + unit) \<times> 'w"

record ('m, 'd) postcard_de =
  pc_from_bytes :: "u8 list \<Rightarrow> 'd"
  pc_deserialize :: "'d \<Rightarrow> (PostcardError + 'm) \<times> 'd"
  pc_finalize :: "'d \<Rightarrow> PostcardError + u8 list"

text \<open>
  Documented behaviour: \<open>to_io\<close> writes the bytes of the message to the writer and returns
  the writer, or fails with \<open>SerializeBufferFull\<close> when the writer cannot take them.
\<close>

definition postcard_writes ::
  "('m, 'w) postcard_ser \<Rightarrow> ('w \<Rightarrow> u8 list \<Rightarrow> 'w option) \<Rightarrow> ('m \<Rightarrow> u8 list) \<Rightarrow> bool" where
  "postcard_writes P write_all ser \<longleftrightarrow>
     (\<forall>m w. case write_all w (ser m) of
        Some w' \<Rightarrow> pc_to_io P m w = (Inr (), w')
      | None \<Rightarrow> fst (pc_to_io P m w) = Inl SerializeBufferFull)"

text \<open>
  Documented behaviour: deserializing what starts with the bytes of a message yields the
  message, and \<open>finalize\<close> returns what follows. It is asked for messages whose fields
  satisfy the checks of their types (\<open>ok\<close>), as every value of the Rust types does.
\<close>

definition postcard_reads ::
  "('m, 'd) postcard_de \<Rightarrow> ('m \<Rightarrow> bool) \<Rightarrow> ('m \<Rightarrow> u8 list) \<Rightarrow> bool" where
  "postcard_reads D ok ser \<longleftrightarrow>
     (\<forall>m rest. ok m \<longrightarrow> (\<exists>d. pc_deserialize D (pc_from_bytes D (ser m @ rest)) = (Inr m, d)
        \<and> pc_finalize D d = Inr rest)) \<and>
     (\<forall>bs m d. pc_deserialize D (pc_from_bytes D bs) = (Inr m, d) \<longrightarrow> (\<exists>rest. pc_finalize D d = Inr rest))"

section \<open>Encoding and decoding\<close>

definition client_message_encode ::
  "(ClientMessageFlat, 'w) postcard_ser \<Rightarrow> Client \<Rightarrow> 'w \<Rightarrow> (PostcardError + unit) \<times> 'w" where
  "client_message_encode P m w = pc_to_io P (flat_of_client m) w"

definition client_message_decode ::
  "(ClientMessageFlat, 'd) postcard_de \<Rightarrow> u8 list \<Rightarrow> (PostcardError + Client \<times> u8 list) rust" where
  "client_message_decode D sl =
     (case pc_deserialize D (pc_from_bytes D sl) of
        (Inl e, d) \<Rightarrow> Inr (Inl e)
      | (Inr m, d) \<Rightarrow> rbind (unwrap_ok (pc_finalize D d)) (\<lambda>rest. Inr (Inr (client_of_flat m, rest))))"

definition server_message_encode ::
  "(ServerMessageFlat, 'w) postcard_ser \<Rightarrow> Server \<Rightarrow> 'w \<Rightarrow> (PostcardError + unit) \<times> 'w" where
  "server_message_encode P m w = pc_to_io P (flat_of_server m) w"

definition server_message_decode ::
  "(ServerMessageFlat, 'd) postcard_de \<Rightarrow> u8 list \<Rightarrow> (PostcardError + Server \<times> u8 list) rust" where
  "server_message_decode D sl =
     (case pc_deserialize D (pc_from_bytes D sl) of
        (Inl e, d) \<Rightarrow> Inr (Inl e)
      | (Inr m, d) \<Rightarrow> rbind (unwrap_ok (pc_finalize D d)) (\<lambda>rest. Inr (Inr (server_of_flat m, rest))))"

text \<open>The checks of the field types of a message: \<open>NonZeroU32\<close> and \<open>SampleRate\<close>.\<close>

definition StreamFormats_wf :: "StreamFormats \<Rightarrow> bool" where
  "StreamFormats_wf f \<longleftrightarrow> list_all Format_wf (inputs f) \<and> list_all Format_wf (outputs f)
     \<and> length (inputs f) < 2 ^ 64 \<and> length (outputs f) < 2 ^ 64"

definition server_flat_wf :: "ServerMessageFlat \<Rightarrow> bool" where
  "server_flat_wf v = (case v of SF_Connect f \<Rightarrow> StreamFormats_wf f | _ \<Rightarrow> True)"

definition server_wf :: "Server \<Rightarrow> bool" where
  "server_wf m = (case m of Server_Connect f \<Rightarrow> StreamFormats_wf f | _ \<Rightarrow> True)"

section \<open>Conversions\<close>

lemma client_flat_inverse: "client_of_flat (flat_of_client m) = m"
  by (auto simp: client_of_flat_def flat_of_client_def client_consts
      split: Client.splits ClientConnected.splits ClientControl.splits IOState.splits sum.splits Error.splits)

lemma flat_client_inverse: "flat_of_client (client_of_flat v) = v"
  by (cases v) (simp_all add: client_of_flat_def flat_of_client_def client_consts)

lemma server_flat_inverse: "server_of_flat (flat_of_server m) = m"
  by (auto simp: server_of_flat_def flat_of_server_def server_consts
      split: Server.splits ServerConnected.splits ServerControl.splits IOState.splits sum.splits Error.splits)

lemma flat_server_inverse: "flat_of_server (server_of_flat v) = v"
  by (cases v) (simp_all add: server_of_flat_def flat_of_server_def server_consts)

lemma server_flat_wf_iff: "server_flat_wf (flat_of_server m) \<longleftrightarrow> server_wf m"
  by (auto simp: server_flat_wf_def server_wf_def flat_of_server_def
      split: Server.splits ServerConnected.splits ServerControl.splits IOState.splits sum.splits Error.splits)

lemmas wire_inverses [simp] =
  client_flat_inverse flat_client_inverse server_flat_inverse flat_server_inverse

section \<open>The contract of a message codec\<close>

text \<open>
  What the two ends of the wire rely on: the conversions are inverse and a message is
  decoded from the front of whatever starts with its bytes.
\<close>

locale message_codec =
  fixes to_flat :: "'m \<Rightarrow> 'f"
    and of_flat :: "'f \<Rightarrow> 'm"
    and decode :: "u8 list \<Rightarrow> (PostcardError + 'm \<times> u8 list) rust"
    and ser :: "'f \<Rightarrow> u8 list"
    and ok :: "'m \<Rightarrow> bool"
  assumes of_to: "of_flat (to_flat m) = m"
    and to_of: "to_flat (of_flat v) = v"
    and decode_ser: "ok m \<Longrightarrow> decode (ser (to_flat m) @ rest) = Inr (Inr (of_flat (to_flat m), rest))"
begin

lemma decode_encoded: "ok m \<Longrightarrow> decode (ser (to_flat m) @ rest) = Inr (Inr (m, rest))"
  by (simp add: decode_ser of_to)

lemma encoding_unambiguous:
  assumes "ok m" "ok m'" and "ser (to_flat m) @ rest = ser (to_flat m') @ rest'"
  shows "m = m' \<and> rest = rest'"
  using trans [OF decode_encoded [OF assms(1), of rest, unfolded assms(3), symmetric]
      decode_encoded [OF assms(2), of rest']]
  by simp

text \<open>Several messages in one buffer are decoded one after the other.\<close>

lemma decode_front:
  "list_all ok (m # ms) \<Longrightarrow>
     decode (concat (map (\<lambda>m. ser (to_flat m)) (m # ms))) = Inr (Inr (m, concat (map (\<lambda>m. ser (to_flat m)) ms)))"
  by (simp add: decode_encoded)

end

lemma client_codec:
  assumes "postcard_reads D (\<lambda>_. True) ser"
  shows "message_codec flat_of_client client_of_flat (client_message_decode D) ser (\<lambda>_. True)"
proof unfold_locales
  fix m rest
  obtain d where "pc_deserialize D (pc_from_bytes D (ser (flat_of_client m) @ rest)) = (Inr (flat_of_client m), d)"
    "pc_finalize D d = Inr rest"
    using assms unfolding postcard_reads_def by blast
  then show "client_message_decode D (ser (flat_of_client m) @ rest)
      = Inr (Inr (client_of_flat (flat_of_client m), rest))"
    by (simp add: client_message_decode_def)
qed simp_all

lemma server_codec:
  assumes "postcard_reads D server_flat_wf ser"
  shows "message_codec flat_of_server server_of_flat (server_message_decode D) ser server_wf"
proof unfold_locales
  fix m rest
  assume "server_wf m"
  then have "server_flat_wf (flat_of_server m)" by (simp add: server_flat_wf_iff)
  then obtain d where
    "pc_deserialize D (pc_from_bytes D (ser (flat_of_server m) @ rest)) = (Inr (flat_of_server m), d)"
    "pc_finalize D d = Inr rest"
    using assms unfolding postcard_reads_def by blast
  then show "server_message_decode D (ser (flat_of_server m) @ rest)
      = Inr (Inr (server_of_flat (flat_of_server m), rest))"
    by (simp add: server_message_decode_def)
qed simp_all

section \<open>An instance: the documented byte format\<close>

text \<open>
  Variant indices, lengths and plain integers as little-endian base-128 varints,
  \<open>fixint::le\<close> fields and floats as their little-endian bytes.
\<close>

fun varint :: "nat \<Rightarrow> u8 list" where
  "varint n = (if n < 128 then [of_nat n] else of_nat (128 + n mod 128) # varint (n div 128))"

declare varint.simps [simp del]

fun read_varint :: "u8 list \<Rightarrow> (nat \<times> u8 list) option" where
  "read_varint [] = None"
| "read_varint (b # bs) =
     (if unat b < 128 then Some (unat b, bs)
      else map_option (\<lambda>(n, r). (unat b - 128 + 128 * n, r)) (read_varint bs))"

lemma read_varint [simp]: "read_varint (varint n @ r) = Some (n, r)"
proof (induction n rule: varint.induct)
  case (1 n)
  show ?case
  proof (cases "n < 128")
    case True
    then show ?thesis by (subst varint.simps) (simp add: unat_of_nat)
  next
    case False
    have "unat (of_nat (128 + n mod 128) :: u8) = 128 + n mod 128"
      by (rule unat_of_nat_lt) simp
    with False 1 show ?thesis by (subst varint.simps) (simp del: of_nat_add)
  qed
qed

definition read_word :: "u8 list \<Rightarrow> ('a::len word \<times> u8 list) option" where
  "read_word bs =
     (let k = LENGTH('a) div 8 in if length bs < k then None else Some (from_le_bytes (take k bs), drop k bs))"

lemma read_word [simp]:
  assumes "8 * (LENGTH('a) div 8) = LENGTH('a)"
  shows "read_word (to_le_bytes w @ r) = Some (w :: 'a::len word, r)"
proof -
  have "length (to_le_bytes w) = LENGTH('a) div 8" by (simp add: to_le_bytes_def)
  then show ?thesis
    using le_bytes_round_trip [where 'a = 'a, OF assms] by (simp add: read_word_def Let_def)
qed

fun read_many :: "(u8 list \<Rightarrow> ('a \<times> u8 list) option) \<Rightarrow> nat \<Rightarrow> u8 list \<Rightarrow> ('a list \<times> u8 list) option" where
  "read_many rd 0 bs = Some ([], bs)"
| "read_many rd (Suc n) bs =
     Option.bind (rd bs) (\<lambda>(x, r). map_option (\<lambda>(xs, r'). (x # xs, r')) (read_many rd n r))"

lemma read_many [simp]:
  "(\<And>x r. x \<in> set xs \<Longrightarrow> rd (wr x @ r) = Some (x, r)) \<Longrightarrow>
     read_many rd (length xs) (concat (map wr xs) @ r) = Some (xs, r)"
  by (induction xs) simp_all

definition sample_types :: "SampleType list" where
  "sample_types = [U8, U16, U24, U32, U64, I8, I16, I24, I32, I64, IEEF32, IEEF64]"

definition sample_type_idx :: "SampleType \<Rightarrow> nat" where
  "sample_type_idx t = (case t of U8 \<Rightarrow> 0 | U16 \<Rightarrow> 1 | U24 \<Rightarrow> 2 | U32 \<Rightarrow> 3 | U64 \<Rightarrow> 4 | I8 \<Rightarrow> 5 | I16 \<Rightarrow> 6
     | I24 \<Rightarrow> 7 | I32 \<Rightarrow> 8 | I64 \<Rightarrow> 9 | IEEF32 \<Rightarrow> 10 | IEEF64 \<Rightarrow> 11)"

definition write_format :: "Format \<Rightarrow> u8 list" where
  "write_format f = to_le_bytes (SampleRate_get (sample_rate f)) @ varint (unat (channels (channel_count f)))
     @ varint (unat (frames (buffer_size f))) @ varint (sample_type_idx (sample_type f))"

definition read_format :: "u8 list \<Rightarrow> (Format \<times> u8 list) option" where
  "read_format bs =
     Option.bind (read_word bs) (\<lambda>(r, bs).
     Option.bind (SampleRate_new r) (\<lambda>rate.
     Option.bind (read_varint bs) (\<lambda>(c, bs).
     Option.bind (nonzero_new (of_nat c)) (\<lambda>chans.
     Option.bind (read_varint bs) (\<lambda>(b, bs).
     Option.bind (read_varint bs) (\<lambda>(t, bs).
       if t < 12 then Some (\<lparr>sample_rate = rate, channel_count = ChannelCount chans,
           buffer_size = BufferSize (of_nat b), sample_type = sample_types ! t\<rparr>, bs)
       else None))))))"

lemma read_format [simp]: "Format_wf f \<Longrightarrow> read_format (write_format f @ r) = Some (f, r)"
proof -
  assume wf: "Format_wf f"
  have "sample_types ! sample_type_idx t = t \<and> sample_type_idx t < 12" for t
    by (cases t) (simp_all add: sample_types_def sample_type_idx_def)
  with wf show ?thesis
    by (cases f) (simp add: read_format_def write_format_def Format_wf_def nonzero_new_def)
qed

definition write_header :: "u32 \<Rightarrow> u64 \<Rightarrow> u32 \<Rightarrow> u8 list" where
  "write_header si bi nb = to_le_bytes si @ to_le_bytes bi @ to_le_bytes nb"

definition read_header :: "u8 list \<Rightarrow> ((u32 \<times> u64 \<times> u32) \<times> u8 list) option" where
  "read_header bs =
     Option.bind (read_word bs) (\<lambda>(si, bs).
     Option.bind (read_word bs) (\<lambda>(bi, bs).
     Option.bind (read_word bs) (\<lambda>(nb, bs). Some ((si, bi, nb), bs))))"

lemma read_header [simp]: "read_header (write_header si bi nb @ r) = Some ((si, bi, nb), r)"
  by (simp add: read_header_def write_header_def)

definition write_client :: "ClientMessageFlat \<Rightarrow> u8 list" where
  "write_client v = (case v of
       CF_Discovery \<Rightarrow> varint 0 | CF_ConnectionSuccess \<Rightarrow> varint 1 | CF_ConnectionFailed \<Rightarrow> varint 2
     | CF_ConnectionRefused \<Rightarrow> varint 3 | CF_StartIO \<Rightarrow> varint 4 | CF_StopIO \<Rightarrow> varint 5
     | CF_AudioHeader si bi nb \<Rightarrow> varint 6 @ write_header si bi nb
     | CF_Disconnect \<Rightarrow> varint 7 | CF_Heartbeat \<Rightarrow> varint 8)"

definition read_client :: "u8 list \<Rightarrow> (ClientMessageFlat \<times> u8 list) option" where
  "read_client bs = Option.bind (read_varint bs) (\<lambda>(i, bs).
     if i = 6 then map_option (\<lambda>((si, bi, nb), bs). (CF_AudioHeader si bi nb, bs)) (read_header bs)
     else map_option (\<lambda>v. (v, bs)) (map_of
       [(0, CF_Discovery), (1, CF_ConnectionSuccess), (2, CF_ConnectionFailed), (3, CF_ConnectionRefused),
        (4, CF_StartIO), (5, CF_StopIO), (7, CF_Disconnect), (8, CF_Heartbeat)] i))"

definition write_formats :: "StreamFormats \<Rightarrow> u8 list" where
  "write_formats f = varint (length (inputs f)) @ concat (map write_format (inputs f))
     @ varint (length (outputs f)) @ concat (map write_format (outputs f))"

definition read_formats :: "u8 list \<Rightarrow> (StreamFormats \<times> u8 list) option" where
  "read_formats bs =
     Option.bind (read_varint bs) (\<lambda>(n, bs).
     Option.bind (read_many read_format n bs) (\<lambda>(is, bs).
     Option.bind (read_varint bs) (\<lambda>(n, bs).
     Option.bind (read_many read_format n bs) (\<lambda>(os, bs).
       Some (\<lparr>inputs = is, outputs = os\<rparr>, bs)))))"

lemma read_formats [simp]: "StreamFormats_wf f \<Longrightarrow> read_formats (write_formats f @ r) = Some (f, r)"
  by (cases f) (simp add: read_formats_def write_formats_def StreamFormats_wf_def list_all_iff)

definition write_server :: "ServerMessageFlat \<Rightarrow> u8 list" where
  "write_server v = (case v of
       SF_Connect f \<Rightarrow> varint 0 @ write_formats f
     | SF_StartIOFailed \<Rightarrow> varint 1 | SF_StartIORefused \<Rightarrow> varint 2 | SF_StartIOSuccess \<Rightarrow> varint 3
     | SF_StopIOFailed \<Rightarrow> varint 4 | SF_StopIORefused \<Rightarrow> varint 5 | SF_StopIOSuccess \<Rightarrow> varint 6
     | SF_AudioHeader si bi nb \<Rightarrow> varint 7 @ write_header si bi nb
     | SF_Disconnect \<Rightarrow> varint 8 | SF_Heartbeat \<Rightarrow> varint 9)"

definition read_server :: "u8 list \<Rightarrow> (ServerMessageFlat \<times> u8 list) option" where
  "read_server bs = Option.bind (read_varint bs) (\<lambda>(i, bs).
     if i = 0 then map_option (\<lambda>(f, bs). (SF_Connect f, bs)) (read_formats bs)
     else if i = 7 then map_option (\<lambda>((si, bi, nb), bs). (SF_AudioHeader si bi nb, bs)) (read_header bs)
     else map_option (\<lambda>v. (v, bs)) (map_of
       [(1, SF_StartIOFailed), (2, SF_StartIORefused), (3, SF_StartIOSuccess), (4, SF_StopIOFailed),
        (5, SF_StopIORefused), (6, SF_StopIOSuccess), (8, SF_Disconnect), (9, SF_Heartbeat)] i))"

lemma read_client: "read_client (write_client v @ r) = Some (v, r)"
  by (cases v) (simp_all add: read_client_def write_client_def)

lemma read_server: "server_flat_wf v \<Longrightarrow> read_server (write_server v @ r) = Some (v, r)"
  by (cases v) (simp_all add: read_server_def write_server_def server_flat_wf_def)

definition bytes_de :: "(u8 list \<Rightarrow> ('m \<times> u8 list) option) \<Rightarrow> ('m, u8 list) postcard_de" where
  "bytes_de rd = \<lparr>pc_from_bytes = (\<lambda>bs. bs),
     pc_deserialize = (\<lambda>d. case rd d of None \<Rightarrow> (Inl DeserializeUnexpectedEnd, d) | Some (m, r) \<Rightarrow> (Inr m, r)),
     pc_finalize = Inr\<rparr>"

definition bytes_ser :: "('w \<Rightarrow> u8 list \<Rightarrow> 'w option) \<Rightarrow> ('m \<Rightarrow> u8 list) \<Rightarrow> ('m, 'w) postcard_ser" where
  "bytes_ser write_all ser =
     \<lparr>pc_to_io = (\<lambda>m w. case write_all w (ser m) of Some w' \<Rightarrow> (Inr (), w') | None \<Rightarrow> (Inl SerializeBufferFull, w))\<rparr>"

lemma bytes_ser_writes: "postcard_writes (bytes_ser write_all ser) write_all ser"
  by (simp add: postcard_writes_def bytes_ser_def split: option.split)

lemma bytes_de_client: "postcard_reads (bytes_de read_client) (\<lambda>_. True) write_client"
  by (simp add: postcard_reads_def bytes_de_def read_client)

lemma bytes_de_server: "postcard_reads (bytes_de read_server) server_flat_wf write_server"
  by (simp add: postcard_reads_def bytes_de_def read_server)

interpretation client_wire: message_codec flat_of_client client_of_flat
  "client_message_decode (bytes_de read_client)" write_client "\<lambda>_. True"
  by (rule client_codec [OF bytes_de_client])

interpretation server_wire: message_codec flat_of_server server_of_flat
  "server_message_decode (bytes_de read_server)" write_server server_wf
  by (rule server_codec [OF bytes_de_server])

lemma slice_encode:
  assumes "postcard_writes P slice_write_all ser" and "length (ser m) \<le> length buf"
  shows "pc_to_io P m (slice_writer buf) = (Inr (), \<lparr>sw_done = ser m, sw_rest = drop (length (ser m)) buf\<rparr>)"
  using assms(1) [unfolded postcard_writes_def, rule_format, of m "slice_writer buf"] assms(2)
  by (simp add: slice_write_all_def slice_writer_def)

lemma slice_encode_full:
  assumes "postcard_writes P slice_write_all ser" and "length buf < length (ser m)"
  shows "fst (pc_to_io P m (slice_writer buf)) = Inl SerializeBufferFull"
  using assms(1) [unfolded postcard_writes_def, rule_format, of m "slice_writer buf"] assms(2)
  by (simp add: slice_write_all_def slice_writer_def)

section \<open>Properties\<close>

text \<open>C33: Flattening loses nothing and adds nothing: the conversions between the nested messages
  of the protocol and the flat wire enums are inverse to each other, for clients and servers.\<close>

theorem flat_messages_isomorphic:
  "client_of_flat (flat_of_client c) = c \<and> flat_of_client (client_of_flat cf) = cf
   \<and> server_of_flat (flat_of_server s) = s \<and> flat_of_server (server_of_flat sf) = sf"
  by simp

text \<open>The nineteen discriminants of the two wire enums are pairwise different, so that no
  client discriminant is a server discriminant either.\<close>

lemma wire_discriminants_distinct:
  "distinct (map client_discriminant
       [CF_Discovery, CF_ConnectionSuccess, CF_ConnectionFailed, CF_ConnectionRefused, CF_StartIO,
        CF_StopIO, CF_AudioHeader si bi nb, CF_Disconnect, CF_Heartbeat]
     @ map server_discriminant
       [SF_Connect f, SF_StartIOFailed, SF_StartIORefused, SF_StartIOSuccess, SF_StopIOFailed,
        SF_StopIORefused, SF_StopIOSuccess, SF_AudioHeader si' bi' nb', SF_Disconnect, SF_Heartbeat])"
  by (simp add: client_discriminant_def server_discriminant_def byte_str_def from_le_bytes_def of_char_def)

end
