(* ===== verification/Udp.thy ===== *)
theory Udp
  imports Wire
begin

text \<open>
  The UDP transport, \<open>syfala_network/src/udp/client/mod.rs\<close>, \<open>udp/server/mod.rs\<close> and the
  \<open>SyncUdpSock\<close> trait of \<open>lib.rs\<close>. The outside world (the operating system's socket, the
  clock, the scheduler) is a state \<open>'w\<close> that the socket operations transform; a socket is
  the record of those operations. Endless loops take a number of iterations as fuel, and
  \<open>None\<close> as their result means that the loop is still running when the fuel is used up.
\<close>

section \<open>Sockets\<close>

datatype SocketAddr = SocketAddrV4 u32 u16 | SocketAddrV6 "128 word" u16 u32 u32

text \<open>Instants and durations in nanoseconds.\<close>

type_synonym Instant = nat
type_synonym Duration = nat

record 'w UdpSocket =
  send_to :: "u8 list \<Rightarrow> SocketAddr \<Rightarrow> 'w \<Rightarrow> (ErrorKind + usize) \<times> 'w"
  recv_from :: "u8 list \<Rightarrow> 'w \<Rightarrow> (ErrorKind + usize \<times> SocketAddr) \<times> u8 list \<times> 'w"
  set_read_timeout :: "Duration option \<Rightarrow> 'w \<Rightarrow> (ErrorKind + unit) \<times> 'w"
  instant_now :: "'w \<Rightarrow> Instant \<times> 'w"

record 'w SyncUdpSock =
  sock_send :: "u8 list \<Rightarrow> SocketAddr \<Rightarrow> 'w \<Rightarrow> (ErrorKind + unit) \<times> 'w"
  sock_recv :: "u8 list \<Rightarrow> 'w \<Rightarrow> (ErrorKind + usize \<times> SocketAddr \<times> Instant) \<times> u8 list \<times> 'w"
  sock_set_recv_timeout :: "Duration option \<Rightarrow> 'w \<Rightarrow> (ErrorKind + unit) \<times> 'w"

definition UdpSocket_send ::
  "'w UdpSocket \<Rightarrow> u8 list \<Rightarrow> SocketAddr \<Rightarrow> 'w \<Rightarrow> (ErrorKind + unit) \<times> 'w" where
  "UdpSocket_send self bytes dest_addr w =
     (case send_to self bytes dest_addr w of
        (Inl e, w') \<Rightarrow> (Inl e, w')
      | (Inr n, w') \<Rightarrow> (if unat n = length bytes then Inr () else Inl FileTooLarge, w'))"

definition UdpSocket_recv ::
  "'w UdpSocket \<Rightarrow> u8 list \<Rightarrow> 'w \<Rightarrow> (ErrorKind + usize \<times> SocketAddr \<times> Instant) \<times> u8 list \<times> 'w" where
  "UdpSocket_recv self bytes w =
     (case recv_from self bytes w of
        (Inl e, bytes', w') \<Rightarrow> (Inl e, bytes', w')
      | (Inr (bytes_read, peer_addr), bytes', w') \<Rightarrow>
          (case instant_now self w' of (t, w'') \<Rightarrow> (Inr (bytes_read, peer_addr, t), bytes', w'')))"

definition UdpSocket_sync :: "'w UdpSocket \<Rightarrow> 'w SyncUdpSock" where
  "UdpSocket_sync self = \<lparr>sock_send = UdpSocket_send self, sock_recv = UdpSocket_recv self,
     sock_set_recv_timeout = set_read_timeout self\<rparr>"

section \<open>The client socket\<close>

record 'w ClientSocket =
  cs_sock :: "'w SyncUdpSock"

definition ClientSocket_new :: "'w SyncUdpSock \<Rightarrow> 'w ClientSocket" where
  "ClientSocket_new sock = \<lparr>cs_sock = sock\<rparr>"

definition client_send_raw_packet ::
  "'w ClientSocket \<Rightarrow> u8 list \<Rightarrow> SocketAddr \<Rightarrow> 'w \<Rightarrow> (ErrorKind + unit) \<times> 'w" where
  "client_send_raw_packet self bytes dest_addr w = sock_send (cs_sock self) bytes dest_addr w"

text \<open>The result carries the caller's buffer as it is afterwards.\<close>

definition client_send_msg ::
  "(ClientMessageFlat, SliceWriter) postcard_ser \<Rightarrow> 'w ClientSocket \<Rightarrow> Client \<Rightarrow> SocketAddr \<Rightarrow> u8 list \<Rightarrow>
   'w \<Rightarrow> (ErrorKind + unit) \<times> u8 list \<times> 'w" where
  "client_send_msg P self message server_addr buf w =
     (case client_message_encode P message (slice_writer buf) of
        (Inl e, sw) \<Rightarrow> (Inl (postcard_to_io_err e), sw_done sw @ sw_rest sw, w)
      | (Inr _, sw) \<Rightarrow>
          (case client_send_raw_packet self (sw_rest sw) server_addr w of
             (r, w') \<Rightarrow> (r, sw_done sw @ sw_rest sw, w')))"

definition client_set_recv_timeout ::
  "'w ClientSocket \<Rightarrow> Duration option \<Rightarrow> 'w \<Rightarrow> (ErrorKind + unit) \<times> 'w" where
  "client_set_recv_timeout self timeout w = sock_set_recv_timeout (cs_sock self) timeout w"

text \<open>\<open>Result::ok\<close>\<close>

definition result_ok :: "'e + 'a \<Rightarrow> 'a option" where
  "result_ok r = (case r of Inl e \<Rightarrow> None | Inr x \<Rightarrow> Some x)"

definition client_recv ::
  "(ServerMessageFlat, 'd) postcard_de \<Rightarrow> 'w ClientSocket \<Rightarrow> u8 list \<Rightarrow> 'w \<Rightarrow>
   ((ErrorKind + SocketAddr \<times> Instant \<times> (Server \<times> u8 list) option) \<times> u8 list \<times> 'w) rust" where
  "client_recv D self buf w =
     (case sock_recv (cs_sock self) buf w of
        (Inl e, buf', w') \<Rightarrow> Inr (Inl e, buf', w')
      | (Inr (n, server, timestamp), buf', w') \<Rightarrow>
          if length buf' < unat n then Inl SliceIndex
          else rbind (server_message_decode D (take (unat n) buf')) (\<lambda>r.
                 Inr (Inr (server, timestamp, result_ok r), buf', w')))"

fun beacon_loop ::
  "'w ClientSocket \<Rightarrow> (Duration \<Rightarrow> 'w \<Rightarrow> 'w) \<Rightarrow> u8 list \<Rightarrow> Duration \<Rightarrow> SocketAddr \<Rightarrow> nat \<Rightarrow> 'w \<Rightarrow>
   ErrorKind option \<times> 'w" where
  "beacon_loop self sleep buf period dest_addr 0 w = (None, w)"
| "beacon_loop self sleep buf period dest_addr (Suc fuel) w =
     (case client_send_raw_packet self buf dest_addr w of
        (Inl e, w') \<Rightarrow>
          if io_err_is_timeout e then beacon_loop self sleep buf period dest_addr fuel w'
          else (Some e, w')
      | (Inr _, w') \<Rightarrow> beacon_loop self sleep buf period dest_addr fuel (sleep period w'))"

definition start_discovery_beacon ::
  "(ClientMessageFlat, Cursor) postcard_ser \<Rightarrow> 'w ClientSocket \<Rightarrow> (Duration \<Rightarrow> 'w \<Rightarrow> 'w) \<Rightarrow> Duration \<Rightarrow>
   SocketAddr \<Rightarrow> nat \<Rightarrow> 'w \<Rightarrow> (ErrorKind option \<times> 'w) rust" where
  "start_discovery_beacon P self sleep period dest_addr fuel w =
     (case client_message_encode P Client_Discovery (cursor_new (replicate 2000 0)) of
        (Inl e, _) \<Rightarrow> Inr (Some (postcard_to_io_err e), w)
      | (Inr _, c) \<Rightarrow>
          let payload_size = cursor_position c in
          if length (cursor_ref c) < payload_size then Inl SliceIndex
          else Inr (beacon_loop self sleep (take payload_size (cursor_ref c)) period dest_addr fuel w))"

text \<open>The \<open>Client\<close> trait and its provided \<open>start\<close>.\<close>

record ('st, 'w) ClientHandler =
  ch_on_message :: "SocketAddr \<Rightarrow> Instant \<Rightarrow> (Server \<times> u8 list) option \<Rightarrow> 'st \<Rightarrow> 'w \<Rightarrow>
    ((ErrorKind + unit) \<times> 'st \<times> 'w) rust"
  ch_on_timeout :: "'st \<Rightarrow> 'w \<Rightarrow> ((ErrorKind + unit) \<times> 'st \<times> 'w) rust"

fun client_loop ::
  "('st, 'w) ClientHandler \<Rightarrow> (ServerMessageFlat, 'd) postcard_de \<Rightarrow> 'w ClientSocket \<Rightarrow> nat \<Rightarrow> u8 list \<Rightarrow>
   'st \<Rightarrow> 'w \<Rightarrow> (ErrorKind option \<times> 'st \<times> 'w) rust" where
  "client_loop H D client 0 buf st w = Inr (None, st, w)"
| "client_loop H D client (Suc fuel) buf st w =
     rbind (client_recv D client buf w) (\<lambda>(res, buf', w').
       rbind (case res of
                Inr (addr, timestamp, maybe_msg) \<Rightarrow> ch_on_message H addr timestamp maybe_msg st w'
              | Inl e \<Rightarrow>
                  if io_err_is_timeout e then ch_on_timeout H st w' else Inr (Inl e, st, w'))
         (\<lambda>(r, st', w''). case r of
            Inl e \<Rightarrow> Inr (Some e, st', w'')
          | Inr _ \<Rightarrow> client_loop H D client fuel buf' st' w''))"

definition client_start ::
  "('st, 'w) ClientHandler \<Rightarrow> (ServerMessageFlat, 'd) postcard_de \<Rightarrow> 'w ClientSocket \<Rightarrow> nat \<Rightarrow>
   'st \<Rightarrow> 'w \<Rightarrow> (ErrorKind option \<times> 'st \<times> 'w) rust" where
  "client_start H D client fuel st w = client_loop H D client fuel (replicate 5000 0) st w"

section \<open>The server socket\<close>

record 'w ServerSocket =
  ss_sock :: "'w UdpSocket"

definition ServerSocket_new :: "'w UdpSocket \<Rightarrow> 'w ServerSocket" where
  "ServerSocket_new sock = \<lparr>ss_sock = sock\<rparr>"

definition server_send_packet ::
  "'w ServerSocket \<Rightarrow> u8 list \<Rightarrow> SocketAddr \<Rightarrow> 'w \<Rightarrow> (ErrorKind + unit) \<times> 'w" where
  "server_send_packet self bytes dest_addr w =
     (case send_to (ss_sock self) bytes dest_addr w of
        (Inl e, w') \<Rightarrow> (Inl e, w')
      | (Inr n, w') \<Rightarrow> (if unat n = length bytes then Inr () else Inl FileTooLarge, w'))"

definition server_send_msg ::
  "(ServerMessageFlat, SliceWriter) postcard_ser \<Rightarrow> 'w ServerSocket \<Rightarrow> Server \<Rightarrow> SocketAddr \<Rightarrow> u8 list \<Rightarrow>
   'w \<Rightarrow> (ErrorKind + unit) \<times> u8 list \<times> 'w" where
  "server_send_msg P self message client_addr buf w =
     (case server_message_encode P message (slice_writer buf) of
        (Inl e, sw) \<Rightarrow> (Inl (postcard_to_io_err e), sw_done sw @ sw_rest sw, w)
      | (Inr _, sw) \<Rightarrow>
          (case server_send_packet self (sw_rest sw) client_addr w of
             (r, w') \<Rightarrow> (r, sw_done sw @ sw_rest sw, w')))"

definition server_recv ::
  "(ClientMessageFlat, 'd) postcard_de \<Rightarrow> 'w ServerSocket \<Rightarrow> u8 list \<Rightarrow> 'w \<Rightarrow>
   ((ErrorKind + SocketAddr \<times> (Client \<times> u8 list) option) \<times> u8 list \<times> 'w) rust" where
  "server_recv D self buf w =
     (case recv_from (ss_sock self) buf w of
        (Inl e, buf', w') \<Rightarrow> Inr (Inl e, buf', w')
      | (Inr (n, client_addr), buf', w') \<Rightarrow>
          if length buf' < unat n then Inl SliceIndex
          else rbind (client_message_decode D (take (unat n) buf')) (\<lambda>r.
                 Inr (Inr (client_addr, result_ok r), buf', w')))"

text \<open>The \<open>ServerState\<close> trait and its provided \<open>start\<close>.\<close>

type_synonym ('st, 'w) on_message_fn =
  "SocketAddr \<Rightarrow> (Client \<times> u8 list) option \<Rightarrow> 'st \<Rightarrow> 'w \<Rightarrow> ((ErrorKind + unit) \<times> 'st \<times> 'w) rust"

fun server_loop ::
  "('st, 'w) on_message_fn \<Rightarrow> (ClientMessageFlat, 'd) postcard_de \<Rightarrow> 'w ServerSocket \<Rightarrow> nat \<Rightarrow> u8 list \<Rightarrow>
   'st \<Rightarrow> 'w \<Rightarrow> (ErrorKind option \<times> 'st \<times> 'w) rust" where
  "server_loop h D server 0 buf st w = Inr (None, st, w)"
| "server_loop h D server (Suc fuel) buf st w =
     rbind (server_recv D server buf w) (\<lambda>(res, buf', w').
       case res of
         Inr (peer_addr, maybe_msg) \<Rightarrow>
           rbind (h peer_addr maybe_msg st w') (\<lambda>(r, st', w'').
             case r of
               Inl e \<Rightarrow> Inr (Some e, st', w'')
             | Inr _ \<Rightarrow> server_loop h D server fuel buf' st' w'')
       | Inl e \<Rightarrow>
           if io_err_is_timeout e then server_loop h D server fuel buf' st w'
           else Inr (Some e, st, w'))"

definition server_start ::
  "('st, 'w) on_message_fn \<Rightarrow> (ClientMessageFlat, 'd) postcard_de \<Rightarrow> 'w ServerSocket \<Rightarrow> nat \<Rightarrow>
   'st \<Rightarrow> 'w \<Rightarrow> (ErrorKind option \<times> 'st \<times> 'w) rust" where
  "server_start h D server fuel st w = server_loop h D server fuel (replicate 5000 0) st w"

section \<open>Receiving from a script\<close>

text \<open>
  A socket whose world holds the receptions to come: errors, and datagrams that are put at
  the front of the buffer when they fit.
\<close>

definition recv_script ::
  "(u8 list \<Rightarrow> 'w \<Rightarrow> (ErrorKind + usize \<times> 'p) \<times> u8 list \<times> 'w) \<Rightarrow>
   ('w \<Rightarrow> (ErrorKind + u8 list \<times> 'p) list) \<Rightarrow> bool" where
  "recv_script rcv script \<longleftrightarrow>
     (\<forall>buf w. case script w of
        [] \<Rightarrow> True
      | Inl e # es \<Rightarrow> \<exists>w'. rcv buf w = (Inl e, buf, w') \<and> script w' = es
      | Inr (dg, p) # es \<Rightarrow> length dg \<le> length buf \<longrightarrow>
          (\<exists>w'. rcv buf w = (Inr (of_nat (length dg), p), dg @ drop (length dg) buf, w') \<and> script w' = es))"

text \<open>Receptions that do not end a loop.\<close>

definition quiet_event :: "ErrorKind + u8 list \<times> 'p \<Rightarrow> bool" where
  "quiet_event ev = (case ev of Inl e \<Rightarrow> io_err_is_timeout e | Inr (dg, p) \<Rightarrow> length dg \<le> 5000)"

definition server_decoded ::
  "(ServerMessageFlat, 'd) postcard_de \<Rightarrow> u8 list \<Rightarrow> (Server \<times> u8 list) option" where
  "server_decoded D dg = (case server_message_decode D dg of Inr (Inr x) \<Rightarrow> Some x | _ \<Rightarrow> None)"

definition client_decoded ::
  "(ClientMessageFlat, 'd) postcard_de \<Rightarrow> u8 list \<Rightarrow> (Client \<times> u8 list) option" where
  "client_decoded D dg = (case client_message_decode D dg of Inr (Inr x) \<Rightarrow> Some x | _ \<Rightarrow> None)"

lemma server_decode_result:
  assumes "postcard_reads D ok ser"
  shows "\<exists>r. server_message_decode D bs = Inr r \<and> result_ok r = server_decoded D bs"
proof (cases "pc_deserialize D (pc_from_bytes D bs)")
  case (Pair r d)
  with assms show ?thesis
    by (cases r) (fastforce simp: server_message_decode_def server_decoded_def result_ok_def postcard_reads_def)+
qed

lemma client_decode_result:
  assumes "postcard_reads D ok ser"
  shows "\<exists>r. client_message_decode D bs = Inr r \<and> result_ok r = client_decoded D bs"
proof (cases "pc_deserialize D (pc_from_bytes D bs)")
  case (Pair r d)
  with assms show ?thesis
    by (cases r) (fastforce simp: client_message_decode_def client_decoded_def result_ok_def postcard_reads_def)+
qed

lemma recv_script_error:
  assumes "recv_script rcv script" "script w = Inl e # es"
  shows "\<exists>w'. rcv buf w = (Inl e, buf, w') \<and> script w' = es"
  using assms(1) [unfolded recv_script_def, rule_format, of buf w] assms(2) by simp

lemma recv_script_datagram:
  assumes "recv_script rcv script" "script w = Inr (dg, p) # es" "length dg \<le> length buf"
  shows "\<exists>w'. rcv buf w = (Inr (of_nat (length dg), p), dg @ drop (length dg) buf, w') \<and> script w' = es"
  using assms(1) [unfolded recv_script_def, rule_format, of buf w] assms(2,3) by simp

lemma client_recv_datagram:
  assumes "recv_script (sock_recv (cs_sock client)) script" "postcard_reads D ok ser"
    and "script w = Inr (dg, a, t) # es" "length dg \<le> 5000" "length buf = 5000"
  shows "\<exists>w'. client_recv D client buf w =
      Inr (Inr (a, t, server_decoded D dg), dg @ drop (length dg) buf, w') \<and> script w' = es"
proof -
  obtain w' where w': "sock_recv (cs_sock client) buf w =
      (Inr (of_nat (length dg), a, t), dg @ drop (length dg) buf, w')" "script w' = es"
    using recv_script_datagram [OF assms(1,3), of buf] assms(4,5) by auto
  have n: "unat (of_nat (length dg) :: usize) = length dg" using assms(4) by simp
  from server_decode_result [OF assms(2), of dg] w' n show ?thesis
    by (auto simp: client_recv_def)
qed

lemma server_recv_datagram:
  assumes "recv_script (recv_from (ss_sock server)) script" "postcard_reads D ok ser"
    and "script w = Inr (dg, a) # es" "length dg \<le> 5000" "length buf = 5000"
  shows "\<exists>w'. server_recv D server buf w =
      Inr (Inr (a, client_decoded D dg), dg @ drop (length dg) buf, w') \<and> script w' = es"
proof -
  obtain w' where w': "recv_from (ss_sock server) buf w =
      (Inr (of_nat (length dg), a), dg @ drop (length dg) buf, w')" "script w' = es"
    using recv_script_datagram [OF assms(1,3), of buf] assms(4,5) by auto
  have n: "unat (of_nat (length dg) :: usize) = length dg" using assms(4) by simp
  from client_decode_result [OF assms(2), of dg] w' n show ?thesis
    by (auto simp: server_recv_def)
qed

text \<open>What one reception does to a state, given the effects of the callbacks on it.\<close>

definition client_event ::
  "(ServerMessageFlat, 'd) postcard_de \<Rightarrow> (SocketAddr \<Rightarrow> Instant \<Rightarrow> (Server \<times> u8 list) option \<Rightarrow> 'st \<Rightarrow> 'st) \<Rightarrow>
   ('st \<Rightarrow> 'st) \<Rightarrow> ErrorKind + u8 list \<times> SocketAddr \<times> Instant \<Rightarrow> 'st \<Rightarrow> 'st" where
  "client_event D f g ev st = (case ev of Inl e \<Rightarrow> g st | Inr (dg, a, t) \<Rightarrow> f a t (server_decoded D dg) st)"

definition server_event ::
  "(ClientMessageFlat, 'd) postcard_de \<Rightarrow> (SocketAddr \<Rightarrow> (Client \<times> u8 list) option \<Rightarrow> 'st \<Rightarrow> 'st) \<Rightarrow>
   ErrorKind + u8 list \<times> SocketAddr \<Rightarrow> 'st \<Rightarrow> 'st" where
  "server_event D f ev st = (case ev of Inl e \<Rightarrow> st | Inr (dg, a) \<Rightarrow> f a (client_decoded D dg) st)"

lemma client_loop_delivers:
  assumes recv: "recv_script (sock_recv (cs_sock client)) script" and reads: "postcard_reads D ok ser"
    and msg: "\<And>a t m st w. \<exists>w'. ch_on_message H a t m st w = Inr (Inr (), f a t m st, w') \<and> script w' = script w"
    and tmo: "\<And>st w. \<exists>w'. ch_on_timeout H st w = Inr (Inr (), g st, w') \<and> script w' = script w"
    and hard: "\<not> io_err_is_timeout e"
  shows "\<lbrakk>script w = evs @ Inl e # rest; list_all quiet_event evs; length evs < fuel; length buf = 5000\<rbrakk> \<Longrightarrow>
    \<exists>w'. client_loop H D client fuel buf st w = Inr (Some e, fold (client_event D f g) evs st, w')
      \<and> script w' = rest"
proof (induction evs arbitrary: fuel buf st w)
  case Nil
  then obtain n where n: "fuel = Suc n" by (cases fuel) auto
  from recv_script_error [OF recv, of w e rest buf] Nil obtain w' where
    "sock_recv (cs_sock client) buf w = (Inl e, buf, w')" "script w' = rest" by auto
  then show ?case using n hard by (simp add: client_recv_def)
next
  case (Cons ev evs)
  then obtain n where n: "fuel = Suc n" "length evs < n" by (cases fuel) auto
  show ?case
  proof (cases ev)
    case (Inl e')
    with Cons.prems have t: "io_err_is_timeout e'" by (simp add: quiet_event_def)
    from recv_script_error [OF recv, of w e' _ buf] Cons.prems Inl obtain w1 where
      w1: "sock_recv (cs_sock client) buf w = (Inl e', buf, w1)" "script w1 = evs @ Inl e # rest" by auto
    from tmo [of st w1] obtain w2 where
      w2: "ch_on_timeout H st w1 = Inr (Inr (), g st, w2)" "script w2 = script w1" by blast
    from Cons.IH [of w2 n buf "g st"] Cons.prems n w1 w2 t Inl show ?thesis
      by (simp add: client_recv_def client_event_def)
  next
    case (Inr b)
    then obtain dg a t where ev: "ev = Inr (dg, a, t)" by (cases b) auto
    with Cons.prems have len: "length dg \<le> 5000" by (simp add: quiet_event_def)
    from client_recv_datagram [OF recv reads, of w dg a t _ buf] Cons.prems ev len obtain w1 where
      w1: "client_recv D client buf w = Inr (Inr (a, t, server_decoded D dg), dg @ drop (length dg) buf, w1)"
        "script w1 = evs @ Inl e # rest" by auto
    from msg [of a t "server_decoded D dg" st w1] obtain w2 where
      w2: "ch_on_message H a t (server_decoded D dg) st w1 = Inr (Inr (), f a t (server_decoded D dg) st, w2)"
        "script w2 = script w1" by blast
    from Cons.IH [of w2 n "dg @ drop (length dg) buf" "f a t (server_decoded D dg) st"] Cons.prems n w1 w2 len ev
    show ?thesis by (simp add: client_event_def)
  qed
qed

lemma server_loop_delivers:
  assumes recv: "recv_script (recv_from (ss_sock server)) script" and reads: "postcard_reads D ok ser"
    and msg: "\<And>a m st w. \<exists>w'. h a m st w = Inr (Inr (), f a m st, w') \<and> script w' = script w"
    and hard: "\<not> io_err_is_timeout e"
  shows "\<lbrakk>script w = evs @ Inl e # rest; list_all quiet_event evs; length evs < fuel; length buf = 5000\<rbrakk> \<Longrightarrow>
    \<exists>w'. server_loop h D server fuel buf st w = Inr (Some e, fold (server_event D f) evs st, w')
      \<and> script w' = rest"
proof (induction evs arbitrary: fuel buf st w)
  case Nil
  then obtain n where n: "fuel = Suc n" by (cases fuel) auto
  from recv_script_error [OF recv, of w e rest buf] Nil obtain w' where
    "recv_from (ss_sock server) buf w = (Inl e, buf, w')" "script w' = rest" by auto
  then show ?case using n hard by (simp add: server_recv_def)
next
  case (Cons ev evs)
  then obtain n where n: "fuel = Suc n" "length evs < n" by (cases fuel) auto
  show ?case
  proof (cases ev)
    case (Inl e')
    with Cons.prems have t: "io_err_is_timeout e'" by (simp add: quiet_event_def)
    from recv_script_error [OF recv, of w e' _ buf] Cons.prems Inl obtain w1 where
      w1: "recv_from (ss_sock server) buf w = (Inl e', buf, w1)" "script w1 = evs @ Inl e # rest" by auto
    from Cons.IH [of w1 n buf st] Cons.prems n w1 t Inl show ?thesis
      by (simp add: server_recv_def server_event_def)
  next
    case (Inr b)
    then obtain dg a where ev: "ev = Inr (dg, a)" by (cases b) auto
    with Cons.prems have len: "length dg \<le> 5000" by (simp add: quiet_event_def)
    from server_recv_datagram [OF recv reads, of w dg a _ buf] Cons.prems ev len obtain w1 where
      w1: "server_recv D server buf w = Inr (Inr (a, client_decoded D dg), dg @ drop (length dg) buf, w1)"
        "script w1 = evs @ Inl e # rest" by auto
    from msg [of a "client_decoded D dg" st w1] obtain w2 where
      w2: "h a (client_decoded D dg) st w1 = Inr (Inr (), f a (client_decoded D dg) st, w2)"
        "script w2 = script w1" by blast
    from Cons.IH [of w2 n "dg @ drop (length dg) buf" "f a (client_decoded D dg) st"] Cons.prems n w1 w2 len ev
    show ?thesis by (simp add: server_event_def)
  qed
qed

section \<open>The beacon\<close>

text \<open>A world that logs the datagrams it accepts; a failed send leaves the log alone.\<close>

definition send_logs ::
  "'w SyncUdpSock \<Rightarrow> (Duration \<Rightarrow> 'w \<Rightarrow> 'w) \<Rightarrow> ('w \<Rightarrow> (u8 list \<times> SocketAddr) list) \<Rightarrow> bool" where
  "send_logs S sleep log \<longleftrightarrow>
     (\<forall>bs a w. case sock_send S bs a w of
        (Inl e, w') \<Rightarrow> log w' = log w
      | (Inr _, w') \<Rightarrow> log w' = log w @ [(bs, a)]) \<and>
     (\<forall>d w. log (sleep d w) = log w)"

lemma beacon_loop_log:
  assumes "send_logs (cs_sock self) sleep log"
  shows "beacon_loop self sleep buf period dest fuel w = (res, w') \<Longrightarrow>
    (\<exists>k\<le>fuel. log w' = log w @ replicate k (buf, dest))
    \<and> (case res of None \<Rightarrow> True | Some e \<Rightarrow> \<not> io_err_is_timeout e)"
proof (induction fuel arbitrary: w)
  case 0
  then show ?case by simp
next
  case (Suc fuel)
  obtain r w1 where r: "sock_send (cs_sock self) buf dest w = (r, w1)" by fastforce
  have log1: "case r of Inl e \<Rightarrow> log w1 = log w | Inr _ \<Rightarrow> log w1 = log w @ [(buf, dest)]"
    and sleep: "log (sleep period w1) = log w1"
    using assms r by (auto simp: send_logs_def split: prod.splits sum.splits)
  show ?case
  proof (cases r)
    case (Inl e)
    with Suc.prems Suc.IH [of w1] r log1 show ?thesis
      by (force simp: client_send_raw_packet_def split: if_splits intro: le_SucI)
  next
    case (Inr u)
    with Suc.prems Suc.IH [of "sleep period w1"] r log1 sleep obtain k where
      "k \<le> fuel" "log w' = log w @ (buf, dest) # replicate k (buf, dest)"
      "case res of None \<Rightarrow> True | Some e \<Rightarrow> \<not> io_err_is_timeout e"
      by (auto simp: client_send_raw_packet_def)
    then show ?thesis by (auto intro!: exI [of _ "Suc k"])
  qed
qed

lemma start_discovery_beacon_eq:
  assumes "postcard_writes P cursor_write_all ser" and "length (ser CF_Discovery) \<le> 2000"
  shows "start_discovery_beacon P self sleep period dest fuel w
    = Inr (beacon_loop self sleep (ser CF_Discovery) period dest fuel w)"
proof -
  have "pc_to_io P CF_Discovery (cursor_new (replicate 2000 0)) =
      (Inr (), \<lparr>cursor_ref = ser CF_Discovery @ replicate (2000 - length (ser CF_Discovery)) 0,
                cursor_position = length (ser CF_Discovery)\<rparr>)"
    using assms(1) [unfolded postcard_writes_def, rule_format, of CF_Discovery "cursor_new (replicate 2000 0)"] assms(2)
    by (simp add: cursor_write_all_def cursor_new_def)
  then show ?thesis
    by (simp add: start_discovery_beacon_def client_message_encode_def flat_of_client_def)
qed

section \<open>A concrete world\<close>

record 'p scripted_world =
  sw_script :: "(ErrorKind + u8 list \<times> 'p) list"
  sw_log :: "(u8 list \<times> SocketAddr) list"

definition scripted_recv ::
  "u8 list \<Rightarrow> 'p scripted_world \<Rightarrow> (ErrorKind + usize \<times> 'p) \<times> u8 list \<times> 'p scripted_world" where
  "scripted_recv buf w = (case sw_script w of
       [] \<Rightarrow> (Inl Other, buf, w)
     | Inl e # es \<Rightarrow> (Inl e, buf, w\<lparr>sw_script := es\<rparr>)
     | Inr (dg, p) # es \<Rightarrow>
         let n = min (length dg) (length buf)
         in (Inr (of_nat n, p), take n dg @ drop n buf, w\<lparr>sw_script := es\<rparr>))"

definition scripted_sock :: "(SocketAddr \<times> Instant) scripted_world SyncUdpSock" where
  "scripted_sock = \<lparr>sock_send = (\<lambda>bs a w. (Inr (), w\<lparr>sw_log := sw_log w @ [(bs, a)]\<rparr>)),
     sock_recv = scripted_recv, sock_set_recv_timeout = (\<lambda>t w. (Inr (), w))\<rparr>"

definition scripted_udp :: "SocketAddr scripted_world UdpSocket" where
  "scripted_udp = \<lparr>send_to = (\<lambda>bs a w. (Inr (of_nat (length bs)), w\<lparr>sw_log := sw_log w @ [(bs, a)]\<rparr>)),
     recv_from = scripted_recv, set_read_timeout = (\<lambda>t w. (Inr (), w)), instant_now = (\<lambda>w. (0, w))\<rparr>"

lemma scripted_recv_script: "recv_script scripted_recv sw_script"
  by (auto simp: recv_script_def scripted_recv_def Let_def min_def split: list.splits sum.splits)

lemma scripted_sock_logs: "send_logs scripted_sock (\<lambda>d w. w) sw_log"
  by (simp add: send_logs_def scripted_sock_def)

section \<open>Properties\<close>

text \<open>C20: The client's receive loop: every datagram received before the first hard error is
  handed to \<open>on_message\<close> exactly once and in order, decoded or marked as unknown, every
  timeout is handed to \<open>on_timeout\<close>, and the loop then returns that error with the state
  the callbacks have built. Timeouts never end it.\<close>

theorem client_start_delivers:
  assumes "recv_script (sock_recv (cs_sock client)) script" and "postcard_reads D server_flat_wf ser"
    and "\<forall>a t m st w. \<exists>w'. ch_on_message H a t m st w = Inr (Inr (), f a t m st, w') \<and> script w' = script w"
    and "\<forall>st w. \<exists>w'. ch_on_timeout H st w = Inr (Inr (), g st, w') \<and> script w' = script w"
    and "\<not> io_err_is_timeout e" and "script w = evs @ Inl e # rest"
    and "list_all quiet_event evs" and "length evs < fuel"
  shows "\<exists>w'. client_start H D client fuel st w = Inr (Some e, fold (client_event D f g) evs st, w')
    \<and> script w' = rest"
  unfolding client_start_def
  by (rule client_loop_delivers [OF assms(1,2) _ _ assms(5-8)]) (use assms(3,4) in simp_all)

theorem client_start_delivers_witness:
  "\<exists>w'. client_start
      \<lparr>ch_on_message = (\<lambda>a t m st w. Inr (Inr (), st @ [(t, m)], w)), ch_on_timeout = (\<lambda>st w. Inr (Inr (), st, w))\<rparr>
      (bytes_de read_server) (ClientSocket_new scripted_sock) 9 []
      \<lparr>sw_script = [Inl TimedOut, Inr ([9, 1], SocketAddrV4 1 2, 7), Inl Other], sw_log = []\<rparr>
    = Inr (Some Other, [(7, Some (Server_HEARTBEAT, [1]))], w')
    \<and> sw_script w' = []"
proof -
  let ?H = "\<lparr>ch_on_message = (\<lambda>a t m st w. Inr (Inr (), st @ [(t, m)], w)), ch_on_timeout = (\<lambda>st w. Inr (Inr (), st, w))\<rparr>"
  let ?evs = "[Inl TimedOut, Inr ([9, 1], SocketAddrV4 1 2, 7)] :: (ErrorKind + u8 list \<times> SocketAddr \<times> Instant) list"
  let ?w = "\<lparr>sw_script = ?evs @ [Inl Other], sw_log = []\<rparr>"
  have "server_message_decode (bytes_de read_server) ([9] @ [1]) = Inr (Inr (Server_HEARTBEAT, [1]))"
    using server_wire.decode_encoded [of Server_HEARTBEAT "[1]"]
    by (simp add: server_wf_def flat_of_server_def Server_HEARTBEAT_def write_server_def varint.simps)
  then have "fold (client_event (bytes_de read_server) (\<lambda>a t m st. st @ [(t, m)]) (\<lambda>st. st)) ?evs []
      = [(7, Some (Server_HEARTBEAT, [1]))]"
    by (simp add: client_event_def server_decoded_def)
  moreover have "recv_script (sock_recv (cs_sock (ClientSocket_new scripted_sock))) sw_script"
    by (simp add: ClientSocket_new_def scripted_sock_def scripted_recv_script)
  moreover have "list_all quiet_event ?evs" by (simp add: quiet_event_def io_err_is_timeout_def)
  ultimately show ?thesis
    using client_start_delivers [where script = sw_script and H = ?H and evs = ?evs and e = Other and rest = "[]"
        and f = "\<lambda>a t m st. st @ [(t, m)]" and g = "\<lambda>st. st" and fuel = 9 and st = "[]" and w = ?w,
        OF _ bytes_de_server, of "ClientSocket_new scripted_sock"]
    by (simp add: io_err_is_timeout_def)
qed

text \<open>C32: The server's receive loop delivers in the same way; timeouts are skipped over.\<close>

theorem server_start_delivers:
  assumes "recv_script (recv_from (ss_sock server)) script" and "postcard_reads D (\<lambda>_. True) ser"
    and "\<forall>a m st w. \<exists>w'. h a m st w = Inr (Inr (), f a m st, w') \<and> script w' = script w"
    and "\<not> io_err_is_timeout e" and "script w = evs @ Inl e # rest"
    and "list_all quiet_event evs" and "length evs < fuel"
  shows "\<exists>w'. server_start h D server fuel st w = Inr (Some e, fold (server_event D f) evs st, w')
    \<and> script w' = rest"
  unfolding server_start_def
  by (rule server_loop_delivers [OF assms(1,2) _ assms(4-7)]) (use assms(3) in simp_all)

theorem server_start_delivers_witness:
  "\<exists>w'. server_start (\<lambda>a m st w. Inr (Inr (), st @ [m], w)) (bytes_de read_client)
      (ServerSocket_new scripted_udp) 9 []
      \<lparr>sw_script = [Inr ([8], SocketAddrV4 1 2), Inl WouldBlock, Inl Other], sw_log = []\<rparr>
    = Inr (Some Other, [Some (Client_HEARTBEAT, [])], w')
    \<and> sw_script w' = []"
proof -
  let ?h = "\<lambda>a m st w. Inr (Inr (), st @ [m], w)"
  let ?evs = "[Inr ([8], SocketAddrV4 1 2), Inl WouldBlock] :: (ErrorKind + u8 list \<times> SocketAddr) list"
  let ?w = "\<lparr>sw_script = ?evs @ [Inl Other], sw_log = []\<rparr>"
  have "client_message_decode (bytes_de read_client) [8] = Inr (Inr (Client_HEARTBEAT, []))"
    using client_wire.decode_encoded [of Client_HEARTBEAT "[]"]
    by (simp add: flat_of_client_def Client_HEARTBEAT_def write_client_def varint.simps)
  then have "fold (server_event (bytes_de read_client) (\<lambda>a m st. st @ [m])) ?evs [] = [Some (Client_HEARTBEAT, [])]"
    by (simp add: server_event_def client_decoded_def)
  moreover have "recv_script (recv_from (ss_sock (ServerSocket_new scripted_udp))) sw_script"
    by (simp add: ServerSocket_new_def scripted_udp_def scripted_recv_script)
  moreover have "list_all quiet_event ?evs" by (simp add: quiet_event_def io_err_is_timeout_def)
  ultimately show ?thesis
    using server_start_delivers [where script = sw_script and h = ?h and evs = ?evs and e = Other and rest = "[]"
        and f = "\<lambda>a m st. st @ [m]" and fuel = 9 and st = "[]" and w = ?w,
        OF _ bytes_de_client, of "ServerSocket_new scripted_udp"]
    by (simp add: io_err_is_timeout_def)
qed

text \<open>C37: The discovery beacon only ever sends the exact encoding of a discovery message, to the
  given address; it returns on a send error that is not a timeout and on nothing else. (When
  it is still running after \<open>fuel\<close> rounds the result is \<open>None\<close>.)\<close>

theorem beacon_sends_discovery:
  assumes "postcard_writes P cursor_write_all ser" and "length (ser CF_Discovery) \<le> 2000"
    and "send_logs (cs_sock self) sleep log"
  shows "\<exists>res w'. start_discovery_beacon P self sleep period dest fuel w = Inr (res, w')
    \<and> (\<exists>k\<le>fuel. log w' = log w @ replicate k (ser CF_Discovery, dest))
    \<and> (case res of None \<Rightarrow> True | Some e \<Rightarrow> \<not> io_err_is_timeout e)"
  using beacon_loop_log [OF assms(3)] start_discovery_beacon_eq [OF assms(1,2), of self sleep period dest fuel w]
  by (metis surj_pair)

theorem beacon_sends_discovery_witness:
  "\<exists>res w'. start_discovery_beacon (bytes_ser cursor_write_all write_client) (ClientSocket_new scripted_sock)
      (\<lambda>d w. w) 10 (SocketAddrV4 255 6910) 3 \<lparr>sw_script = [], sw_log = []\<rparr> = Inr (res, w')
    \<and> (\<exists>k\<le>3. sw_log w' = [] @ replicate k (write_client CF_Discovery, SocketAddrV4 255 6910))
    \<and> (case res of None \<Rightarrow> True | Some e \<Rightarrow> \<not> io_err_is_timeout e)"
  using beacon_sends_discovery [OF bytes_ser_writes [of cursor_write_all write_client],
      of "ClientSocket_new scripted_sock" "\<lambda>d w. w" sw_log 10 "SocketAddrV4 255 6910" 3
        "\<lparr>sw_script = [], sw_log = []\<rparr>"] scripted_sock_logs
  by (simp add: ClientSocket_new_def write_client_def varint.simps)

text \<open>C34: What \<open>send_msg\<close> puts on the network, on both sides: with \<open>n\<close> the length of the
  message's encoding, the encoding is written to the front of the caller's buffer and the
  datagram that is sent is the rest of the buffer, from position \<open>n\<close> on. The message itself
  is not part of it. When the buffer is too small nothing is sent.\<close>

theorem send_msg_sends_rest_of_buffer:
  assumes "postcard_writes P slice_write_all ser" and "postcard_writes Q slice_write_all ser'"
    and "n = length (ser (flat_of_client m))" and "n' = length (ser' (flat_of_server m'))"
  shows "(n \<le> length buf \<longrightarrow> client_send_msg P client m a buf w =
      (case sock_send (cs_sock client) (drop n buf) a w of
         (r, w') \<Rightarrow> (r, ser (flat_of_client m) @ drop n buf, w')))
    \<and> (length buf < n \<longrightarrow> (\<exists>buf'. client_send_msg P client m a buf w = (Inl Other, buf', w)))
    \<and> (n' \<le> length buf \<longrightarrow> server_send_msg Q server m' a buf w =
      (case server_send_packet server (drop n' buf) a w of
         (r, w') \<Rightarrow> (r, ser' (flat_of_server m') @ drop n' buf, w')))
    \<and> (length buf < n' \<longrightarrow> (\<exists>buf'. server_send_msg Q server m' a buf w = (Inl Other, buf', w)))"
proof (intro conjI impI)
  show "client_send_msg P client m a buf w =
      (case sock_send (cs_sock client) (drop n buf) a w of
         (r, w') \<Rightarrow> (r, ser (flat_of_client m) @ drop n buf, w'))" if "n \<le> length buf"
    using that slice_encode [OF assms(1), of "flat_of_client m" buf] assms(3)
    by (simp add: client_send_msg_def client_message_encode_def client_send_raw_packet_def)
  show "\<exists>buf'. client_send_msg P client m a buf w = (Inl Other, buf', w)" if "length buf < n"
    using that slice_encode_full [OF assms(1), of buf "flat_of_client m"] assms(3)
    by (cases "pc_to_io P (flat_of_client m) (slice_writer buf)")
      (auto simp: client_send_msg_def client_message_encode_def postcard_to_io_err_def)
  show "server_send_msg Q server m' a buf w =
      (case server_send_packet server (drop n' buf) a w of
         (r, w') \<Rightarrow> (r, ser' (flat_of_server m') @ drop n' buf, w'))" if "n' \<le> length buf"
    using that slice_encode [OF assms(2), of "flat_of_server m'" buf] assms(4)
    by (simp add: server_send_msg_def server_message_encode_def)
  show "\<exists>buf'. server_send_msg Q server m' a buf w = (Inl Other, buf', w)" if "length buf < n'"
    using that slice_encode_full [OF assms(2), of buf "flat_of_server m'"] assms(4)
    by (cases "pc_to_io Q (flat_of_server m') (slice_writer buf)")
      (auto simp: server_send_msg_def server_message_encode_def postcard_to_io_err_def)
qed

theorem send_msg_sends_rest_of_buffer_witness:
  "client_send_msg (bytes_ser slice_write_all write_client) (ClientSocket_new scripted_sock) Client_HEARTBEAT
      (SocketAddrV4 1 2) [0, 0, 0] \<lparr>sw_script = [], sw_log = []\<rparr>
    = (Inr (), [8, 0, 0], \<lparr>sw_script = [], sw_log = [([0, 0], SocketAddrV4 1 2)]\<rparr>)"
  using send_msg_sends_rest_of_buffer [OF bytes_ser_writes [of slice_write_all write_client]
      bytes_ser_writes [of slice_write_all write_server], of 1 Client_HEARTBEAT 1 Server_HEARTBEAT "[0, 0, 0]"
      "ClientSocket_new scripted_sock" "SocketAddrV4 1 2" "\<lparr>sw_script = [], sw_log = []\<rparr>"]
  by (simp add: flat_of_client_def Client_HEARTBEAT_def write_client_def varint.simps ClientSocket_new_def
      flat_of_server_def Server_HEARTBEAT_def write_server_def scripted_sock_def)

end
