(* ===== verification/Generic_Client.thy ===== *)
theory Generic_Client
  imports Udp
begin

text \<open>
  The client state machine, \<open>syfala_network/src/udp/client/generic/mod.rs\<close> and
  \<open>generic/state.rs\<close>. The application's callbacks (the traits of \<open>state.rs\<close>) are the
  record \<open>client_context\<close>, over one type for each typestate. The priority queue (crate
  \<open>priority_queue\<close>) is a parameter, the record \<open>server_pq\<close>, with its documented behaviour
  as the hypothesis \<open>server_pq_ok\<close> over an abstraction to a finite map of deadlines. The
  server map is a \<open>HashMap\<close>: a map, whose iteration order is an unknown function \<open>order\<close>.
  \<open>replace_with_or_abort\<close> applies its closure to the value.
\<close>

section \<open>Callbacks\<close>

record ('cx, 'i, 'p, 'a, 's) client_context =
  cb_connect :: "SocketAddr \<Rightarrow> StreamFormats \<Rightarrow> 'cx \<Rightarrow> (unit_error + 'i) \<times> 'cx"
  cb_unknown_message :: "SocketAddr \<Rightarrow> 'cx \<Rightarrow> 'cx"
  cb_poll_start_io :: "'i \<Rightarrow> 'cx \<Rightarrow> ('i + 'p) \<times> 'cx"
  cb_start_io :: "'p \<Rightarrow> 'cx \<Rightarrow> 'a \<times> 'cx"
  cb_start_io_refused :: "'p \<Rightarrow> 'cx \<Rightarrow> 'i \<times> 'cx"
  cb_start_io_failed :: "'p \<Rightarrow> 'cx \<Rightarrow> 'p \<times> 'cx"
  cb_on_audio :: "'a \<Rightarrow> Instant \<Rightarrow> AudioMessageHeader \<Rightarrow> u8 list \<Rightarrow> 'cx \<Rightarrow> 'a \<times> 'cx"
  cb_poll_stop_io :: "'a \<Rightarrow> 'cx \<Rightarrow> ('a + 's) \<times> 'cx"
  cb_stop_io :: "'s \<Rightarrow> 'cx \<Rightarrow> 'i \<times> 'cx"
  cb_stop_io_refused :: "'s \<Rightarrow> 'cx \<Rightarrow> 'a \<times> 'cx"
  cb_stop_io_failed :: "'s \<Rightarrow> 'cx \<Rightarrow> 's \<times> 'cx"

datatype ('i, 'p, 'a, 's) ServerIOState =
    Inactive 'i
  | PendingStart 'p
  | Active 'a
  | PendingStop 's

type_synonym ('i, 'p, 'a, 's) server_map = "SocketAddr \<rightharpoonup> ('i, 'p, 'a, 's) ServerIOState"

text \<open>Durations in nanoseconds.\<close>

definition CONN_TIMEOUT :: Duration where
  "CONN_TIMEOUT = 600 * 10 ^ 6"

definition REQUEST_POLL_PERIOD :: Duration where
  "REQUEST_POLL_PERIOD = 10 * 10 ^ 6"

definition ENCODE_BUF_LEN :: nat where
  "ENCODE_BUF_LEN = 2000"

text \<open>\<open>Instant::checked_add\<close>: an instant is a 64-bit signed number of seconds and nanoseconds.\<close>

definition instant_checked_add :: "Instant \<Rightarrow> Duration \<Rightarrow> Instant option" where
  "instant_checked_add t d = (if t + d < 2 ^ 63 * 10 ^ 9 then Some (t + d) else None)"

section \<open>One server\<close>

definition ServerIOState_on_msg ::
  "('cx, 'i, 'p, 'a, 's) client_context \<Rightarrow> (ClientMessageFlat, SliceWriter) postcard_ser \<Rightarrow>
   ('i, 'p, 'a, 's) ServerIOState \<Rightarrow> SocketAddr \<Rightarrow> 'cx \<Rightarrow> 'w ClientSocket \<Rightarrow> ServerConnected \<Rightarrow> u8 list \<Rightarrow>
   Instant \<Rightarrow> 'w \<Rightarrow> (ErrorKind + unit) \<times> ('i, 'p, 'a, 's) ServerIOState \<times> 'cx \<times> 'w" where
  "ServerIOState_on_msg CB P self addr cx sock msg rem_buf timestamp w =
     (let encode_buf = replicate 2000 0 in
      case msg of
        ServerConnected_Control (IOStateChangeResult r) \<Rightarrow> (case r of
          Start r \<Rightarrow> (case r of
            Inr _ \<Rightarrow> (case self of
              PendingStart s \<Rightarrow> (case cb_start_io CB s cx of (a, cx') \<Rightarrow> (Inr (), Active a, cx', w))
            | _ \<Rightarrow> (Inr (), self, cx, w))
          | Inl e \<Rightarrow> (case e of
              Failure _ \<Rightarrow> (case self of
                PendingStart s \<Rightarrow>
                  (case cb_start_io_failed CB s cx of (s', cx') \<Rightarrow>
                   case client_send_msg P sock
                      (Client_Connected (ClientConnected_Control (RequestIOStateChange (Start ()))))
                      addr encode_buf w of
                    (res, _, w') \<Rightarrow> (res, PendingStart s', cx', w'))
              | _ \<Rightarrow> (Inr (), self, cx, w))
            | Refusal _ \<Rightarrow> (case self of
                PendingStart s \<Rightarrow> (case cb_start_io_refused CB s cx of (i, cx') \<Rightarrow> (Inr (), Inactive i, cx', w))
              | _ \<Rightarrow> (Inr (), self, cx, w))))
        | Stop r \<Rightarrow> (case r of
            Inr _ \<Rightarrow> (case self of
              PendingStop s \<Rightarrow> (case cb_stop_io CB s cx of (i, cx') \<Rightarrow> (Inr (), Inactive i, cx', w))
            | _ \<Rightarrow> (Inr (), self, cx, w))
          | Inl e \<Rightarrow> (case e of
              Failure _ \<Rightarrow> (case self of
                PendingStop s \<Rightarrow>
                  (case cb_stop_io_failed CB s cx of (s', cx') \<Rightarrow>
                   case client_send_msg P sock
                      (Client_Connected (ClientConnected_Control (RequestIOStateChange (Stop ()))))
                      addr encode_buf w of
                    (res, _, w') \<Rightarrow> (res, PendingStop s', cx', w'))
              | _ \<Rightarrow> (Inr (), self, cx, w))
            | Refusal _ \<Rightarrow> (case self of
                PendingStop s \<Rightarrow> (case cb_stop_io_refused CB s cx of (a, cx') \<Rightarrow> (Inr (), Active a, cx', w))
              | _ \<Rightarrow> (Inr (), self, cx, w)))))
      | ServerConnected_Control ServerControl_Heartbeat \<Rightarrow> (Inr (), self, cx, w)
      | ServerConnected_Audio header \<Rightarrow> (case self of
          Active s \<Rightarrow> (case cb_on_audio CB s timestamp header rem_buf cx of (a, cx') \<Rightarrow> (Inr (), Active a, cx', w))
        | _ \<Rightarrow> (Inr (), self, cx, w)))"

section \<open>The priority queue interface\<close>

record 'q server_pq =
  pq_with_hasher :: 'q
  pq_push :: "SocketAddr \<Rightarrow> Instant \<Rightarrow> 'q \<Rightarrow> 'q"
  pq_remove :: "SocketAddr \<Rightarrow> 'q \<Rightarrow> (SocketAddr \<times> Instant) option \<times> 'q"
  pq_pop_if :: "(SocketAddr \<Rightarrow> Instant \<Rightarrow> bool) \<Rightarrow> 'q \<Rightarrow> (SocketAddr \<times> Instant) option \<times> 'q"
  pq_peek :: "'q \<Rightarrow> (SocketAddr \<times> Instant) option"

text \<open>With \<open>Reverse\<close> as priority order, the highest priority is the earliest instant.\<close>

definition earliest :: "(SocketAddr \<rightharpoonup> Instant) \<Rightarrow> SocketAddr \<Rightarrow> Instant \<Rightarrow> bool" where
  "earliest m a t \<longleftrightarrow> m a = Some t \<and> (\<forall>b u. m b = Some u \<longrightarrow> t \<le> u)"

text \<open>
  Documented behaviour: \<open>push\<close> inserts or replaces, \<open>remove\<close> takes the entry of a key out,
  \<open>pop_if\<close> takes out the entry of highest priority if the predicate holds of it, \<open>peek\<close> is
  the entry of highest priority.
\<close>

definition server_pq_ok :: "'q server_pq \<Rightarrow> ('q \<Rightarrow> SocketAddr \<rightharpoonup> Instant) \<Rightarrow> bool" where
  "server_pq_ok Q ent \<longleftrightarrow>
     ent (pq_with_hasher Q) = Map.empty \<and>
     (\<forall>q. finite (dom (ent q))) \<and>
     (\<forall>a t q. ent (pq_push Q a t q) = (ent q)(a \<mapsto> t)) \<and>
     (\<forall>a q. \<exists>q'. pq_remove Q a q = (map_option (Pair a) (ent q a), q') \<and> ent q' = (ent q)(a := None)) \<and>
     (\<forall>f q. if ent q = Map.empty then \<exists>q'. pq_pop_if Q f q = (None, q') \<and> ent q' = Map.empty
        else \<exists>a t q'. earliest (ent q) a t \<and>
          (if f a t then pq_pop_if Q f q = (Some (a, t), q') \<and> ent q' = (ent q)(a := None)
           else pq_pop_if Q f q = (None, q') \<and> ent q' = ent q)) \<and>
     (\<forall>q. if ent q = Map.empty then pq_peek Q q = None
        else \<exists>a t. pq_peek Q q = Some (a, t) \<and> earliest (ent q) a t)"

section \<open>The client\<close>

record ('q, 'cx, 'i, 'p, 'a, 's) GenericClient =
  gc_deadlines :: 'q
  gc_servers :: "('i, 'p, 'a, 's) server_map"
  gc_retry_deadline :: "Instant option"
  gc_callbacks :: 'cx

definition GenericClient_new :: "'q server_pq \<Rightarrow> 'cx \<Rightarrow> ('q, 'cx, 'i, 'p, 'a, 's) GenericClient" where
  "GenericClient_new Q callbacks =
     \<lparr>gc_deadlines = pq_with_hasher Q, gc_servers = Map.empty, gc_retry_deadline = None,
      gc_callbacks = callbacks\<rparr>"

definition on_server_connect_request ::
  "('cx, 'i, 'p, 'a, 's) client_context \<Rightarrow> (ClientMessageFlat, SliceWriter) postcard_ser \<Rightarrow>
   ('q, 'cx, 'i, 'p, 'a, 's) GenericClient \<Rightarrow> 'w ClientSocket \<Rightarrow> SocketAddr \<Rightarrow> StreamFormats \<Rightarrow> u8 list \<Rightarrow> 'w \<Rightarrow>
   (ErrorKind + unit) \<times> ('q, 'cx, 'i, 'p, 'a, 's) GenericClient \<times> 'w" where
  "on_server_connect_request CB P self sock addr formats encode_buf w =
     (if gc_servers self addr = None then
        (case cb_connect CB addr formats (gc_callbacks self) of
           (Inr state, cx) \<Rightarrow>
             let self' = self\<lparr>gc_callbacks := cx, gc_servers := (gc_servers self)(addr \<mapsto> Inactive state)\<rparr> in
             (case client_send_msg P sock (Client_ConnectionResult (Inr ())) addr encode_buf w of
                (res, _, w') \<Rightarrow> (res, self', w'))
         | (Inl e, cx) \<Rightarrow>
             (case client_send_msg P sock (Client_ConnectionResult (Inl e)) addr encode_buf w of
                (res, _, w') \<Rightarrow> (res, self\<lparr>gc_callbacks := cx\<rparr>, w')))
      else (Inr (), self, w))"

text \<open>The message dispatch, and then the refresh of the deadline.\<close>

definition dispatch_message ::
  "('cx, 'i, 'p, 'a, 's) client_context \<Rightarrow> 'q server_pq \<Rightarrow> (ClientMessageFlat, SliceWriter) postcard_ser \<Rightarrow>
   ('q, 'cx, 'i, 'p, 'a, 's) GenericClient \<Rightarrow> 'w ClientSocket \<Rightarrow> SocketAddr \<Rightarrow> Instant \<Rightarrow> Server \<times> u8 list \<Rightarrow> 'w \<Rightarrow>
   ((ErrorKind + unit) \<times> ('q, 'cx, 'i, 'p, 'a, 's) GenericClient \<times> 'w) rust" where
  "dispatch_message CB Q P self sock addr timestamp msg w =
     (let buf = replicate ENCODE_BUF_LEN 0 in
      case msg of (msg, rem_buf) \<Rightarrow>
      (case msg of
         Server_Connect formats \<Rightarrow> Inr (on_server_connect_request CB P self sock addr formats buf w)
       | Server_Connected msg \<Rightarrow>
           (case gc_servers self addr of
              Some state \<Rightarrow>
                (case ServerIOState_on_msg CB P state addr (gc_callbacks self) sock msg rem_buf timestamp w of
                   (res, state', cx, w') \<Rightarrow>
                     Inr (res, self\<lparr>gc_servers := (gc_servers self)(addr \<mapsto> state'), gc_callbacks := cx\<rparr>, w'))
            | None \<Rightarrow> Inr (Inr (), self, w))
       | Server_Disconnect \<Rightarrow>
           (case gc_servers self addr of
              Some _ \<Rightarrow>
                (case pq_remove Q addr (gc_deadlines self) of (r, q) \<Rightarrow>
                   rbind (unwrap r) (\<lambda>_.
                     Inr (Inr (), self\<lparr>gc_servers := (gc_servers self)(addr := None), gc_deadlines := q\<rparr>, w)))
            | None \<Rightarrow> Inr (Inr (), self, w))))"

definition on_decoded_message ::
  "('cx, 'i, 'p, 'a, 's) client_context \<Rightarrow> 'q server_pq \<Rightarrow> (ClientMessageFlat, SliceWriter) postcard_ser \<Rightarrow>
   ('q, 'cx, 'i, 'p, 'a, 's) GenericClient \<Rightarrow> 'w ClientSocket \<Rightarrow> SocketAddr \<Rightarrow> Instant \<Rightarrow> Server \<times> u8 list \<Rightarrow> 'w \<Rightarrow>
   ((ErrorKind + unit) \<times> ('q, 'cx, 'i, 'p, 'a, 's) GenericClient \<times> 'w) rust" where
  "on_decoded_message CB Q P self sock addr timestamp msg w =
     rbind (dispatch_message CB Q P self sock addr timestamp msg w) (\<lambda>(res, self', w').
       case res of
         Inl e \<Rightarrow> Inr (Inl e, self', w')
       | Inr _ \<Rightarrow>
           if gc_servers self' addr \<noteq> None then
             rbind (unwrap (instant_checked_add timestamp CONN_TIMEOUT)) (\<lambda>t.
               Inr (Inr (), self'\<lparr>gc_deadlines := pq_push Q addr t (gc_deadlines self')\<rparr>, w'))
           else Inr (Inr (), self', w'))"

definition GenericClient_on_message ::
  "('cx, 'i, 'p, 'a, 's) client_context \<Rightarrow> 'q server_pq \<Rightarrow> (ClientMessageFlat, SliceWriter) postcard_ser \<Rightarrow>
   ('q, 'cx, 'i, 'p, 'a, 's) GenericClient \<Rightarrow> 'w ClientSocket \<Rightarrow> SocketAddr \<Rightarrow> Instant \<Rightarrow>
   (Server \<times> u8 list) option \<Rightarrow> 'w \<Rightarrow>
   ((ErrorKind + unit) \<times> ('q, 'cx, 'i, 'p, 'a, 's) GenericClient \<times> 'w) rust" where
  "GenericClient_on_message CB Q P self sock addr timestamp maybe_msg w =
     (case maybe_msg of
        Some msg \<Rightarrow> on_decoded_message CB Q P self sock addr timestamp msg w
      | None \<Rightarrow>
          Inr (Inr (), self\<lparr>gc_callbacks := cb_unknown_message CB addr (gc_callbacks self)\<rparr>, w))"

text \<open>The loop that expires overdue servers.\<close>

partial_function (option) expire_overdue ::
  "'q server_pq \<Rightarrow> Instant \<Rightarrow> 'q \<Rightarrow> ('i, 'p, 'a, 's) server_map \<Rightarrow>
   ('q \<times> ('i, 'p, 'a, 's) server_map) rust option" where
  "expire_overdue Q now q servers =
     (case pq_pop_if Q (\<lambda>_ deadline. deadline \<le> now) q of
        (None, q') \<Rightarrow> Some (Inr (q', servers))
      | (Some (addr, _), q') \<Rightarrow>
          (case servers addr of
             None \<Rightarrow> Some (Inl UnwrapNone)
           | Some _ \<Rightarrow> expire_overdue Q now q' (servers(addr := None))))"

definition poll_server ::
  "('cx, 'i, 'p, 'a, 's) client_context \<Rightarrow> (ClientMessageFlat, SliceWriter) postcard_ser \<Rightarrow> 'w ClientSocket \<Rightarrow>
   SocketAddr \<Rightarrow> ('i, 'p, 'a, 's) ServerIOState \<Rightarrow> 'cx \<Rightarrow> u8 list \<Rightarrow> 'w \<Rightarrow>
   (ErrorKind + unit) \<times> ('i, 'p, 'a, 's) ServerIOState \<times> 'cx \<times> u8 list \<times> 'w" where
  "poll_server CB P sock addr state cx encode_buf w =
     (case state of
        Inactive s \<Rightarrow>
          (case cb_poll_start_io CB s cx of
             (Inr s', cx') \<Rightarrow>
               (case client_send_msg P sock Client_START_IO addr encode_buf w of
                  (res, buf', w') \<Rightarrow> (res, PendingStart s', cx', buf', w'))
           | (Inl s', cx') \<Rightarrow> (Inr (), Inactive s', cx', encode_buf, w))
      | Active s \<Rightarrow>
          (case cb_poll_stop_io CB s cx of
             (Inr s', cx') \<Rightarrow>
               (case client_send_msg P sock Client_START_IO addr encode_buf w of
                  (res, buf', w') \<Rightarrow> (res, PendingStop s', cx', buf', w'))
           | (Inl s', cx') \<Rightarrow> (Inr (), Active s', cx', encode_buf, w))
      | _ \<Rightarrow> (Inr (), state, cx, encode_buf, w))"

fun poll_servers ::
  "('cx, 'i, 'p, 'a, 's) client_context \<Rightarrow> (ClientMessageFlat, SliceWriter) postcard_ser \<Rightarrow> 'w ClientSocket \<Rightarrow>
   SocketAddr list \<Rightarrow> ('i, 'p, 'a, 's) server_map \<Rightarrow> 'cx \<Rightarrow> u8 list \<Rightarrow> 'w \<Rightarrow>
   (ErrorKind + unit) \<times> ('i, 'p, 'a, 's) server_map \<times> 'cx \<times> 'w" where
  "poll_servers CB P sock [] servers cx encode_buf w = (Inr (), servers, cx, w)"
| "poll_servers CB P sock (addr # addrs) servers cx encode_buf w =
     (case servers addr of
        None \<Rightarrow> poll_servers CB P sock addrs servers cx encode_buf w
      | Some state \<Rightarrow>
          (case poll_server CB P sock addr state cx encode_buf w of
             (res, state', cx', buf', w') \<Rightarrow>
               (case res of
                  Inl e \<Rightarrow> (Inl e, servers(addr \<mapsto> state'), cx', w')
                | Inr _ \<Rightarrow> poll_servers CB P sock addrs (servers(addr \<mapsto> state')) cx' buf' w')))"

definition GenericClient_on_timeout ::
  "('cx, 'i, 'p, 'a, 's) client_context \<Rightarrow> 'q server_pq \<Rightarrow> (ClientMessageFlat, SliceWriter) postcard_ser \<Rightarrow>
   ('w \<Rightarrow> Instant \<times> 'w) \<Rightarrow> (('i, 'p, 'a, 's) server_map \<Rightarrow> SocketAddr list) \<Rightarrow>
   ('q, 'cx, 'i, 'p, 'a, 's) GenericClient \<Rightarrow> 'w ClientSocket \<Rightarrow> 'w \<Rightarrow>
   ((ErrorKind + unit) \<times> ('q, 'cx, 'i, 'p, 'a, 's) GenericClient \<times> 'w) rust option" where
  "GenericClient_on_timeout CB Q P clock order self sock w =
     (case clock w of (now, w0) \<Rightarrow>
      Option.bind (expire_overdue Q now (gc_deadlines self) (gc_servers self)) (\<lambda>r. Some (
        rbind r (\<lambda>(q, servers).
          case poll_servers CB P sock (order servers) servers (gc_callbacks self) (replicate 200 0) w0 of
            (res, servers', cx, w1) \<Rightarrow>
              let self' = self\<lparr>gc_deadlines := q, gc_servers := servers', gc_callbacks := cx\<rparr> in
              (case res of
                 Inl e \<Rightarrow> Inr (Inl e, self', w1)
               | Inr _ \<Rightarrow>
                   (case client_set_recv_timeout sock
                       (map_option (\<lambda>(_, next). min (min (next - now) REQUEST_POLL_PERIOD) CONN_TIMEOUT)
                         (pq_peek Q q)) w1 of
                      (res, w2) \<Rightarrow> Inr (res, self', w2)))))))"

section \<open>Phases\<close>

text \<open>The abstract state machine of a connection: which typestate it is in.\<close>

datatype phase = InactivePhase | PendingStartPhase | ActivePhase | PendingStopPhase

definition phase_of :: "('i, 'p, 'a, 's) ServerIOState \<Rightarrow> phase" where
  "phase_of st = (case st of Inactive _ \<Rightarrow> InactivePhase | PendingStart _ \<Rightarrow> PendingStartPhase
     | Active _ \<Rightarrow> ActivePhase | PendingStop _ \<Rightarrow> PendingStopPhase)"

fun phase_step :: "ServerConnected \<Rightarrow> phase \<Rightarrow> phase" where
  "phase_step (ServerConnected_Control (IOStateChangeResult (Start (Inr _)))) PendingStartPhase = ActivePhase"
| "phase_step (ServerConnected_Control (IOStateChangeResult (Start (Inl (Refusal _))))) PendingStartPhase = InactivePhase"
| "phase_step (ServerConnected_Control (IOStateChangeResult (Stop (Inr _)))) PendingStopPhase = InactivePhase"
| "phase_step (ServerConnected_Control (IOStateChangeResult (Stop (Inl (Refusal _))))) PendingStopPhase = ActivePhase"
| "phase_step _ p = p"

text \<open>The request that a message makes the client send again, if any.\<close>

fun phase_retry :: "ServerConnected \<Rightarrow> phase \<Rightarrow> Client option" where
  "phase_retry (ServerConnected_Control (IOStateChangeResult (Start (Inl (Failure _))))) PendingStartPhase
     = Some Client_START_IO"
| "phase_retry (ServerConnected_Control (IOStateChangeResult (Stop (Inl (Failure _))))) PendingStopPhase
     = Some Client_STOP_IO"
| "phase_retry _ _ = None"

lemmas message_splits = ServerConnected.splits ServerControl.splits IOState.splits sum.splits
  Error.splits ServerIOState.splits prod.splits

section \<open>The deadline queue\<close>

lemma pq_laws:
  assumes "server_pq_ok Q ent"
  shows "ent (pq_with_hasher Q) = Map.empty" "finite (dom (ent q))"
    "ent (pq_push Q a t q) = (ent q)(a \<mapsto> t)"
    "\<exists>q'. pq_remove Q a q = (map_option (Pair a) (ent q a), q') \<and> ent q' = (ent q)(a := None)"
  using assms by (auto simp: server_pq_ok_def)

lemma pq_pop_law:
  assumes "server_pq_ok Q ent"
  shows "if ent q = Map.empty then \<exists>q'. pq_pop_if Q f q = (None, q') \<and> ent q' = Map.empty
    else \<exists>a t q'. earliest (ent q) a t \<and>
      (if f a t then pq_pop_if Q f q = (Some (a, t), q') \<and> ent q' = (ent q)(a := None)
       else pq_pop_if Q f q = (None, q') \<and> ent q' = ent q)"
  by (rule assms [unfolded server_pq_ok_def, THEN conjunct2, THEN conjunct2, THEN conjunct2,
        THEN conjunct2, THEN conjunct1, rule_format])

lemma pq_pop_if_cases:
  assumes "server_pq_ok Q ent"
  obtains (none) q' where "pq_pop_if Q (\<lambda>_ d. d \<le> now) q = (None, q')" "ent q' = ent q"
      "\<forall>a t. ent q a = Some t \<longrightarrow> now < t"
    | (some) a t q' where "pq_pop_if Q (\<lambda>_ d. d \<le> now) q = (Some (a, t), q')" "ent q a = Some t" "t \<le> now"
      "ent q' = (ent q)(a := None)"
proof (cases "ent q = Map.empty")
  case True
  then obtain q' where "pq_pop_if Q (\<lambda>_ d. d \<le> now) q = (None, q')" "ent q' = Map.empty"
    using pq_pop_law [OF assms, of q "\<lambda>_ d. d \<le> now"] by auto
  with True none show ?thesis by simp
next
  case False
  then obtain a t q' where e: "earliest (ent q) a t"
    and pop: "if t \<le> now
      then pq_pop_if Q (\<lambda>_ d. d \<le> now) q = (Some (a, t), q') \<and> ent q' = (ent q)(a := None)
      else pq_pop_if Q (\<lambda>_ d. d \<le> now) q = (None, q') \<and> ent q' = ent q"
    using pq_pop_law [OF assms, of q "\<lambda>_ d. d \<le> now"] by (simp only: if_False) blast
  show ?thesis
  proof (cases "t \<le> now")
    case True
    with e pop some show ?thesis by (auto simp: earliest_def)
  next
    case False
    with e pop none show ?thesis by (fastforce simp: earliest_def)
  qed
qed

lemma pq_peek_cases:
  assumes "server_pq_ok Q ent"
  obtains (none) "ent q = Map.empty" "pq_peek Q q = None"
    | (some) a t where "pq_peek Q q = Some (a, t)" "earliest (ent q) a t"
  using assms unfolding server_pq_ok_def by meson

text \<open>The entries that are not overdue.\<close>

definition alive :: "Instant \<Rightarrow> (SocketAddr \<rightharpoonup> Instant) \<Rightarrow> SocketAddr set" where
  "alive now m = {a. \<exists>t. m a = Some t \<and> now < t}"

lemma expire_overdue_spec:
  assumes ok: "server_pq_ok Q ent" and "dom servers = dom (ent q)"
  shows "\<exists>q'. expire_overdue Q now q servers = Some (Inr (q', servers |` alive now (ent q)))
    \<and> ent q' = ent q |` alive now (ent q)"
  using assms(2)
proof (induction "card (dom (ent q))" arbitrary: q servers rule: less_induct)
  case less
  show ?case
  proof (cases rule: pq_pop_if_cases [OF ok, of now q, case_names none some])
    case (none q')
    then have all: "alive now (ent q) = dom (ent q)" by (auto simp: alive_def)
    have "servers |` dom servers = servers" "ent q |` dom (ent q) = ent q"
      by (auto simp: restrict_map_def fun_eq_iff dom_def split: option.split)
    with none all less.prems show ?thesis by (subst expire_overdue.simps) simp
  next
    case (some a t q')
    have "a \<in> dom (ent q)" using some by blast
    then have "card (dom (ent q')) < card (dom (ent q))"
      using some(4) pq_laws(2) [OF ok, of q] by (simp add: card_Diff1_less del: card_Diff_insert)
    moreover have "dom (servers(a := None)) = dom (ent q')" using less.prems some(4) by simp
    ultimately obtain q'' where IH:
      "expire_overdue Q now q' (servers(a := None)) = Some (Inr (q'', servers(a := None) |` alive now (ent q')))"
      "ent q'' = ent q' |` alive now (ent q')"
      using less.hyps by blast
    have live: "alive now (ent q') = alive now (ent q)" "a \<notin> alive now (ent q)"
      using some by (auto simp: alive_def split: if_splits)
    then have "servers(a := None) |` alive now (ent q') = servers |` alive now (ent q)"
      "ent q' |` alive now (ent q') = ent q |` alive now (ent q)"
      unfolding live(1) some(4) by (auto simp: restrict_map_def fun_eq_iff)
    moreover obtain st where "servers a = Some st" using \<open>a \<in> dom (ent q)\<close> less.prems by blast
    ultimately show ?thesis using IH some(1) by (subst expire_overdue.simps) simp
  qed
qed

lemma expire_overdue_returns:
  assumes ok: "server_pq_ok Q ent"
  shows "\<exists>r. expire_overdue Q now q servers = Some r
    \<and> (r = Inl UnwrapNone \<longleftrightarrow> (\<exists>a t. ent q a = Some t \<and> t \<le> now \<and> servers a = None))
    \<and> (\<forall>p. r = Inl p \<longrightarrow> p = UnwrapNone)"
proof (induction "card (dom (ent q))" arbitrary: q servers rule: less_induct)
  case less
  show ?case
  proof (cases rule: pq_pop_if_cases [OF ok, of now q, case_names none some])
    case (none q')
    then have "\<nexists>a t. ent q a = Some t \<and> t \<le> now" by (auto simp: not_le)
    with none(1) show ?thesis by (subst expire_overdue.simps) auto
  next
    case (some a t q')
    show ?thesis
    proof (cases "servers a")
      case None
      with some show ?thesis by (subst expire_overdue.simps) auto
    next
      case (Some st)
      have "a \<in> dom (ent q)" using some by blast
      then have "card (dom (ent q')) < card (dom (ent q))"
        using some(4) pq_laws(2) [OF ok, of q] by (simp add: card_Diff1_less del: card_Diff_insert)
      from less [OF this, of "servers(a := None)"] obtain r where
        r: "expire_overdue Q now q' (servers(a := None)) = Some r"
          "r = Inl UnwrapNone \<longleftrightarrow> (\<exists>b t. ent q' b = Some t \<and> t \<le> now \<and> (servers(a := None)) b = None)"
          "\<forall>p. r = Inl p \<longrightarrow> p = UnwrapNone"
        by blast
      have "ent q' b = Some t \<and> t \<le> now \<and> (servers(a := None)) b = None
          \<longleftrightarrow> ent q b = Some t \<and> t \<le> now \<and> servers b = None" for b t
        using some(4) Some by (cases "b = a") simp_all
      with r some(1) Some show ?thesis by (subst expire_overdue.simps) simp
    qed
  qed
qed

section \<open>Polling\<close>

lemma poll_servers_dom:
  "poll_servers CB P sock addrs servers cx buf w = (res, servers', cx', w') \<Longrightarrow> dom servers' = dom servers"
proof (induction addrs arbitrary: servers cx buf w)
  case Nil
  then show ?case by simp
next
  case (Cons a addrs)
  then show ?case
    by (fastforce simp: dom_def split: option.splits prod.splits sum.splits if_splits)
qed

section \<open>Requests of the application\<close>

text \<open>
  The specification of polling, without the socket: which servers the application wants
  changed (a connection that waits for a reply is not asked), what a request does to the
  phase, and sending one message to a list of servers up to the first failure.
\<close>

definition application_request ::
  "('cx, 'i, 'p, 'a, 's) client_context \<Rightarrow> ('i, 'p, 'a, 's) ServerIOState \<Rightarrow> 'cx \<Rightarrow> bool \<times> 'cx" where
  "application_request CB st cx =
     (case st of
        Inactive s \<Rightarrow> map_prod (\<lambda>r. \<not> isl r) id (cb_poll_start_io CB s cx)
      | Active s \<Rightarrow> map_prod (\<lambda>r. \<not> isl r) id (cb_poll_stop_io CB s cx)
      | _ \<Rightarrow> (False, cx))"

primrec poll_requests ::
  "('cx, 'i, 'p, 'a, 's) client_context \<Rightarrow> SocketAddr list \<Rightarrow> ('i, 'p, 'a, 's) server_map \<Rightarrow> 'cx \<Rightarrow> SocketAddr list" where
  "poll_requests CB [] servers cx = []"
| "poll_requests CB (a # addrs) servers cx =
     (case servers a of
        None \<Rightarrow> poll_requests CB addrs servers cx
      | Some st \<Rightarrow>
          (case application_request CB st cx of
             (b, cx') \<Rightarrow> (if b then [a] else []) @ poll_requests CB addrs servers cx'))"

fun phase_request :: "phase \<Rightarrow> phase" where
  "phase_request InactivePhase = PendingStartPhase"
| "phase_request ActivePhase = PendingStopPhase"
| "phase_request ph = ph"

primrec send_each ::
  "(ClientMessageFlat, SliceWriter) postcard_ser \<Rightarrow> 'w ClientSocket \<Rightarrow> Client \<Rightarrow> SocketAddr list \<Rightarrow> u8 list \<Rightarrow> 'w \<Rightarrow>
   (ErrorKind + unit) \<times> 'w" where
  "send_each P sock m [] buf w = (Inr (), w)"
| "send_each P sock m (a # addrs) buf w =
     (case client_send_msg P sock m a buf w of
        (Inl e, buf', w') \<Rightarrow> (Inl e, w')
      | (Inr _, buf', w') \<Rightarrow> send_each P sock m addrs buf' w')"

text \<open>The first \<open>k\<close> sends have been tried: all of them, or the last one failed.\<close>

definition sent_up_to ::
  "(ClientMessageFlat, SliceWriter) postcard_ser \<Rightarrow> 'w ClientSocket \<Rightarrow> Client \<Rightarrow> SocketAddr list \<Rightarrow> u8 list \<Rightarrow> 'w \<Rightarrow>
   (ErrorKind + unit) \<Rightarrow> 'w \<Rightarrow> nat \<Rightarrow> bool" where
  "sent_up_to P sock m addrs buf w res w' k \<longleftrightarrow> send_each P sock m (take k addrs) buf w = (res, w')
     \<and> (if isl res then 0 < k \<and> fst (send_each P sock m (take (k - 1) addrs) buf w) = Inr () else k = length addrs)"

lemma poll_requests_upd:
  "a \<notin> set addrs \<Longrightarrow> poll_requests CB addrs (servers(a \<mapsto> st)) cx = poll_requests CB addrs servers cx"
proof (induction addrs arbitrary: cx)
  case (Cons x addrs)
  then have "x \<noteq> a" "a \<notin> set addrs" by auto
  with Cons.IH show ?case by (simp cong: option.case_cong)
qed simp

lemma poll_requests_subset: "set (poll_requests CB addrs servers cx) \<subseteq> set addrs"
proof (induction addrs arbitrary: cx)
  case (Cons a addrs)
  show ?case
    using Cons by (auto split: option.split prod.split)
qed simp

lemma poll_server_request:
  assumes "poll_server CB P sock a st cx buf w = (res, st', cx', buf', w')" and "application_request CB st cx = (b, cx1)"
  shows "cx1 = cx'
    \<and> phase_of st' = (if b then phase_request else id) (phase_of st)
    \<and> (if b then client_send_msg P sock Client_START_IO a buf w = (res, buf', w') else res = Inr () \<and> buf' = buf \<and> w' = w)"
proof -
  obtain m mb mw where send: "client_send_msg P sock Client_START_IO a buf w = (m, mb, mw)" by (rule prod_cases3)
  note defs = poll_server_def application_request_def phase_of_def send
  show ?thesis
  proof (cases st)
    case (Inactive s)
    obtain q c where "cb_poll_start_io CB s cx = (q, c)" by fastforce
    with Inactive assms show ?thesis by (cases q) (auto simp: defs)
  next
    case (Active s)
    obtain q c where "cb_poll_stop_io CB s cx = (q, c)" by fastforce
    with Active assms show ?thesis by (cases q) (auto simp: defs)
  qed (use assms in \<open>auto simp: poll_server_def application_request_def\<close>)
qed

lemma sent_up_to_Cons:
  assumes "client_send_msg P sock m x buf w = (Inr (), buf1, w1)" and "sent_up_to P sock m addrs buf1 w1 res w' k"
  shows "sent_up_to P sock m (x # addrs) buf w res w' (Suc k)"
  using assms by (cases k) (auto simp: sent_up_to_def)

lemma poll_servers_requests:
  assumes "distinct addrs" and "poll_servers CB P sock addrs servers cx buf w = (res, servers', cx', w')"
  shows "\<exists>k. sent_up_to P sock Client_START_IO (poll_requests CB addrs servers cx) buf w res w' k
      \<and> (\<forall>a. map_option phase_of (servers' a) = map_option ((if a \<in> set (take k (poll_requests CB addrs servers cx))
          then phase_request else id) \<circ> phase_of) (servers a))"
  using assms
proof (induction addrs arbitrary: servers cx buf w)
  case Nil
  then show ?case by (auto simp: comp_def sent_up_to_def)
next
  case (Cons x addrs)
  show ?case
  proof (cases "servers x")
    case None
    with Cons show ?thesis by simp
  next
    case (Some st)
    obtain r st1 cx1 buf1 w1 where one: "poll_server CB P sock x st cx buf w = (r, st1, cx1, buf1, w1)"
      by (metis prod_cases5)
    obtain b c where "application_request CB st cx = (b, c)" by fastforce
    with poll_server_request [OF one this] have b: "application_request CB st cx = (b, cx1)"
      "phase_of st1 = (if b then phase_request else id) (phase_of st)"
      "if b then client_send_msg P sock Client_START_IO x buf w = (r, buf1, w1) else r = Inr () \<and> buf1 = buf \<and> w1 = w"
      by simp_all
    let ?rest = "poll_requests CB addrs servers cx1"
    have reqs: "poll_requests CB (x # addrs) servers cx = (if b then [x] else []) @ ?rest"
      by (simp add: Some b(1))
    show ?thesis
    proof (cases r)
      case (Inl e)
      with b(3) have b: b "client_send_msg P sock Client_START_IO x buf w = (r, buf1, w1)" by (auto split: if_splits)
      with Cons.prems(2) Some one Inl \<open>phase_of st1 = _\<close> show ?thesis
        unfolding reqs by (auto simp: sent_up_to_def intro!: exI [of _ 1])
    next
      case (Inr u)
      with Cons.prems Some one have "poll_servers CB P sock addrs (servers(x \<mapsto> st1)) cx1 buf1 w1 = (res, servers', cx', w')"
        by simp
      with Cons.IH Cons.prems(1) poll_requests_upd [of x addrs CB servers st1 cx1]
      obtain k where k: "sent_up_to P sock Client_START_IO ?rest buf1 w1 res w' k"
        "\<And>a. map_option phase_of (servers' a) =
           map_option ((if a \<in> set (take k ?rest) then phase_request else id) \<circ> phase_of) ((servers(x \<mapsto> st1)) a)"
        by (metis distinct.simps(2))
      have "x \<notin> set (take k ?rest)"
        using Cons.prems(1) poll_requests_subset [of CB addrs servers cx1] set_take_subset [of k ?rest] by auto
      with k(2) b(2) Some have "map_option phase_of (servers' a) = map_option ((if a \<in> set (take (if b then Suc k else k)
          (poll_requests CB (x # addrs) servers cx)) then phase_request else id) \<circ> phase_of) (servers a)" for a
        unfolding reqs by (auto simp: comp_def)
      moreover have "sent_up_to P sock Client_START_IO (poll_requests CB (x # addrs) servers cx) buf w res w' (if b then Suc k else k)"
        using k(1) b(3) Inr sent_up_to_Cons [of P sock Client_START_IO x buf w buf1 w1 ?rest res w' k] unfolding reqs by auto
      ultimately show ?thesis by blast
    qed
  qed
qed

section \<open>Messages\<close>

lemma dom_eq_None: "dom m = dom d \<Longrightarrow> m a = None \<longleftrightarrow> d a = None"
  by (metis domIff)

lemma connect_request_frame:
  assumes "on_server_connect_request CB P self sock addr formats buf w = (res, self', w')"
  shows "gc_deadlines self' = gc_deadlines self" "b \<noteq> addr \<Longrightarrow> gc_servers self' b = gc_servers self b"
    "gc_servers self addr = Some st \<Longrightarrow> gc_servers self' addr = Some st"
  using assms by (auto simp: on_server_connect_request_def Let_def split: if_splits prod.splits sum.splits)

text \<open>
  The dispatch never panics when every server has a deadline, touches nothing but the
  sender's entries, and takes the deadline out when it takes the server out.
\<close>

lemma dispatch_message_frame:
  assumes ok: "server_pq_ok Q ent" and inv: "dom (gc_servers self) = dom (ent (gc_deadlines self))"
  shows "\<exists>res self' w'. dispatch_message CB Q P self sock addr ts msg w = Inr (res, self', w')
    \<and> (\<forall>b. b \<noteq> addr \<longrightarrow> gc_servers self' b = gc_servers self b
        \<and> ent (gc_deadlines self') b = ent (gc_deadlines self) b)
    \<and> (gc_servers self' addr = None \<longrightarrow> ent (gc_deadlines self') addr = None)"
proof -
  have none: "gc_servers self addr = None \<longleftrightarrow> ent (gc_deadlines self) addr = None"
    by (rule dom_eq_None [OF inv])
  obtain m rest where msg: "msg = (m, rest)" by fastforce
  show ?thesis
  proof (cases m)
    case (Server_Connect f)
    obtain res self' w' where
      c: "on_server_connect_request CB P self sock addr f (replicate ENCODE_BUF_LEN 0) w = (res, self', w')"
      by (cases "on_server_connect_request CB P self sock addr f (replicate ENCODE_BUF_LEN 0) w")
    have "gc_servers self' addr = None \<longrightarrow> gc_servers self addr = None"
      using connect_request_frame(3) [OF c] by (cases "gc_servers self addr") auto
    with connect_request_frame(1,2) [OF c] c none msg Server_Connect show ?thesis
      by (simp add: dispatch_message_def Let_def)
  next
    case (Server_Connected c)
    show ?thesis
    proof (cases "gc_servers self addr")
      case None
      with none msg Server_Connected show ?thesis by (simp add: dispatch_message_def Let_def)
    next
      case (Some st)
      obtain res st' cx w' where
        "ServerIOState_on_msg CB P st addr (gc_callbacks self) sock c rest ts w = (res, st', cx, w')"
        by (cases "ServerIOState_on_msg CB P st addr (gc_callbacks self) sock c rest ts w")
      with Some msg Server_Connected show ?thesis by (simp add: dispatch_message_def Let_def)
    qed
  next
    case Server_Disconnect
    obtain q' where "pq_remove Q addr (gc_deadlines self) =
        (map_option (Pair addr) (ent (gc_deadlines self) addr), q')"
      "ent q' = (ent (gc_deadlines self))(addr := None)"
      using pq_laws(4) [OF ok] by blast
    with none msg Server_Disconnect show ?thesis
      by (cases "gc_servers self addr"; cases "ent (gc_deadlines self) addr")
        (simp_all add: dispatch_message_def Let_def)
  qed
qed

lemma on_decoded_message_ok:
  assumes ok: "server_pq_ok Q ent" and inv: "dom (gc_servers self) = dom (ent (gc_deadlines self))"
    and ts: "ts + CONN_TIMEOUT < 2 ^ 63 * 10 ^ 9"
  shows "\<exists>res self' w'. on_decoded_message CB Q P self sock addr ts msg w = Inr (res, self', w')
    \<and> (\<forall>b. b \<noteq> addr \<longrightarrow> gc_servers self' b = gc_servers self b
        \<and> ent (gc_deadlines self') b = ent (gc_deadlines self) b)
    \<and> (res = Inr () \<longrightarrow> ent (gc_deadlines self') addr =
        (if gc_servers self' addr = None then None else Some (ts + CONN_TIMEOUT)))"
proof -
  obtain res self' w' where d: "dispatch_message CB Q P self sock addr ts msg w = Inr (res, self', w')"
    "\<forall>b. b \<noteq> addr \<longrightarrow> gc_servers self' b = gc_servers self b
        \<and> ent (gc_deadlines self') b = ent (gc_deadlines self) b"
    "gc_servers self' addr = None \<longrightarrow> ent (gc_deadlines self') addr = None"
    using dispatch_message_frame [OF ok inv, where CB = CB and P = P and sock = sock and addr = addr
        and ts = ts and msg = msg and w = w] by (elim exE conjE)
  have "instant_checked_add ts CONN_TIMEOUT = Some (ts + CONN_TIMEOUT)"
    using ts by (simp only: instant_checked_add_def if_True)
  with d pq_laws(3) [OF ok] show ?thesis
    by (cases res; cases "gc_servers self' addr") (simp_all add: on_decoded_message_def)
qed

lemma frame_keeps_dom:
  assumes "dom m = dom d" "\<forall>b. b \<noteq> a \<longrightarrow> m' b = m b \<and> d' b = d b" "m' a = None \<longleftrightarrow> d' a = None"
  shows "dom m' = dom d'"
proof -
  have "m' b = None \<longleftrightarrow> d' b = None" for b
    using assms dom_eq_None [OF assms(1), of b] by (cases "b = a") simp_all
  then show ?thesis by (auto simp: dom_def)
qed

lemma on_message_ok:
  assumes ok: "server_pq_ok Q ent" and inv: "dom (gc_servers self) = dom (ent (gc_deadlines self))"
    and ts: "ts + CONN_TIMEOUT < 2 ^ 63 * 10 ^ 9"
  shows "\<exists>res self' w'. GenericClient_on_message CB Q P self sock addr ts m w = Inr (res, self', w')
    \<and> (res = Inr () \<longrightarrow> dom (gc_servers self') = dom (ent (gc_deadlines self')))"
proof (cases m)
  case None
  then show ?thesis using inv by (simp add: GenericClient_on_message_def)
next
  case (Some msg)
  obtain res self' w' where d: "on_decoded_message CB Q P self sock addr ts msg w = Inr (res, self', w')"
    "\<forall>b. b \<noteq> addr \<longrightarrow> gc_servers self' b = gc_servers self b
        \<and> ent (gc_deadlines self') b = ent (gc_deadlines self) b"
    "res = Inr () \<longrightarrow> ent (gc_deadlines self') addr =
        (if gc_servers self' addr = None then None else Some (ts + CONN_TIMEOUT))"
    using on_decoded_message_ok [OF ok inv ts, where CB = CB and P = P and sock = sock and addr = addr
        and msg = msg and w = w] by (elim exE conjE)
  have "dom (gc_servers self') = dom (ent (gc_deadlines self'))" if "res = Inr ()"
    by (rule frame_keeps_dom [OF inv d(2)]) (use d(3) that in simp)
  with d(1) Some show ?thesis by (simp add: GenericClient_on_message_def)
qed

section \<open>Timeouts\<close>

lemma on_timeout_eq:
  assumes ok: "server_pq_ok Q ent" and inv: "dom (gc_servers self) = dom (ent (gc_deadlines self))"
    and clock: "clock w = (now, w0)"
  shows "\<exists>res self' w' q servers'. GenericClient_on_timeout CB Q P clock order self sock w = Some (Inr (res, self', w'))
    \<and> gc_deadlines self' = q \<and> gc_servers self' = servers'
    \<and> ent q = ent (gc_deadlines self) |` alive now (ent (gc_deadlines self))
    \<and> dom servers' = alive now (ent (gc_deadlines self))
    \<and> (res = Inr () \<longrightarrow> (\<exists>w1. client_set_recv_timeout sock
          (map_option (\<lambda>(_, next). min (min (next - now) REQUEST_POLL_PERIOD) CONN_TIMEOUT) (pq_peek Q q)) w1
          = (res, w')))"
proof -
  let ?live = "alive now (ent (gc_deadlines self))"
  obtain q where q: "expire_overdue Q now (gc_deadlines self) (gc_servers self) = Some (Inr (q, gc_servers self |` ?live))"
    "ent q = ent (gc_deadlines self) |` ?live"
    using expire_overdue_spec [OF ok inv] by blast
  obtain res servers' cx w1 where poll: "poll_servers CB P sock (order (gc_servers self |` ?live))
      (gc_servers self |` ?live) (gc_callbacks self) (replicate 200 0) w0 = (res, servers', cx, w1)"
    by (cases "poll_servers CB P sock (order (gc_servers self |` ?live))
      (gc_servers self |` ?live) (gc_callbacks self) (replicate 200 0) w0")
  have "?live \<subseteq> dom (gc_servers self)" unfolding inv by (auto simp: alive_def)
  then have "dom (gc_servers self |` ?live) = ?live" by auto
  with poll_servers_dom [OF poll] have "dom servers' = ?live" by simp
  with q poll clock show ?thesis
    by (cases res) (auto simp: GenericClient_on_timeout_def Let_def split: prod.splits)
qed

section \<open>Reachable clients\<close>

text \<open>
  A client is driven by receptions and timeouts whose handlers succeed; between them the
  outside world changes as it likes.
\<close>

inductive gc_reach ::
  "('cx, 'i, 'p, 'a, 's) client_context \<Rightarrow> 'q server_pq \<Rightarrow> (ClientMessageFlat, SliceWriter) postcard_ser \<Rightarrow>
   ('w \<Rightarrow> Instant \<times> 'w) \<Rightarrow> (('i, 'p, 'a, 's) server_map \<Rightarrow> SocketAddr list) \<Rightarrow> 'w ClientSocket \<Rightarrow>
   ('q, 'cx, 'i, 'p, 'a, 's) GenericClient \<Rightarrow> bool"
  for CB Q P clock order sock where
  new: "gc_reach CB Q P clock order sock (GenericClient_new Q cx)"
| message: "\<lbrakk>gc_reach CB Q P clock order sock self; ts + CONN_TIMEOUT < 2 ^ 63 * 10 ^ 9;
     GenericClient_on_message CB Q P self sock addr ts m w = Inr (Inr (), self', w')\<rbrakk> \<Longrightarrow>
     gc_reach CB Q P clock order sock self'"
| timeout: "\<lbrakk>gc_reach CB Q P clock order sock self;
     GenericClient_on_timeout CB Q P clock order self sock w = Some (Inr (Inr (), self', w'))\<rbrakk> \<Longrightarrow>
     gc_reach CB Q P clock order sock self'"

lemma on_timeout_keeps_dom:
  assumes "server_pq_ok Q ent" and "dom (gc_servers self) = dom (ent (gc_deadlines self))"
    and "GenericClient_on_timeout CB Q P clock order self sock w = Some (Inr (res, self', w'))"
  shows "dom (gc_servers self') = dom (ent (gc_deadlines self'))"
proof -
  obtain now w0 where clock: "clock w = (now, w0)" by (cases "clock w")
  have "alive now m \<subseteq> dom m" for m by (auto simp: alive_def)
  then have "dom (m |` alive now m) = alive now m" for m by auto
  with on_timeout_eq [OF assms(1,2), of clock, OF clock, of CB P order sock] assms(3) show ?thesis
    by auto
qed

lemma gc_reach_dom:
  assumes "server_pq_ok Q ent"
  shows "gc_reach CB Q P clock order sock self \<Longrightarrow> dom (gc_servers self) = dom (ent (gc_deadlines self))"
proof (induction rule: gc_reach.induct)
  case (new cx)
  then show ?case using pq_laws(1) [OF assms] by (simp add: GenericClient_new_def)
next
  case (message self ts addr m w self' w')
  with on_message_ok [OF assms message.IH message.hyps(2), of CB P sock addr m w] show ?case by auto
next
  case (timeout self w self' w')
  show ?case by (rule on_timeout_keeps_dom [OF assms timeout.IH timeout.hyps(2)])
qed

section \<open>A concrete queue\<close>

function list_earliest :: "(SocketAddr \<times> Instant) list \<Rightarrow> (SocketAddr \<times> Instant) option" where
  "list_earliest [] = None"
| "list_earliest ((a, t) # q) =
     (case list_earliest (filter (\<lambda>e. fst e \<noteq> a) q) of
        None \<Rightarrow> Some (a, t)
      | Some (b, u) \<Rightarrow> if t \<le> u then Some (a, t) else Some (b, u))"
  by pat_completeness auto
termination
  by (relation "measure length") (simp_all add: le_imp_less_Suc)

definition list_pq :: "(SocketAddr \<times> Instant) list server_pq" where
  "list_pq = \<lparr>pq_with_hasher = [], pq_push = (\<lambda>a t q. (a, t) # q),
     pq_remove = (\<lambda>a q. (map_option (Pair a) (map_of q a), filter (\<lambda>e. fst e \<noteq> a) q)),
     pq_pop_if = (\<lambda>f q. case list_earliest q of
         None \<Rightarrow> (None, q)
       | Some (a, t) \<Rightarrow> if f a t then (Some (a, t), filter (\<lambda>e. fst e \<noteq> a) q) else (None, q)),
     pq_peek = list_earliest\<rparr>"

lemma map_of_remove: "map_of (filter (\<lambda>e. fst e \<noteq> a) q) = (map_of q)(a := None)"
  by (induction q) (auto simp: fun_eq_iff)

lemma list_earliest_spec:
  "if q = [] then list_earliest q = None
   else \<exists>a t. list_earliest q = Some (a, t) \<and> earliest (map_of q) a t"
proof (induction q rule: list_earliest.induct)
  case 1
  then show ?case by simp
next
  case (2 a t q)
  let ?r = "filter (\<lambda>e. fst e \<noteq> a) q"
  show ?case
  proof (cases "?r = []")
    case True
    then have "(map_of q)(a := None) = Map.empty" using map_of_remove [of a q] by simp
    then have "map_of q b = None" if "b \<noteq> a" for b using that by (metis fun_upd_apply)
    with True 2 show ?thesis by (auto simp: earliest_def)
  next
    case False
    with 2 obtain b u where bu: "list_earliest ?r = Some (b, u)" "earliest ((map_of q)(a := None)) b u"
      by (auto simp: map_of_remove)
    then have "b \<noteq> a" "map_of q b = Some u" "\<forall>c v. c \<noteq> a \<longrightarrow> map_of q c = Some v \<longrightarrow> u \<le> v"
      by (auto simp: earliest_def split: if_splits)
    with bu(1) show ?thesis by (fastforce simp: earliest_def)
  qed
qed

lemma list_pq_ok: "server_pq_ok list_pq map_of"
proof -
  have empty: "map_of q = Map.empty \<longleftrightarrow> q = []" for q :: "(SocketAddr \<times> Instant) list" by (cases q) auto
  have "\<exists>a t. list_earliest q = Some (a, t) \<and> earliest (map_of q) a t" if "q \<noteq> []" for q
    using list_earliest_spec [of q] that by simp
  then show ?thesis
    unfolding server_pq_ok_def empty
    by (fastforce simp: list_pq_def finite_dom_map_of map_of_remove fun_eq_iff)
qed

text \<open>C25: The loop that expires servers terminates for every queue, server map and time, also when the
  two have come apart: each turn takes an entry out of a finite queue. It panics exactly
  when an overdue entry has no server.\<close>

theorem expire_overdue_terminates:
  assumes "server_pq_ok Q ent"
  shows "\<exists>r. expire_overdue Q now q servers = Some r
    \<and> ((\<exists>p. r = Inl p) \<longleftrightarrow> (\<exists>a t. ent q a = Some t \<and> t \<le> now \<and> servers a = None))"
  using expire_overdue_returns [OF assms, of now q servers] by blast

theorem expire_overdue_terminates_witness:
  "\<exists>p. expire_overdue list_pq 7 [(SocketAddrV4 1 2, 5)] (Map.empty :: (unit, unit, unit, unit) server_map) = Some (Inl p)"
  using expire_overdue_terminates [OF list_pq_ok, of 7 "[(SocketAddrV4 1 2, 5)]"
      "Map.empty :: (unit, unit, unit, unit) server_map"]
  by auto

section \<open>Properties\<close>

text \<open>C2: In every client reached through handlers that succeed, the servers with a deadline are
  exactly the connected servers; therefore no further message (received before the end of
  the clock's range) and no further timeout makes a handler panic, and the timeout handler
  terminates.\<close>

theorem generic_client_invariant:
  assumes "server_pq_ok Q ent" and "gc_reach CB Q P clock order sock self"
  shows "dom (gc_servers self) = dom (ent (gc_deadlines self))
    \<and> (\<forall>addr ts m w. ts + CONN_TIMEOUT < 2 ^ 63 * 10 ^ 9 \<longrightarrow>
        (\<exists>r. GenericClient_on_message CB Q P self sock addr ts m w = Inr r))
    \<and> (\<forall>w. \<exists>r. GenericClient_on_timeout CB Q P clock order self sock w = Some (Inr r))"
proof -
  note inv = gc_reach_dom [OF assms]
  have "\<exists>r. GenericClient_on_timeout CB Q P clock order self sock w = Some (Inr r)" for w
    using on_timeout_eq [OF assms(1) inv, of clock w "fst (clock w)" "snd (clock w)" CB P order sock]
    by auto
  moreover have "\<exists>r. GenericClient_on_message CB Q P self sock addr ts m w = Inr r"
    if "ts + CONN_TIMEOUT < 2 ^ 63 * 10 ^ 9" for addr ts m w
    using on_message_ok [OF assms(1) inv that, of CB P sock addr m w] by auto
  ultimately show ?thesis using inv by simp
qed

text \<open>A context that accepts everything and has one typestate value for each phase.\<close>

definition accept_all :: "(unit, unit, unit, unit, unit) client_context" where
  "accept_all = \<lparr>cb_connect = (\<lambda>_ _ cx. (Inr (), cx)), cb_unknown_message = (\<lambda>_ cx. cx),
     cb_poll_start_io = (\<lambda>_ cx. (Inr (), cx)), cb_start_io = (\<lambda>_ cx. ((), cx)),
     cb_start_io_refused = (\<lambda>_ cx. ((), cx)), cb_start_io_failed = (\<lambda>_ cx. ((), cx)),
     cb_on_audio = (\<lambda>_ _ _ _ cx. ((), cx)), cb_poll_stop_io = (\<lambda>_ cx. (Inr (), cx)),
     cb_stop_io = (\<lambda>_ cx. ((), cx)), cb_stop_io_refused = (\<lambda>_ cx. ((), cx)),
     cb_stop_io_failed = (\<lambda>_ cx. ((), cx))\<rparr>"

theorem generic_client_invariant_witness:
  "\<exists>r. GenericClient_on_message accept_all list_pq (bytes_ser slice_write_all write_client)
      (GenericClient_new list_pq ()) (ClientSocket_new scripted_sock) (SocketAddrV4 1 2) 5 None
      \<lparr>sw_script = [], sw_log = []\<rparr> = Inr r"
proof -
  have "5 + CONN_TIMEOUT < 2 ^ 63 * 10 ^ 9" by (simp add: CONN_TIMEOUT_def)
  then show ?thesis
    by (rule generic_client_invariant [OF list_pq_ok gc_reach.new [where clock = "\<lambda>w. (0, w)" and order = "\<lambda>_. []"],
          THEN conjunct2, THEN conjunct1, rule_format])
qed

text \<open>C8: The timeout handler always terminates without panic from such a state. It removes
  exactly the servers whose deadline is not later than now, from the map and from the queue,
  also when one of the requests it sends fails.\<close>

theorem on_timeout_expires_exactly:
  assumes "server_pq_ok Q ent" and "dom (gc_servers self) = dom (ent (gc_deadlines self))"
    and "clock w = (now, w0)"
  shows "\<exists>res self' w'. GenericClient_on_timeout CB Q P clock order self sock w = Some (Inr (res, self', w'))
    \<and> (\<forall>a. gc_servers self' a \<noteq> None \<longleftrightarrow> (\<exists>t. ent (gc_deadlines self) a = Some t \<and> now < t))
    \<and> (\<forall>a. ent (gc_deadlines self') a =
          (case ent (gc_deadlines self) a of Some t \<Rightarrow> if now < t then Some t else None | None \<Rightarrow> None))"
proof -
  obtain res self' w' where t: "GenericClient_on_timeout CB Q P clock order self sock w = Some (Inr (res, self', w'))"
    "ent (gc_deadlines self') = ent (gc_deadlines self) |` alive now (ent (gc_deadlines self))"
    "dom (gc_servers self') = alive now (ent (gc_deadlines self))"
    using on_timeout_eq [where clock = clock, OF assms, of CB P order sock] by blast
  have "gc_servers self' a \<noteq> None \<longleftrightarrow> a \<in> alive now (ent (gc_deadlines self))" for a
    using t(3) by (metis domIff)
  with t(1,2) show ?thesis
    by (intro exI [of _ res] exI [of _ self'] exI [of _ w'])
      (auto simp: alive_def restrict_map_def split: option.split)
qed

theorem on_timeout_expires_exactly_witness:
  "\<exists>res self' w'. GenericClient_on_timeout accept_all list_pq (bytes_ser slice_write_all write_client)
      (\<lambda>w. (50, w)) (\<lambda>_. [SocketAddrV4 2 2])
      \<lparr>gc_deadlines = [(SocketAddrV4 1 2, 40), (SocketAddrV4 2 2, 60)],
       gc_servers = [SocketAddrV4 1 2 \<mapsto> Active (), SocketAddrV4 2 2 \<mapsto> Inactive ()],
       gc_retry_deadline = None, gc_callbacks = ()\<rparr>
      (ClientSocket_new scripted_sock) \<lparr>sw_script = [], sw_log = []\<rparr> = Some (Inr (res, self', w'))
    \<and> gc_servers self' (SocketAddrV4 1 2) = None \<and> gc_servers self' (SocketAddrV4 2 2) \<noteq> None"
proof -
  define self :: "(_, unit, unit, unit, unit, unit) GenericClient" where "self = \<lparr>gc_deadlines = [(SocketAddrV4 1 2, 40 :: Instant), (SocketAddrV4 2 2, 60)],
       gc_servers = [SocketAddrV4 1 2 \<mapsto> Active (), SocketAddrV4 2 2 \<mapsto> Inactive ()],
       gc_retry_deadline = None, gc_callbacks = ()\<rparr>"
  let ?run = "GenericClient_on_timeout accept_all list_pq (bytes_ser slice_write_all write_client)
      (\<lambda>w. (50, w)) (\<lambda>_. [SocketAddrV4 2 2]) self (ClientSocket_new scripted_sock) \<lparr>sw_script = [], sw_log = []\<rparr>"
  have "dom (gc_servers self) = dom (map_of (gc_deadlines self))" by (auto simp: self_def)
  then have "\<exists>res self' w'. ?run = Some (Inr (res, self', w'))
    \<and> (\<forall>a. gc_servers self' a \<noteq> None \<longleftrightarrow> (\<exists>t. map_of (gc_deadlines self) a = Some t \<and> 50 < t))
    \<and> (\<forall>a. map_of (gc_deadlines self') a = (case map_of (gc_deadlines self) a of
          Some t \<Rightarrow> if 50 < t then Some t else None | None \<Rightarrow> None))"
    by (rule on_timeout_expires_exactly [OF list_pq_ok]) simp
  then obtain res self' w' where run: "?run = Some (Inr (res, self', w'))"
    and live: "\<forall>a. gc_servers self' a \<noteq> None \<longleftrightarrow> (\<exists>t. map_of (gc_deadlines self) a = Some t \<and> 50 < t)"
    by (elim exE conjE)
  have "gc_servers self' (SocketAddrV4 1 2) = None" "gc_servers self' (SocketAddrV4 2 2) \<noteq> None"
    using live [rule_format, of "SocketAddrV4 1 2"] live [rule_format, of "SocketAddrV4 2 2"]
    by (simp_all add: self_def)
  with run show ?thesis unfolding self_def by (intro exI conjI)
qed

text \<open>C30: When the timeout handler succeeds, the receive timeout of the socket is off exactly when no
  server is left. Otherwise it is the time to the earliest remaining deadline or the polling
  period of 10 ms, whichever is shorter; so it is positive (the zero duration, which a
  socket refuses, never occurs) and not past any remaining deadline. The hypothesis on the
  socket is that a timeout that has been set successfully is the one in force.\<close>

theorem on_timeout_sets_valid_timeout:
  assumes "server_pq_ok Q ent" and "dom (gc_servers self) = dom (ent (gc_deadlines self))"
    and "clock w = (now, w0)"
    and "\<And>t v v'. client_set_recv_timeout sock t v = (Inr (), v') \<Longrightarrow> recv_timeout v' = t"
    and "GenericClient_on_timeout CB Q P clock order self sock w = Some (Inr (Inr (), self', w'))"
  shows "case recv_timeout w' of
      None \<Rightarrow> gc_servers self' = Map.empty
    | Some d \<Rightarrow> gc_servers self' \<noteq> Map.empty \<and> 0 < d \<and> d \<le> 10 * 10 ^ 6
        \<and> (\<forall>a u. ent (gc_deadlines self') a = Some u \<longrightarrow> now + d \<le> u)
        \<and> (d = 10 * 10 ^ 6 \<or> (\<exists>a. ent (gc_deadlines self') a = Some (now + d)))"
proof -
  let ?t = "map_option (\<lambda>(_, next). min (min (next - now) REQUEST_POLL_PERIOD) CONN_TIMEOUT)
      (pq_peek Q (gc_deadlines self'))"
  obtain w1 where "client_set_recv_timeout sock ?t w1 = (Inr (), w')"
    and ent: "ent (gc_deadlines self') = ent (gc_deadlines self) |` alive now (ent (gc_deadlines self))"
    using on_timeout_eq [where clock = clock, OF assms(1-3), of CB P order sock] assms(5) by auto
  from assms(4) [OF this(1)] have set: "recv_timeout w' = ?t" .
  have late: "now < u" if "ent (gc_deadlines self') a = Some u" for a u
    using that unfolding ent by (auto simp: alive_def restrict_map_def split: if_splits)
  have empty: "gc_servers self' = Map.empty \<longleftrightarrow> ent (gc_deadlines self') = Map.empty"
    using on_timeout_keeps_dom [OF assms(1,2,5)] by (metis dom_eq_empty_conv)
  show ?thesis
  proof (cases rule: pq_peek_cases [OF assms(1), of "gc_deadlines self'", case_names none some])
    case none
    with empty show ?thesis by (simp add: set)
  next
    case (some a u)
    then have u: "ent (gc_deadlines self') a = Some u"
      and least: "\<forall>b v. ent (gc_deadlines self') b = Some v \<longrightarrow> u \<le> v" by (simp_all add: earliest_def)
    let ?d = "min (min (u - now) REQUEST_POLL_PERIOD) CONN_TIMEOUT"
    have d: "?d = min (u - now) (10 * 10 ^ 6)" by (simp add: REQUEST_POLL_PERIOD_def CONN_TIMEOUT_def)
    have "now + ?d \<le> v" if "ent (gc_deadlines self') b = Some v" for b v
      using least that late [OF u] by fastforce
    moreover have "?d = 10 * 10 ^ 6 \<or> ent (gc_deadlines self') a = Some (now + ?d)"
      using late [OF u] u unfolding d by (auto simp: min_def)
    moreover have "ent (gc_deadlines self') \<noteq> Map.empty" using u by auto
    ultimately show ?thesis
      using some(1) empty late [OF u] d by (auto simp: set)
  qed
qed

text \<open>A socket whose state is its receive timeout.\<close>

definition timeout_sock :: "Duration option SyncUdpSock" where
  "timeout_sock = \<lparr>sock_send = (\<lambda>bs a w. (Inr (), w)), sock_recv = (\<lambda>buf w. (Inl TimedOut, buf, w)),
     sock_set_recv_timeout = (\<lambda>t w. (Inr (), t))\<rparr>"

theorem on_timeout_sets_valid_timeout_witness:
  "\<exists>self'. GenericClient_on_timeout accept_all list_pq (bytes_ser slice_write_all write_client) (\<lambda>w. (50, w))
      (\<lambda>_. [SocketAddrV4 1 2])
      \<lparr>gc_deadlines = [(SocketAddrV4 1 2, 60)], gc_servers = [SocketAddrV4 1 2 \<mapsto> PendingStart ()],
       gc_retry_deadline = None, gc_callbacks = ()\<rparr> (ClientSocket_new timeout_sock) None
    = Some (Inr (Inr (), self', Some 10)) \<and> gc_servers self' \<noteq> Map.empty"
proof -
  define self :: "((SocketAddr \<times> Instant) list, unit, unit, unit, unit, unit) GenericClient" where
    "self = \<lparr>gc_deadlines = [(SocketAddrV4 1 2, 60)], gc_servers = [SocketAddrV4 1 2 \<mapsto> PendingStart ()],
       gc_retry_deadline = None, gc_callbacks = ()\<rparr>"
  let ?run = "GenericClient_on_timeout accept_all list_pq (bytes_ser slice_write_all write_client)
      (\<lambda>w. (50, w)) (\<lambda>_. [SocketAddrV4 1 2]) self (ClientSocket_new timeout_sock) None"
  have dom: "dom (gc_servers self) = dom (map_of (gc_deadlines self))" by (auto simp: self_def)
  have sock: "\<And>t v v'. client_set_recv_timeout (ClientSocket_new timeout_sock) t v = (Inr (), v') \<Longrightarrow> v' = t"
    by (simp add: client_set_recv_timeout_def ClientSocket_new_def timeout_sock_def)
  have "expire_overdue list_pq 50 [(SocketAddrV4 1 2, 60)] m = Some (Inr ([(SocketAddrV4 1 2, 60)], m))"
    for m :: "(unit, unit, unit, unit) server_map"
    by (subst expire_overdue.simps) (simp add: list_pq_def)
  then obtain w' where run: "?run = Some (Inr (Inr (), self, w'))"
    by (simp add: GenericClient_on_timeout_def self_def poll_server_def client_set_recv_timeout_def
        ClientSocket_new_def timeout_sock_def)
  have t: "case w' of None \<Rightarrow> gc_servers self = Map.empty
    | Some d \<Rightarrow> gc_servers self \<noteq> Map.empty \<and> 0 < d \<and> d \<le> 10 * 10 ^ 6
        \<and> (\<forall>a u. map_of (gc_deadlines self) a = Some u \<longrightarrow> 50 + d \<le> u)
        \<and> (d = 10 * 10 ^ 6 \<or> (\<exists>a. map_of (gc_deadlines self) a = Some (50 + d)))"
    by (rule on_timeout_sets_valid_timeout [OF list_pq_ok dom refl _ run]) (rule sock)
  have "gc_servers self \<noteq> Map.empty" "map_of (gc_deadlines self) = [SocketAddrV4 1 2 \<mapsto> 60]"
    by (simp_all add: self_def fun_eq_iff)
  with t have "w' = Some 10" by (auto split: option.splits if_splits)
  with run \<open>gc_servers self \<noteq> Map.empty\<close> show ?thesis unfolding self_def by blast
qed

text \<open>C31: A decoded message from \<open>addr\<close>, handled without error: every other server keeps its state
  and its deadline; if the sender is connected afterwards its deadline is the time of
  reception plus the connection timeout, and if it is not it has none.\<close>

theorem on_decoded_message_refreshes:
  assumes "server_pq_ok Q ent" and "dom (gc_servers self) = dom (ent (gc_deadlines self))"
    and "ts + CONN_TIMEOUT < 2 ^ 63 * 10 ^ 9"
    and "on_decoded_message CB Q P self sock addr ts msg w = Inr (Inr (), self', w')"
  shows "ent (gc_deadlines self') =
      (if gc_servers self' addr = None then (ent (gc_deadlines self))(addr := None)
       else (ent (gc_deadlines self))(addr \<mapsto> ts + 600 * 10 ^ 6))
    \<and> (gc_servers self')(addr := None) = (gc_servers self)(addr := None)"
  using on_decoded_message_ok [OF assms(1-3), of CB P sock addr msg w] assms(4)
  by (auto simp: fun_eq_iff CONN_TIMEOUT_def)

theorem on_decoded_message_refreshes_witness:
  "\<exists>self'. on_decoded_message accept_all list_pq (bytes_ser slice_write_all write_client)
      (GenericClient_new list_pq ()) (ClientSocket_new scripted_sock) (SocketAddrV4 1 2) 7 (Server_Connect StreamFormats_default, [])
      \<lparr>sw_script = [], sw_log = []\<rparr>
      = Inr (Inr (), self', \<lparr>sw_script = [], sw_log = [(replicate 1999 0, SocketAddrV4 1 2)]\<rparr>)
    \<and> map_of (gc_deadlines self') = [SocketAddrV4 1 2 \<mapsto> 7 + 600 * 10 ^ 6]"
proof -
  let ?c = "GenericClient_new list_pq ()"
  let ?self = "\<lparr>gc_deadlines = [(SocketAddrV4 1 2, 600000007 :: Instant)], gc_servers = [SocketAddrV4 1 2 \<mapsto> Inactive ()],
     gc_retry_deadline = None, gc_callbacks = ()\<rparr>"
  have enc: "pc_to_io (bytes_ser slice_write_all write_client) CF_ConnectionSuccess (slice_writer (replicate 2000 0))
      = (Inr (), \<lparr>sw_done = [1], sw_rest = replicate 1999 0\<rparr>)"
    using slice_encode [OF bytes_ser_writes [of slice_write_all write_client], of CF_ConnectionSuccess "replicate 2000 0"]
    by (simp add: write_client_def varint.simps)
  have run: "on_decoded_message accept_all list_pq (bytes_ser slice_write_all write_client) ?c
      (ClientSocket_new scripted_sock) (SocketAddrV4 1 2) 7 (Server_Connect StreamFormats_default, []) \<lparr>sw_script = [], sw_log = []\<rparr>
      = Inr (Inr (), ?self, \<lparr>sw_script = [], sw_log = [(replicate 1999 0, SocketAddrV4 1 2)]\<rparr>)"
    by (simp add: on_decoded_message_def dispatch_message_def on_server_connect_request_def GenericClient_new_def
        list_pq_def accept_all_def client_send_msg_def client_message_encode_def flat_of_client_def enc
        ENCODE_BUF_LEN_def client_send_raw_packet_def ClientSocket_new_def scripted_sock_def
        instant_checked_add_def CONN_TIMEOUT_def)
  have "dom (gc_servers ?c) = dom (map_of (gc_deadlines ?c))" by (simp add: GenericClient_new_def list_pq_def)
  moreover have "7 + CONN_TIMEOUT < 2 ^ 63 * 10 ^ 9" by (simp add: CONN_TIMEOUT_def)
  ultimately have "map_of (gc_deadlines ?self) = [SocketAddrV4 1 2 \<mapsto> 7 + 600 * 10 ^ 6]"
    using on_decoded_message_refreshes [OF list_pq_ok _ _ run] by (simp add: GenericClient_new_def list_pq_def)
  with run show ?thesis by blast
qed

text \<open>C13: The handler of a connected server refines the four-phase machine: in every typestate and
  for every message the phase moves as \<open>phase_step\<close> says (only a reply to the pending request
  moves it), the request that failed temporarily is the one that is sent again, and in every
  other case nothing is sent and the handler succeeds.\<close>

theorem on_msg_refines_phases:
  "case ServerIOState_on_msg CB P st addr cx sock msg rest ts w of (res, st', cx', w') \<Rightarrow>
     phase_of st' = phase_step msg (phase_of st)
     \<and> (case phase_retry msg (phase_of st) of
          None \<Rightarrow> res = Inr () \<and> w' = w
        | Some request \<Rightarrow>
            \<exists>buf. client_send_msg P sock request addr (replicate 2000 0) w = (res, buf, w'))"
proof (cases msg)
  case (ServerConnected_Audio h)
  then show ?thesis
    by (cases st) (simp_all add: ServerIOState_on_msg_def phase_of_def split: prod.split)
next
  case (ServerConnected_Control ctrl)
  show ?thesis
  proof (cases ctrl)
    case ServerControl_Heartbeat
    with ServerConnected_Control show ?thesis by (simp add: ServerIOState_on_msg_def)
  next
    case (IOStateChangeResult r)
    consider (ok) u where "r = Start (Inr u)" | (fail) u where "r = Start (Inl (Failure u))"
      | (refuse) u where "r = Start (Inl (Refusal u))" | (sok) u where "r = Stop (Inr u)"
      | (sfail) u where "r = Stop (Inl (Failure u))" | (srefuse) u where "r = Stop (Inl (Refusal u))"
      by (metis IOState.exhaust Error.exhaust sumE)
    then show ?thesis
      using IOStateChangeResult ServerConnected_Control
      by cases (cases st; simp add: ServerIOState_on_msg_def phase_of_def client_consts split: prod.split)+
  qed
qed

text \<open>C36: What the timeout handler does for the application. The servers that are not expired are
  polled in the order of the map. Those for which the application asks for a change, and no
  others, change their phase, an inactive connection to a pending start and an active one to
  a pending stop, and each of them is sent a message, in order, up to the first send that
  fails; that failure is returned, otherwise only the receive timeout is set after it. The
  message is the start request in both cases: a server is never asked to stop.\<close>

theorem on_timeout_polls_requests:
  assumes "server_pq_ok Q ent" and "dom (gc_servers self) = dom (ent (gc_deadlines self))"
    and "clock w = (now, w0)" and "live = gc_servers self |` {a. \<exists>t. ent (gc_deadlines self) a = Some t \<and> now < t}"
    and "distinct (order live)" and "reqs = poll_requests CB (order live) live (gc_callbacks self)"
  shows "\<exists>res self' w' k w1 res1. GenericClient_on_timeout CB Q P clock order self sock w = Some (Inr (res, self', w'))
    \<and> sent_up_to P sock Client_START_IO reqs (replicate 200 0) w0 res1 w1 k
    \<and> (\<forall>a. map_option phase_of (gc_servers self' a) =
         map_option ((if a \<in> set (take k reqs) then phase_request else id) \<circ> phase_of) (live a))
    \<and> (if isl res1 then res = res1 \<and> w' = w1 else \<exists>t. client_set_recv_timeout sock t w1 = (res, w'))"
proof -
  have live: "live = gc_servers self |` alive now (ent (gc_deadlines self))" by (simp add: assms(4) alive_def)
  obtain q where q: "expire_overdue Q now (gc_deadlines self) (gc_servers self) = Some (Inr (q, live))"
    using expire_overdue_spec [OF assms(1,2)] unfolding live by blast
  obtain res1 servers' cx' w1 where poll: "poll_servers CB P sock (order live) live (gc_callbacks self) (replicate 200 0) w0
      = (res1, servers', cx', w1)" by (metis prod_cases4)
  let ?t = "map_option (\<lambda>(_, next). min (min (next - now) REQUEST_POLL_PERIOD) CONN_TIMEOUT) (pq_peek Q q)"
  let ?self = "self\<lparr>gc_deadlines := q, gc_servers := servers', gc_callbacks := cx'\<rparr>"
  obtain res2 w2 where set: "client_set_recv_timeout sock ?t w1 = (res2, w2)" by fastforce
  have "GenericClient_on_timeout CB Q P clock order self sock w =
      Some (Inr (if isl res1 then res1 else res2, ?self, if isl res1 then w1 else w2))"
    using q poll set assms(3) by (cases res1) (simp_all add: GenericClient_on_timeout_def Let_def)
  moreover obtain k where "sent_up_to P sock Client_START_IO reqs (replicate 200 0) w0 res1 w1 k"
    "\<forall>a. map_option phase_of (servers' a) =
       map_option ((if a \<in> set (take k reqs) then phase_request else id) \<circ> phase_of) (live a)"
    using poll_servers_requests [OF assms(5) poll] unfolding assms(6) by blast
  ultimately show ?thesis using set
    by (intro exI [of _ "if isl res1 then res1 else res2"] exI [of _ ?self] exI [of _ "if isl res1 then w1 else w2"]
        exI [of _ k] exI [of _ w1] exI [of _ res1]) auto
qed

text \<open>Three servers, of which one waits for a reply; the other two are sent 199 zero bytes.\<close>

theorem on_timeout_polls_requests_witness:
  "\<exists>self' w'. GenericClient_on_timeout accept_all list_pq (bytes_ser slice_write_all write_client) (\<lambda>w. (50, w))
      (\<lambda>_. [SocketAddrV4 1 2, SocketAddrV4 2 2, SocketAddrV4 3 2])
      \<lparr>gc_deadlines = [(SocketAddrV4 1 2, 60), (SocketAddrV4 2 2, 60), (SocketAddrV4 3 2, 60)],
       gc_servers = [SocketAddrV4 1 2 \<mapsto> Inactive (), SocketAddrV4 2 2 \<mapsto> PendingStart (), SocketAddrV4 3 2 \<mapsto> Active ()],
       gc_retry_deadline = None, gc_callbacks = ()\<rparr>
      (ClientSocket_new scripted_sock) \<lparr>sw_script = [], sw_log = []\<rparr> = Some (Inr (Inr (), self', w'))
    \<and> sw_log w' = [(replicate 199 0, SocketAddrV4 1 2), (replicate 199 0, SocketAddrV4 3 2)]
    \<and> map_option phase_of (gc_servers self' (SocketAddrV4 1 2)) = Some PendingStartPhase
    \<and> map_option phase_of (gc_servers self' (SocketAddrV4 2 2)) = Some PendingStartPhase
    \<and> map_option phase_of (gc_servers self' (SocketAddrV4 3 2)) = Some PendingStopPhase"
proof -
  let ?A = "SocketAddrV4 1 2" and ?B = "SocketAddrV4 2 2" and ?C = "SocketAddrV4 3 2"
  define self :: "((SocketAddr \<times> Instant) list, unit, unit, unit, unit, unit) GenericClient" where
    "self = \<lparr>gc_deadlines = [(?A, 60), (?B, 60), (?C, 60)],
       gc_servers = [?A \<mapsto> Inactive (), ?B \<mapsto> PendingStart (), ?C \<mapsto> Active ()],
       gc_retry_deadline = None, gc_callbacks = ()\<rparr>"
  let ?P = "bytes_ser slice_write_all write_client" and ?sock = "ClientSocket_new scripted_sock"
  let ?w = "\<lparr>sw_script = [], sw_log = []\<rparr> :: (SocketAddr \<times> Instant) scripted_world"
  let ?live = "gc_servers self |` {a. \<exists>t. map_of (gc_deadlines self) a = Some t \<and> 50 < t}"
  let ?reqs = "poll_requests accept_all [?A, ?B, ?C] ?live ()"
  have dom: "dom (gc_servers self) = dom (map_of (gc_deadlines self))" by (auto simp: self_def)
  have live: "?live ?A = Some (Inactive ())" "?live ?B = Some (PendingStart ())" "?live ?C = Some (Active ())"
    by (simp_all add: self_def)
  have reqs: "?reqs = [?A, ?C]"
    by (simp add: live application_request_def accept_all_def)
  have send: "client_send_msg ?P ?sock Client_START_IO a (b # replicate 199 0) w =
      (Inr (), 4 # replicate 199 0, w\<lparr>sw_log := sw_log w @ [(replicate 199 0, a)]\<rparr>)" for a b and w :: "(SocketAddr \<times> Instant) scripted_world"
  proof -
    have "pc_to_io ?P CF_StartIO (slice_writer (b # replicate 199 0)) = (Inr (), \<lparr>sw_done = [4], sw_rest = replicate 199 0\<rparr>)"
      using slice_encode [OF bytes_ser_writes [of slice_write_all write_client], of CF_StartIO "b # replicate 199 0"]
      by (simp add: write_client_def varint.simps)
    then show ?thesis
      by (simp add: client_send_msg_def client_message_encode_def flat_of_client_def Client_START_IO_def
          client_send_raw_packet_def ClientSocket_new_def scripted_sock_def)
  qed
  have buf: "replicate 200 (0 :: u8) = 0 # replicate 199 0" by (simp add: numeral_eq_Suc)
  obtain res self' w' k w1 res1 where run: "GenericClient_on_timeout accept_all list_pq ?P (\<lambda>w. (50, w)) (\<lambda>_. [?A, ?B, ?C])
        self ?sock ?w = Some (Inr (res, self', w'))"
    and sent: "sent_up_to ?P ?sock Client_START_IO ?reqs (replicate 200 0) ?w res1 w1 k"
    and ph: "\<forall>a. map_option phase_of (gc_servers self' a) =
         map_option ((if a \<in> set (take k ?reqs) then phase_request else id) \<circ> phase_of) (?live a)"
    and last: "if isl res1 then res = res1 \<and> w' = w1 else \<exists>t. client_set_recv_timeout ?sock t w1 = (res, w')"
    using on_timeout_polls_requests [where CB = accept_all and P = ?P and sock = ?sock and order = "\<lambda>_. [?A, ?B, ?C]"
        and w = ?w and clock = "\<lambda>w. (50, w)", OF list_pq_ok dom _ refl _ refl] by (auto simp: self_def)
  have "k = 2 \<and> res1 = Inr () \<and> sw_log w1 = [(replicate 199 0, ?A), (replicate 199 0, ?C)]"
    using sent unfolding reqs buf sent_up_to_def
    by (cases k; cases "k - 1") (auto simp: send split: if_splits)
  moreover from this last have "res = Inr () \<and> w' = w1"
    by (auto simp: client_set_recv_timeout_def ClientSocket_new_def scripted_sock_def)
  moreover have "map_option phase_of (gc_servers self' ?A) = Some PendingStartPhase"
    "map_option phase_of (gc_servers self' ?B) = Some PendingStartPhase"
    "map_option phase_of (gc_servers self' ?C) = Some PendingStopPhase"
    unfolding ph [rule_format] live reqs using \<open>k = 2 \<and> _\<close> by (simp_all add: phase_of_def)
  ultimately show ?thesis using run unfolding self_def by blast
qed

text \<open>C35: When a connection is accepted but the acceptance cannot be sent, the error is returned
  and the server stays in the map without a deadline; a later disconnect from that server
  then panics.\<close>

theorem failed_acceptance_breaks_invariant:
  assumes "server_pq_ok Q ent" and "dom (gc_servers self) = dom (ent (gc_deadlines self))"
    and "gc_servers self addr = None" and "cb_connect CB addr formats (gc_callbacks self) = (Inr i, cx)"
    and "client_send_msg P sock (Client_ConnectionResult (Inr ())) addr (replicate 2000 0) w = (Inl e, buf, w')"
  shows "\<exists>self'. on_decoded_message CB Q P self sock addr ts (Server_Connect formats, rest) w = Inr (Inl e, self', w')
    \<and> gc_servers self' addr \<noteq> None \<and> ent (gc_deadlines self') addr = None
    \<and> on_decoded_message CB Q P self' sock addr ts' (Server_Disconnect, rest') w'' = Inl UnwrapNone"
proof -
  let ?self = "self\<lparr>gc_callbacks := cx, gc_servers := (gc_servers self)(addr \<mapsto> Inactive i)\<rparr>"
  have none: "ent (gc_deadlines self) addr = None"
    using dom_eq_None [OF assms(2)] assms(3) by blast
  obtain q' where "pq_remove Q addr (gc_deadlines self) = (None, q')"
    using pq_laws(4) [OF assms(1), of addr "gc_deadlines self"] none by auto
  then have "on_decoded_message CB Q P ?self sock addr ts' (Server_Disconnect, rest') w'' = Inl UnwrapNone"
    by (simp add: on_decoded_message_def dispatch_message_def Let_def)
  moreover have "on_decoded_message CB Q P self sock addr ts (Server_Connect formats, rest) w = Inr (Inl e, ?self, w')"
    using assms(3-5) by (simp add: on_decoded_message_def dispatch_message_def Let_def
        on_server_connect_request_def ENCODE_BUF_LEN_def)
  ultimately show ?thesis using none by (intro exI [of _ ?self]) simp
qed

theorem failed_acceptance_breaks_invariant_witness:
  "\<exists>self'. on_decoded_message accept_all list_pq (bytes_ser slice_write_all (\<lambda>_. replicate 3000 0))
      (GenericClient_new list_pq ()) (ClientSocket_new scripted_sock) (SocketAddrV4 1 2) 7
      (Server_Connect StreamFormats_default, []) \<lparr>sw_script = [], sw_log = []\<rparr>
      = Inr (Inl Other, self', \<lparr>sw_script = [], sw_log = []\<rparr>)
    \<and> gc_servers self' (SocketAddrV4 1 2) \<noteq> None \<and> map_of (gc_deadlines self') (SocketAddrV4 1 2) = None
    \<and> on_decoded_message accept_all list_pq (bytes_ser slice_write_all (\<lambda>_. replicate 3000 0)) self'
        (ClientSocket_new scripted_sock) (SocketAddrV4 1 2) 8 (Server_Disconnect, []) \<lparr>sw_script = [], sw_log = []\<rparr>
      = Inl UnwrapNone"
proof -
  let ?c = "GenericClient_new list_pq () :: ((SocketAddr \<times> Instant) list, unit, unit, unit, unit, unit) GenericClient"
  have "dom (gc_servers ?c) = dom (map_of (gc_deadlines ?c))" "gc_servers ?c (SocketAddrV4 1 2) = None"
    by (simp_all add: GenericClient_new_def list_pq_def)
  moreover have "cb_connect accept_all (SocketAddrV4 1 2) StreamFormats_default (gc_callbacks ?c) = (Inr (), ())"
    by (simp add: accept_all_def)
  moreover have "client_send_msg (bytes_ser slice_write_all (\<lambda>_. replicate 3000 0)) (ClientSocket_new scripted_sock)
      (Client_ConnectionResult (Inr ())) (SocketAddrV4 1 2) (replicate 2000 0) \<lparr>sw_script = [], sw_log = []\<rparr>
      = (Inl Other, replicate 2000 0, \<lparr>sw_script = [], sw_log = []\<rparr>)"
    by (simp add: client_send_msg_def client_message_encode_def bytes_ser_def slice_write_all_def
        slice_writer_def postcard_to_io_err_def)
  ultimately show ?thesis by (rule failed_acceptance_breaks_invariant [OF list_pq_ok])
qed

end
