(* ===== verification/Jack.thy ===== *)
theory Jack
  imports Indexed_Queue Proto
begin

text \<open>
  The JACK bridge, \<open>syfala_jack/src/interleaver.rs\<close> and \<open>lib.rs\<close>. The memory of the port
  buffers is a map from ports to their samples (\<open>f32\<close> by bit pattern); a pointer into it is
  a port and an offset. Every unsafe access is guarded by the bounds it must stay in: outside
  them the model yields \<open>UB\<close>, so that a result \<open>Inr\<close> says that the access was in bounds.
  The crate \<open>jack\<close> supplies the ports, their buffers and the cycle's frame counter, which are
  parameters (the record \<open>ProcessScope\<close>).
\<close>

section \<open>The interleaver\<close>

datatype 'port sample_ptr = Dangling | Buf 'port nat

record 'port Interleaver =
  il_ptrs :: "('port \<times> 'port sample_ptr) list"

definition Interleaver_new :: "'port list \<Rightarrow> 'port Interleaver option" where
  "Interleaver_new ports =
     (let boxed_slice = map (\<lambda>p. (p, Dangling)) ports in
      if 2 ^ 32 \<le> length boxed_slice then None
      else case nonzero_new (of_nat (length boxed_slice) :: u32) of
             None \<Rightarrow> None
           | Some n \<Rightarrow> Some \<lparr>il_ptrs = boxed_slice\<rparr>)"

definition n_ports :: "'port Interleaver \<Rightarrow> u32 rust" where
  "n_ports self =
     (if 2 ^ 32 \<le> length (il_ptrs self) then Inl UnwrapErr
      else unwrap (nonzero_new (of_nat (length (il_ptrs self)))))"

record ProcessScope =
  n_frames :: u32
  last_frame_time :: u32

record 'port Interleaved =
  ild_remaining_frames :: usize
  ild_current_index :: usize
  ild_ptrs :: "('port \<times> 'port sample_ptr) list"

text \<open>The pointer of a port is to the first sample of its buffer in this cycle.\<close>

definition to_jack_buf_ptr :: "'port \<Rightarrow> 'port sample_ptr" where
  "to_jack_buf_ptr port = Buf port 0"

definition interleave :: "'port Interleaver \<Rightarrow> ProcessScope \<Rightarrow> 'port Interleaved" where
  "interleave self scope =
     \<lparr>ild_remaining_frames = ucast (n_frames scope), ild_current_index = 0,
      ild_ptrs = map (\<lambda>(port, _). (port, to_jack_buf_ptr port)) (il_ptrs self)\<rparr>"

text \<open>A yielded reference is the place it refers to. \<open>len\<close> is the length of a port's buffer.\<close>

definition Interleaved_next :: "('port \<Rightarrow> nat) \<Rightarrow> ('port Interleaved, 'port \<times> nat) next_fn" where
  "Interleaved_next len self =
     (if ild_remaining_frames self = 0 then Inr (None, self)
      else if length (ild_ptrs self) \<le> unat (ild_current_index self) then Inl UB
      else case ild_ptrs self ! unat (ild_current_index self) of
          (port, Dangling) \<Rightarrow> Inl UB
        | (port, Buf b off) \<Rightarrow>
            if len b \<le> off then Inl UB
            else
              let ptrs = (ild_ptrs self)[unat (ild_current_index self) := (port, Buf b (Suc off))] in
              rbind (strict_add (ild_current_index self) 1) (\<lambda>i.
              rbind (if unat i = length ptrs
                     then rbind (strict_sub (ild_remaining_frames self) 1) (\<lambda>r. Inr (0, r))
                     else Inr (i, ild_remaining_frames self)) (\<lambda>(i', r).
                Inr (Some (b, off),
                  \<lparr>ild_remaining_frames = r, ild_current_index = i', ild_ptrs = ptrs\<rparr>))))"

definition Interleaved_len :: "'port Interleaved \<Rightarrow> usize" where
  "Interleaved_len self = ild_remaining_frames self * of_nat (length (ild_ptrs self))"

section \<open>The process handler\<close>

definition JACK_SAMPLE_TYPE :: SampleType where
  "JACK_SAMPLE_TYPE = IEEF32"

type_synonym JackSample = u32
type_synonym 'port jack_mem = "'port \<Rightarrow> JackSample list"

record ('port, 'k, 'q) JackTx =
  jtx_interleaver :: "'port Interleaver"
  jtx_tx :: "('k, 'q) IndexedTx"

definition JackTx_new :: "'port list \<Rightarrow> ('k, 'q) IndexedTx \<Rightarrow> ('port, 'k, 'q) JackTx option" where
  "JackTx_new ports tx = map_option (\<lambda>il. \<lparr>jtx_interleaver = il, jtx_tx = tx\<rparr>) (Interleaver_new ports)"

record ('port, 'k, 'q) JackRx =
  jrx_rx :: "('k, 'q) IndexedRx"
  jrx_interleaver :: "'port Interleaver"

definition JackRx_new :: "'port list \<Rightarrow> ('k, 'q) IndexedRx \<Rightarrow> ('port, 'k, 'q) JackRx option" where
  "JackRx_new ports rx = map_option (\<lambda>il. \<lparr>jrx_rx = rx, jrx_interleaver = il\<rparr>) (Interleaver_new ports)"

record ('port, 'kt, 'qt, 'kr, 'qr) DuplexProcessHandler =
  dph_txs :: "('port, 'kt, 'qt) JackTx list"
  dph_rxs :: "('port, 'kr, 'qr) JackRx list"
  dph_start_frame_idx :: "u64 option"

definition DuplexProcessHandler_new ::
  "('port, 'kt, 'qt) JackTx list \<Rightarrow> ('port, 'kr, 'qr) JackRx list \<Rightarrow>
   ('port, 'kt, 'qt, 'kr, 'qr) DuplexProcessHandler" where
  "DuplexProcessHandler_new ins outs =
     \<lparr>dph_txs = ins, dph_rxs = outs, dph_start_frame_idx = None\<rparr>"

text \<open>\<open>interleave(scope).copied()\<close>: the references are read.\<close>

definition copied_next :: "'port jack_mem \<Rightarrow> ('port Interleaved, JackSample) next_fn" where
  "copied_next mem self =
     rbind (Interleaved_next (\<lambda>p. length (mem p)) self) (\<lambda>(r, self').
       Inr (map_option (\<lambda>(b, off). mem b ! off) r, self'))"

definition process_tx ::
  "('kt \<Rightarrow> usize \<Rightarrow> 'kt rust) \<Rightarrow> ('kt \<Rightarrow> u64) \<Rightarrow>
   ('qt, 'ct, 'port Interleaved ShiftIter, JackSample) rtrb_producer \<Rightarrow> ProcessScope \<Rightarrow> 'port jack_mem \<Rightarrow> u64 \<Rightarrow>
   ('port, 'kt, 'qt) JackTx \<Rightarrow> ('port, 'kt, 'qt) JackTx rust" where
  "process_tx advance current P scope mem frame_idx jtx =
     rbind (n_ports (jtx_interleaver jtx)) (\<lambda>n.
     rbind (strict_mul frame_idx (ucast n)) (\<lambda>spl_idx.
     rbind (IndexedTx_send advance current P (jtx_tx jtx) spl_idx (copied_next mem)
              (interleave (jtx_interleaver jtx) scope) (\<lambda>_. 0)) (\<lambda>(tx, it).
       Inr \<lparr>jtx_interleaver = \<lparr>il_ptrs = ild_ptrs it\<rparr>, jtx_tx = tx\<rparr>)))"

text \<open>\<open>Iterator::zip\<close>, and a \<open>for\<close> loop over an iterator.\<close>

definition zip_next :: "('s, 'a) next_fn \<Rightarrow> ('t, 'b) next_fn \<Rightarrow> ('s \<times> 't, 'a \<times> 'b) next_fn" where
  "zip_next nx ny st =
     rbind (nx (fst st)) (\<lambda>(r, s).
       case r of
         None \<Rightarrow> Inr (None, (s, snd st))
       | Some x \<Rightarrow>
           rbind (ny (snd st)) (\<lambda>(r', t).
             Inr (case r' of None \<Rightarrow> (None, (s, t)) | Some y \<Rightarrow> (Some (x, y), (s, t)))))"

partial_function (option) for_each ::
  "('s, 'a) next_fn \<Rightarrow> ('a \<Rightarrow> 'st \<Rightarrow> 'st) \<Rightarrow> 's \<Rightarrow> 'st \<Rightarrow> ('s \<times> 'st) rust option" where
  "for_each nx body s st =
     (case nx s of
        Inl e \<Rightarrow> Some (Inl e)
      | Inr (None, s') \<Rightarrow> Some (Inr (s', st))
      | Inr (Some x, s') \<Rightarrow> for_each nx body s' (body x st))"

definition write_sample :: "('port \<times> nat) \<times> JackSample \<Rightarrow> 'port jack_mem \<Rightarrow> 'port jack_mem" where
  "write_sample = (\<lambda>((b, off), v) mem. mem(b := (mem b)[off := v]))"

text \<open>Sequencing of results that may also not terminate.\<close>

definition obind :: "'a rust option \<Rightarrow> ('a \<Rightarrow> 'b rust option) \<Rightarrow> 'b rust option" where
  "obind m f = (case m of None \<Rightarrow> None | Some (Inl e) \<Rightarrow> Some (Inl e) | Some (Inr x) \<Rightarrow> f x)"

definition process_rx ::
  "('kr \<Rightarrow> usize \<Rightarrow> 'kr rust) \<Rightarrow> ('kr \<Rightarrow> u64) \<Rightarrow> ('qr, 'cr, 'ir, JackSample) rtrb_consumer \<Rightarrow>
   ProcessScope \<Rightarrow> u64 \<Rightarrow> ('port, 'kr, 'qr) JackRx \<Rightarrow> 'port jack_mem \<Rightarrow>
   (('port, 'kr, 'qr) JackRx \<times> 'port jack_mem) rust option" where
  "process_rx advance current C scope frame_idx jrx mem =
     obind (Some (n_ports (jrx_interleaver jrx))) (\<lambda>n.
     obind (Some (strict_mul frame_idx (ucast n))) (\<lambda>spl_idx.
     obind (Some (IndexedRx_recv current C (jrx_rx jrx) spl_idx)) (\<lambda>srcs.
     obind (for_each
        (zip_next (Interleaved_next (\<lambda>p. length (mem p)))
           (shift_next (ReadChunksIterCounter_next C) (ReadChunksIterCounter_nth C) (\<lambda>_. 0)))
        write_sample (interleave (jrx_interleaver jrx) scope, srcs) mem) (\<lambda>((it, srcs'), mem').
     obind (Some (ReadChunksIterCounter_drop advance C (si_inner srcs'))) (\<lambda>(c, q).
       Some (Inr (\<lparr>jrx_rx = (jrx_rx jrx)\<lparr>irx_rx := q, irx_counter := c\<rparr>,
                   jrx_interleaver = \<lparr>il_ptrs = ild_ptrs it\<rparr>\<rparr>, mem')))))))"

fun process_txs ::
  "('kt \<Rightarrow> usize \<Rightarrow> 'kt rust) \<Rightarrow> ('kt \<Rightarrow> u64) \<Rightarrow>
   ('qt, 'ct, 'port Interleaved ShiftIter, JackSample) rtrb_producer \<Rightarrow> ProcessScope \<Rightarrow> 'port jack_mem \<Rightarrow> u64 \<Rightarrow>
   ('port, 'kt, 'qt) JackTx list \<Rightarrow> ('port, 'kt, 'qt) JackTx list rust" where
  "process_txs advance current P scope mem frame_idx [] = Inr []"
| "process_txs advance current P scope mem frame_idx (jtx # jtxs) =
     rbind (process_tx advance current P scope mem frame_idx jtx) (\<lambda>jtx'.
     rbind (process_txs advance current P scope mem frame_idx jtxs) (\<lambda>jtxs'. Inr (jtx' # jtxs')))"

fun process_rxs ::
  "('kr \<Rightarrow> usize \<Rightarrow> 'kr rust) \<Rightarrow> ('kr \<Rightarrow> u64) \<Rightarrow> ('qr, 'cr, 'ir, JackSample) rtrb_consumer \<Rightarrow>
   ProcessScope \<Rightarrow> u64 \<Rightarrow> ('port, 'kr, 'qr) JackRx list \<Rightarrow> 'port jack_mem \<Rightarrow>
   (('port, 'kr, 'qr) JackRx list \<times> 'port jack_mem) rust option" where
  "process_rxs advance current C scope frame_idx [] mem = Some (Inr ([], mem))"
| "process_rxs advance current C scope frame_idx (jrx # jrxs) mem =
     obind (process_rx advance current C scope frame_idx jrx mem) (\<lambda>(jrx', mem').
     obind (process_rxs advance current C scope frame_idx jrxs mem') (\<lambda>(jrxs', mem'').
       Some (Inr (jrx' # jrxs', mem''))))"

datatype Control = Continue | Quit

definition jack_process ::
  "('kt \<Rightarrow> usize \<Rightarrow> 'kt rust) \<Rightarrow> ('kt \<Rightarrow> u64) \<Rightarrow>
   ('qt, 'ct, 'port Interleaved ShiftIter, JackSample) rtrb_producer \<Rightarrow>
   ('kr \<Rightarrow> usize \<Rightarrow> 'kr rust) \<Rightarrow> ('kr \<Rightarrow> u64) \<Rightarrow> ('qr, 'cr, 'ir, JackSample) rtrb_consumer \<Rightarrow>
   ('port, 'kt, 'qt, 'kr, 'qr) DuplexProcessHandler \<Rightarrow> ProcessScope \<Rightarrow> 'port jack_mem \<Rightarrow>
   (Control \<times> ('port, 'kt, 'qt, 'kr, 'qr) DuplexProcessHandler \<times> 'port jack_mem) rust option" where
  "jack_process tadv tcur P radv rcur C self scope mem =
     (let this_cycle_frame_idx = ucast (last_frame_time scope) :: u64;
          first_cycle_frame_idx = (case dph_start_frame_idx self of
            None \<Rightarrow> this_cycle_frame_idx | Some f \<Rightarrow> f)
      in obind (Some (strict_sub this_cycle_frame_idx first_cycle_frame_idx)) (\<lambda>frame_idx.
         obind (Some (process_txs tadv tcur P scope mem frame_idx (dph_txs self))) (\<lambda>txs.
         obind (process_rxs radv rcur C scope frame_idx (dph_rxs self) mem) (\<lambda>(rxs, mem').
           Some (Inr (Continue,
             \<lparr>dph_txs = txs, dph_rxs = rxs, dph_start_frame_idx = Some first_cycle_frame_idx\<rparr>, mem'))))))"

definition jack_buffer_size ::
  "('port, 'kt, 'qt, 'kr, 'qr) DuplexProcessHandler \<Rightarrow> u32 \<Rightarrow>
   Control \<times> ('port, 'kt, 'qt, 'kr, 'qr) DuplexProcessHandler" where
  "jack_buffer_size self sz = (Continue, self)"

section \<open>The order of the interleaved samples\<close>

text \<open>
  The iterator over \<open>F\<close> frames of \<open>n\<close> ports, when \<open>r\<close> frames are not finished and \<open>i\<close> ports
  of the current frame are: the pointers of those ports are one ahead.
\<close>

definition il_pos :: "nat \<Rightarrow> nat \<Rightarrow> 'port Interleaved \<Rightarrow> nat" where
  "il_pos F n s = (F - unat (ild_remaining_frames s)) * n + unat (ild_current_index s)"

definition il_ptrs_at :: "'port list \<Rightarrow> nat \<Rightarrow> nat \<Rightarrow> ('port \<times> 'port sample_ptr) list" where
  "il_ptrs_at ports f i =
     map (\<lambda>k. (ports ! k, Buf (ports ! k) (if k < i then Suc f else f))) [0..<length ports]"

definition il_at :: "('port \<Rightarrow> nat) \<Rightarrow> 'port list \<Rightarrow> nat \<Rightarrow> 'port Interleaved \<Rightarrow> bool" where
  "il_at len ports F s \<longleftrightarrow>
     (let r = unat (ild_remaining_frames s); i = unat (ild_current_index s) in
      length ports < 2 ^ 32 \<and> i < length ports \<and> r \<le> F \<and> (r = 0 \<longrightarrow> i = 0)
      \<and> (\<forall>p \<in> set ports. F \<le> len p) \<and> ild_ptrs s = il_ptrs_at ports (F - r) i)"

definition il_place :: "'port list \<Rightarrow> nat \<Rightarrow> 'port \<times> nat" where
  "il_place ports j = (ports ! (j mod length ports), j div length ports)"

definition il_rest :: "'port list \<Rightarrow> nat \<Rightarrow> 'port Interleaved \<Rightarrow> ('port \<times> nat) list" where
  "il_rest ports F s = map (il_place ports) [il_pos F (length ports) s..<F * length ports]"

lemma il_ptrs_at_length [simp]: "length (il_ptrs_at ports f i) = length ports"
  by (simp add: il_ptrs_at_def)

lemma il_ptrs_at_step:
  assumes "i < length ports"
  shows "(il_ptrs_at ports f i)[i := (ports ! i, Buf (ports ! i) (Suc f))] = il_ptrs_at ports f (Suc i)"
  using assms by (intro nth_equalityI) (auto simp: il_ptrs_at_def nth_list_update)

lemma il_ptrs_at_wrap: "il_ptrs_at ports f (length ports) = il_ptrs_at ports (Suc f) 0"
  by (simp add: il_ptrs_at_def)

lemma il_start:
  assumes "0 < length ports" "length ports < 2 ^ 32" "map fst (il_ptrs il) = ports"
    and "\<forall>p \<in> set ports. unat (n_frames scope) \<le> len p"
  shows "il_at len ports (unat (n_frames scope)) (interleave il scope)"
    and "il_rest ports (unat (n_frames scope)) (interleave il scope)
      = map (il_place ports) [0..<unat (n_frames scope) * length ports]"
proof -
  have "length (il_ptrs il) = length ports" using assms(3) by (metis length_map)
  moreover have "fst (il_ptrs il ! k) = ports ! k" if "k < length ports" for k
    using assms(3) that calculation by (metis nth_map)
  ultimately have "map (\<lambda>(port, _). (port, to_jack_buf_ptr port)) (il_ptrs il) = il_ptrs_at ports 0 0"
    by (intro nth_equalityI) (auto simp: il_ptrs_at_def to_jack_buf_ptr_def split_def)
  with assms show "il_at len ports (unat (n_frames scope)) (interleave il scope)"
    by (simp add: il_at_def Let_def interleave_def unat_ucast_wider)
  show "il_rest ports (unat (n_frames scope)) (interleave il scope)
      = map (il_place ports) [0..<unat (n_frames scope) * length ports]"
    by (simp add: il_rest_def il_pos_def interleave_def unat_ucast_wider)
qed

lemma Interleaved_next_step:
  assumes "il_at len ports F s"
  shows "\<exists>s'. Interleaved_next len s =
      Inr (if il_rest ports F s = [] then None else Some (hd (il_rest ports F s)), s')
    \<and> il_rest ports F s' = tl (il_rest ports F s) \<and> il_at len ports F s'"
proof -
  let ?n = "length ports" and ?r = "unat (ild_remaining_frames s)" and ?i = "unat (ild_current_index s)"
  note at = assms [unfolded il_at_def Let_def]
  show ?thesis
  proof (cases "?r = 0")
    case True
    with at have "il_rest ports F s = []" by (simp add: il_rest_def il_pos_def)
    with True assms show ?thesis by (simp add: Interleaved_next_def unat_eq_0 flip: word_unat_eq_iff)
  next
    case False
    let ?f = "F - ?r" and ?j = "il_pos F ?n s"
    have i: "?i < ?n" and "?r \<le> F" using at by blast+
    then have "ports ! ?i \<in> set ports" by simp
    then have "F \<le> len (ports ! ?i)" using at by blast
    then have len: "\<not> len (ports ! ?i) \<le> ?f" using False \<open>?r \<le> F\<close> by linarith
    have j: "?j div ?n = ?f" "?j mod ?n = ?i" using i by (auto simp: il_pos_def div_add1_eq)
    have "Suc ?f * ?n \<le> F * ?n" using False \<open>?r \<le> F\<close> by (intro mult_le_mono1) linarith
    then have jn: "?j < F * ?n" using i by (simp add: il_pos_def)
    have hd: "il_rest ports F s = (ports ! ?i, ?f) # map (il_place ports) [Suc ?j..<F * ?n]"
      using jn j by (simp add: il_rest_def il_place_def upt_conv_Cons)
    have "Suc ?i < 2 ^ LENGTH(64)" using i at by (simp add: less_trans_Suc)
    then have inc: "strict_add (ild_current_index s) 1 = Inr (ild_current_index s + 1)"
      "unat (ild_current_index s + 1) = Suc ?i"
      by (simp_all add: strict_add_def unat_plus_1)
    have dec: "strict_sub (ild_remaining_frames s) 1 = Inr (ild_remaining_frames s - 1)"
      "unat (ild_remaining_frames s - 1) = ?r - 1"
      using False by (simp_all add: strict_sub_def unat_sub word_le_nat_alt)
    have ptr: "ild_ptrs s ! ?i = (ports ! ?i, Buf (ports ! ?i) ?f)"
      "(ild_ptrs s)[?i := (ports ! ?i, Buf (ports ! ?i) (Suc ?f))] = il_ptrs_at ports ?f (Suc ?i)"
      using at i il_ptrs_at_step [OF i] by (simp_all add: il_ptrs_at_def)
    let ?s = "if Suc ?i = ?n
      then \<lparr>ild_remaining_frames = ild_remaining_frames s - 1, ild_current_index = 0, ild_ptrs = il_ptrs_at ports ?f ?n\<rparr>
      else \<lparr>ild_remaining_frames = ild_remaining_frames s, ild_current_index = ild_current_index s + 1,
            ild_ptrs = il_ptrs_at ports ?f (Suc ?i)\<rparr>"
    have "ild_remaining_frames s \<noteq> 0" "\<not> length (ild_ptrs s) \<le> ?i" using False at by auto
    then have "Interleaved_next len s = Inr (Some (ports ! ?i, ?f), ?s)"
      using ptr len inc dec by (simp add: Interleaved_next_def Let_def)
    moreover have "F - (?r - 1) = Suc ?f" using False at by linarith
    then have "il_pos F ?n ?s = Suc ?j" "il_at len ports F ?s"
      using at inc dec i False by (auto simp: il_pos_def il_at_def Let_def il_ptrs_at_wrap)
    ultimately show ?thesis using hd by (intro exI [of _ ?s]) (simp add: il_rest_def)
  qed
qed

lemma il_at_ports: "il_at len ports F s \<Longrightarrow> map fst (ild_ptrs s) = ports"
  by (auto simp: il_at_def Let_def il_ptrs_at_def intro: nth_equalityI)

lemma copied_next_step:
  assumes "il_at (\<lambda>p. length (mem p)) ports F s"
  shows "\<exists>s'. copied_next mem s =
      Inr (if map (\<lambda>(b, off). mem b ! off) (il_rest ports F s) = [] then None
           else Some (hd (map (\<lambda>(b, off). mem b ! off) (il_rest ports F s))), s')
    \<and> map (\<lambda>(b, off). mem b ! off) (il_rest ports F s') = tl (map (\<lambda>(b, off). mem b ! off) (il_rest ports F s))
    \<and> il_at (\<lambda>p. length (mem p)) ports F s'"
  using Interleaved_next_step [OF assms] by (auto simp: copied_next_def map_tl hd_map)

lemma n_ports_eq:
  assumes "0 < length (il_ptrs il)" "length (il_ptrs il) < 2 ^ 32"
  shows "n_ports il = Inr (of_nat (length (il_ptrs il)))"
    and "unat (ucast (of_nat (length (il_ptrs il)) :: u32) :: u64) = length (il_ptrs il)"
proof -
  have n: "unat (of_nat (length (il_ptrs il)) :: u32) = length (il_ptrs il)" using assms(2) by simp
  then have "(of_nat (length (il_ptrs il)) :: u32) \<noteq> 0" using assms(1) by (metis less_irrefl unat_0)
  with assms show "n_ports il = Inr (of_nat (length (il_ptrs il)))"
    by (simp add: n_ports_def nonzero_new_def)
  show "unat (ucast (of_nat (length (il_ptrs il)) :: u32) :: u64) = length (il_ptrs il)"
    using n by (simp add: unat_ucast_wider)
qed

lemma sample_index_mul:
  assumes "unat frame_idx * n < 2 ^ 64" "unat (m :: u64) = n"
  shows "strict_mul frame_idx m = Inr (of_nat (unat frame_idx * n))"
  using assms by (simp add: strict_mul_eq_Inr_iff del: of_nat_mult)

lemma frame_major_shift:
  "0 < n \<Longrightarrow> \<not> k < f * n \<Longrightarrow> (k - f * n) mod n = k mod n \<and> (k - f * n) div n = k div n - f" for k :: nat
  by (auto simp: not_less le_iff_add)

section \<open>Zipped loops\<close>

lemma for_each_zip:
  assumes step: "\<And>s. R s \<Longrightarrow> \<exists>s'. nx s = Inr (if f s = [] then None else Some (hd (f s)), s')
      \<and> f s' = tl (f s) \<and> R s'"
  shows "R s \<Longrightarrow> pull ny (length (f s)) t = Inr (ys, t') \<Longrightarrow>
    \<exists>s'. for_each (zip_next nx ny) body (s, t) st = Some (Inr ((s', t'), fold body (zip (f s) ys) st)) \<and> R s'"
proof (induction "f s" arbitrary: s t ys st)
  case Nil
  from step [OF Nil.prems(1)] Nil.hyps obtain s' where "nx s = Inr (None, s')" "R s'" by auto
  with Nil show ?case by (subst for_each.simps) (simp add: zip_next_def flip: Nil.hyps)
next
  case (Cons x xs)
  from step [OF Cons.prems(1)] Cons.hyps(2) obtain s1 where
    s1: "nx s = Inr (Some x, s1)" "f s1 = xs" "R s1" by (metis list.distinct(1) list.sel(1,3))
  have "length (f s) = Suc (length xs)" using Cons.hyps(2) by (metis length_Cons)
  with Cons.prems(2) obtain r t1 where ny: "ny t = Inr (r, t1)"
    and rest: "(case r of None \<Rightarrow> Inr ([], t1)
       | Some y \<Rightarrow> rbind (pull ny (length xs) t1) (\<lambda>(zs, t2). Inr (y # zs, t2))) = Inr (ys, t')"
    by (auto simp: rbind_eq_Inr_iff)
  show ?case
  proof (cases r)
    case None
    with s1 ny rest show ?thesis by (subst for_each.simps) (auto simp: zip_next_def)
  next
    case (Some y)
    with rest obtain zs where zs: "pull ny (length xs) t1 = Inr (zs, t')" "ys = y # zs"
      by (auto simp: rbind_eq_Inr_iff)
    from Cons.hyps(1) [OF s1(2) [symmetric] s1(3), of t1 zs "body (x, y) st"] zs(1) s1(2)
    obtain s' where "for_each (zip_next nx ny) body (s1, t1) (body (x, y) st) =
        Some (Inr ((s', t'), fold body (zip xs zs) (body (x, y) st)))" "R s'"
      by auto
    moreover have "zip_next nx ny (s, t) = Inr (Some (x, y), (s1, t1))"
      using s1 ny Some by (simp add: zip_next_def)
    ultimately show ?thesis
      by (subst for_each.simps) (simp add: zs(2) flip: Cons.hyps(2))
  qed
qed

lemma write_fold_length: "length (fold write_sample ws mem b) = length (mem b)"
  by (induction ws arbitrary: mem) (auto simp: write_sample_def split: prod.splits)

lemma write_fold_other:
  "(b, off) \<notin> fst ` set ws \<Longrightarrow> fold write_sample ws mem b ! off = mem b ! off"
proof (induction ws arbitrary: mem)
  case Nil
  then show ?case by simp
next
  case (Cons w ws)
  then show ?case by (cases w) (force simp: write_sample_def nth_list_update)
qed

lemma write_fold_at:
  assumes "distinct (map fst ws)" "((b, off), v) \<in> set ws" "off < length (mem b)"
  shows "fold write_sample ws mem b ! off = v"
  using assms
proof (induction ws arbitrary: mem)
  case Nil
  then show ?case by simp
next
  case (Cons w ws)
  show ?case
  proof (cases "w = ((b, off), v)")
    case True
    with Cons.prems write_fold_other [of b off ws "write_sample w mem"] show ?thesis
      by (force simp: write_sample_def)
  next
    case False
    have "length (write_sample w mem b) = length (mem b)"
      using write_fold_length [of "[w]" mem b] by simp
    with False Cons show ?thesis by simp
  qed
qed

lemma il_place_inj:
  "\<lbrakk>distinct ports; il_place ports j = il_place ports k\<rbrakk> \<Longrightarrow> 0 < length ports \<Longrightarrow> j = k"
  by (simp add: il_place_def nth_eq_iff_index_eq) (metis div_mult_mod_eq)

lemma frame_major_bound: "p < n \<Longrightarrow> f < F \<Longrightarrow> f * n + p < F * n" for p n f F :: nat
proof -
  assume "p < n" "f < F"
  then have "f * n + p < Suc f * n" by simp
  also have "\<dots> \<le> F * n" using \<open>f < F\<close> by (intro mult_le_mono1) simp
  finally show ?thesis .
qed

text \<open>The effect of writing a prefix of the frame-major places.\<close>

lemma write_places:
  assumes "distinct ports" and n: "n = length ports" and "length xs \<le> F * n"
    and "\<forall>p \<in> set ports. length (mem p) = F" and pf: "p < n" "f < F"
  shows "fold write_sample (zip (map (il_place ports) [0..<F * n]) xs) mem (ports ! p) ! f =
    (if f * n + p < length xs then xs ! (f * n + p) else mem (ports ! p) ! f)"
proof -
  let ?ws = "zip (map (il_place ports) [0..<F * n]) xs" and ?j = "f * n + p"
  have place: "il_place ports ?j = (ports ! p, f)" using pf n by (auto simp: il_place_def div_add1_eq)
  have fsts: "map fst ?ws = map (il_place ports) [0..<length xs]"
    using assms(3) by (simp add: map_fst_zip_take take_map)
  have inj: "inj_on (il_place ports) A" for A
    using il_place_inj [OF assms(1)] pf(1) n by (intro inj_onI) (metis length_0_conv less_zeroE neq0_conv)
  show ?thesis
  proof (cases "?j < length xs")
    case True
    have "?ws ! ?j = ((ports ! p, f), xs ! ?j)" "?j < length ?ws"
      using True assms(3) place by simp_all
    then have "((ports ! p, f), xs ! ?j) \<in> set ?ws" by (metis nth_mem)
    moreover have "distinct (map fst ?ws)" unfolding fsts by (simp add: distinct_map inj)
    moreover have "f < length (mem (ports ! p))" using assms(4) pf n by simp
    ultimately show ?thesis using True write_fold_at by fastforce
  next
    case False
    have "fst ` set ?ws = il_place ports ` {0..<length xs}"
      using arg_cong [OF fsts, of set] by simp
    moreover have "il_place ports ?j \<notin> il_place ports ` {0..<length xs}"
      using False inj_onD [OF inj [of UNIV]] by (fastforce simp: not_less)
    ultimately show ?thesis using False place write_fold_other by metis
  qed
qed

lemma write_places_frame:
  assumes "q \<notin> set ports" "0 < length ports"
  shows "fold write_sample (zip (map (il_place ports) js) xs) mem q = mem q"
proof (rule nth_equalityI)
  show "length (fold write_sample (zip (map (il_place ports) js) xs) mem q) = length (mem q)"
    by (rule write_fold_length)
  have "fst (il_place ports j) \<in> set ports" for j using assms(2) by (simp add: il_place_def)
  then have "fst (fst w) \<in> set ports" if "w \<in> set (zip (map (il_place ports) js) xs)" for w
    using that by (cases w) (metis (no_types, lifting) fst_conv image_iff set_map set_zip_leftD surj_pair)
  then have "(q, off) \<notin> fst ` set (zip (map (il_place ports) js) xs)" for off
    using assms(1) by force
  then show "fold write_sample (zip (map (il_place ports) js) xs) mem q ! k = mem q ! k" for k
    by (rule write_fold_other)
qed

section \<open>Properties\<close>

text \<open>C19: Interleaving: over buffers of at least the cycle's number of frames, the \<open>j\<close>-th reference
  is to frame \<open>j div n\<close> of port \<open>j mod n\<close>, for \<open>n\<close> ports; exactly \<open>frames * n\<close> references are
  yielded, as \<open>len\<close> says, and no unchecked access, pointer step or dereference of the unsafe
  code leaves its bounds.\<close>

theorem interleave_is_frame_major:
  assumes "ports = map fst (il_ptrs il)" and "0 < length ports" and "length ports < 2 ^ 32"
    and "\<forall>p \<in> set ports. unat (n_frames scope) \<le> len p"
  shows "(\<exists>it. pull (Interleaved_next len) k (interleave il scope) =
        Inr (map (\<lambda>j. (ports ! (j mod length ports), j div length ports))
              [0..<min k (unat (n_frames scope) * length ports)], it))
    \<and> unat (Interleaved_len (interleave il scope)) = unat (n_frames scope) * length ports"
proof -
  let ?F = "unat (n_frames scope)" and ?it = "interleave il scope"
  note start = il_start [OF assms(2,3) assms(1) [symmetric] assms(4)]
  obtain it where "pull (Interleaved_next len) k ?it = Inr (take k (il_rest ports ?F ?it), it)"
    using pull_simulates [where R = "il_at len ports ?F" and f = "il_rest ports ?F",
        OF Interleaved_next_step start(1)] by blast
  moreover have "take k (il_rest ports ?F ?it) = map (il_place ports) [0..<min k (?F * length ports)]"
    unfolding start(2) map_upt_take by (simp add: min.commute)
  moreover have "il_place ports = (\<lambda>j. (ports ! (j mod length ports), j div length ports))"
    by (simp add: il_place_def fun_eq_iff)
  moreover have "unat (Interleaved_len ?it) = ?F * length ports"
  proof -
    have "?F * length ports < 2 ^ 32 * 2 ^ 32"
      using assms(3) unsigned_less [of "n_frames scope", where 'a = nat] by (intro mult_strict_mono) simp_all
    then have "unat (of_nat (?F * length ports) :: usize) = ?F * length ports"
      by (intro unat_of_nat_lt) simp
    moreover have "Interleaved_len ?it = of_nat (?F * length ports)"
      using assms(1) by (simp add: Interleaved_len_def interleave_def)
    ultimately show ?thesis by simp
  qed
  ultimately show ?thesis by auto
qed

theorem interleave_is_frame_major_witness:
  "(\<exists>it. pull (Interleaved_next (\<lambda>_. 2)) 9
      (interleave \<lparr>il_ptrs = [(CHR ''l'', Dangling), (CHR ''r'', Dangling)]\<rparr> \<lparr>n_frames = 2, last_frame_time = 7\<rparr>) =
    Inr ([(CHR ''l'', 0), (CHR ''r'', 0), (CHR ''l'', 1), (CHR ''r'', 1)], it))"
  using interleave_is_frame_major [of "''lr''" "\<lparr>il_ptrs = [(CHR ''l'', Dangling), (CHR ''r'', Dangling)]\<rparr>"
      "\<lparr>n_frames = 2, last_frame_time = 7\<rparr>" "\<lambda>_. 2" 9]
  by (simp add: upt_conv_Cons numeral_2_eq_2 [symmetric])

lemma process_tx_spec:
  assumes "counter_laws advance current" and "rtrb_producer_ok P items cap"
    and "ports = map fst (il_ptrs (jtx_interleaver jtx))" and "n = length ports" and "0 < n" and "n < 2 ^ 32"
    and "F = unat (n_frames scope)" and "\<forall>p \<in> set ports. length (mem p) = F"
    and "i = unat frame_idx * n" and "i < 2 ^ 64"
    and "c = unat (current (itx_counter (jtx_tx jtx)))"
    and "checked_signed_diff (current (itx_counter (jtx_tx jtx))) (of_nat i) \<noteq> None"
    and "c + unat (tx_slots P (itx_tx (jtx_tx jtx))) < 2 ^ 64"
  shows "\<exists>jtx' pushed. process_tx advance current P scope mem frame_idx jtx = Inr jtx'
    \<and> items (itx_tx (jtx_tx jtx')) = items (itx_tx (jtx_tx jtx)) @ pushed
    \<and> length pushed = min (unat (tx_slots P (itx_tx (jtx_tx jtx)))) (i + F * n - c)
    \<and> (\<forall>j < length pushed. pushed ! j =
        (if c + j < i then 0 else mem (ports ! ((c + j) mod n)) ! ((c + j) div n - unat frame_idx)))
    \<and> unat (current (itx_counter (jtx_tx jtx'))) = c + length pushed
    \<and> map fst (il_ptrs (jtx_interleaver jtx')) = ports"
proof -
  let ?il = "jtx_interleaver jtx" and ?tx = "jtx_tx jtx" and ?slots = "unat (tx_slots P (itx_tx (jtx_tx jtx)))"
  let ?vals = "map (\<lambda>j. mem (ports ! (j mod n)) ! (j div n)) [0..<F * n]"
  define pushed where "pushed = take ?slots (map (\<lambda>_. 0) [0..<i - c] @ drop (c - i) ?vals)"
  have ptrs: "length (il_ptrs ?il) = n" using assms(3,4) by simp
  have np: "n_ports ?il = Inr (of_nat n)" "unat (ucast (of_nat n :: u32) :: u64) = n"
    using n_ports_eq [of ?il] ptrs assms(5,6) by simp_all
  have mul: "strict_mul frame_idx (ucast (of_nat n :: u32)) = Inr (of_nat i)"
    using sample_index_mul [OF _ np(2)] assms(9,10) by simp
  have ui: "unat (of_nat i :: u64) = i" using assms(10) by simp
  have "\<forall>p \<in> set ports. unat (n_frames scope) \<le> length (mem p)" using assms(7,8) by simp
  note start = il_start [where len = "\<lambda>p. length (mem p)", OF _ _ assms(3) [symmetric] this]
  have vals: "map (\<lambda>(b, off). mem b ! off) (il_rest ports F (interleave ?il scope)) = ?vals"
    using start(2) assms(4-7) by (simp add: il_place_def)
  obtain d where "checked_signed_diff (current (itx_counter ?tx)) (of_nat i) = Some d" using assms(12) by blast
  from counter_laws.send_aligned [OF assms(1,2), of ?tx, OF this assms(13) [unfolded assms(11)],
      where R = "il_at (\<lambda>p. length (mem p)) ports F" and nx = "copied_next mem"
        and f = "\<lambda>s. map (\<lambda>(b, off). mem b ! off) (il_rest ports F s)" and pad = "\<lambda>_. 0"
        and it = "interleave ?il scope", OF copied_next_step]
  obtain tx' it' where tx': "IndexedTx_send advance current P ?tx (of_nat i) (copied_next mem)
      (interleave ?il scope) (\<lambda>_. 0) = Inr (tx', it')" "items (itx_tx tx') = items (itx_tx ?tx) @ pushed"
    "unat (current (itx_counter tx')) = c + length pushed" "il_at (\<lambda>p. length (mem p)) ports F it'"
    using start(1) assms(4-7,11) unfolding vals ui pushed_def by auto
  have "length pushed = min ?slots (length ?vals + i - c)"
    unfolding pushed_def shifted_length by (simp add: add.commute)
  then have len: "length pushed = min ?slots (i + F * n - c)" by (simp add: add.commute)
  have nth: "pushed ! j = (if c + j < i then 0 else mem (ports ! ((c + j) mod n)) ! ((c + j) div n - unat frame_idx))"
    if "j < length pushed" for j
  proof -
    have "pushed ! j = (if c + j < i then 0 else ?vals ! (c + j - i))" using shifted_nth [OF that [unfolded pushed_def]] unfolding pushed_def .
    moreover have "c + j - i < F * n" if "\<not> c + j < i"
      using that \<open>j < length pushed\<close> len by linarith
    ultimately show ?thesis using frame_major_shift [of n "c + j" "unat frame_idx"] assms(5,9) by simp
  qed
  have "process_tx advance current P scope mem frame_idx jtx =
      Inr \<lparr>jtx_interleaver = \<lparr>il_ptrs = ild_ptrs it'\<rparr>, jtx_tx = tx'\<rparr>"
    using np(1) mul tx'(1) by (simp add: process_tx_def)
  with len nth tx'(2,3) il_at_ports [OF tx'(4)] show ?thesis
    by (intro exI [of _ "\<lparr>jtx_interleaver = \<lparr>il_ptrs = ild_ptrs it'\<rparr>, jtx_tx = tx'\<rparr>"] exI [of _ pushed]) simp
qed

text \<open>C9: The transmit side of a process cycle: after it, the ring has grown by the samples of the
  stream up to the end of the cycle, as far as there is room. The item that lands at stream
  index \<open>k\<close> is the sample of port \<open>k mod n\<close> in frame \<open>k div n\<close> counted from the first cycle,
  or silence when that frame lies before this cycle.\<close>

theorem jack_tx_places_samples:
  assumes "counter_laws advance current" and "rtrb_producer_ok P items cap"
    and "ports = map fst (il_ptrs (jtx_interleaver jtx))" and "n = length ports" and "0 < n" and "n < 2 ^ 32"
    and "F = unat (n_frames scope)" and "\<forall>p \<in> set ports. length (mem p) = F"
    and "i = unat frame_idx * n" and "i < 2 ^ 64"
    and "c = unat (current (itx_counter (jtx_tx jtx)))"
    and "checked_signed_diff (current (itx_counter (jtx_tx jtx))) (of_nat i) \<noteq> None"
    and "c + unat (tx_slots P (itx_tx (jtx_tx jtx))) < 2 ^ 64"
  shows "\<exists>jtx' pushed. process_tx advance current P scope mem frame_idx jtx = Inr jtx'
    \<and> items (itx_tx (jtx_tx jtx')) = items (itx_tx (jtx_tx jtx)) @ pushed
    \<and> length pushed = min (unat (tx_slots P (itx_tx (jtx_tx jtx)))) (i + F * n - c)
    \<and> (\<forall>j < length pushed. pushed ! j =
        (if c + j < i then 0 else mem (ports ! ((c + j) mod n)) ! ((c + j) div n - unat frame_idx)))
    \<and> unat (current (itx_counter (jtx_tx jtx'))) = c + length pushed
    \<and> map fst (il_ptrs (jtx_interleaver jtx')) = ports"
  by (rule process_tx_spec [OF assms])

theorem jack_tx_places_samples_witness:
  "\<exists>jtx' pushed. process_tx GenericCounter_advance GenericCounter_current ring8_producer
      \<lparr>n_frames = 2, last_frame_time = 0\<rparr> (\<lambda>p. if p = CHR ''l'' then [1, 3] else [2, 4]) 1
      \<lparr>jtx_interleaver = \<lparr>il_ptrs = [(CHR ''l'', Dangling), (CHR ''r'', Dangling)]\<rparr>,
       jtx_tx = IndexedTx_new [] GenericCounter_new\<rparr> = Inr jtx'
    \<and> ring8_items (itx_tx (jtx_tx jtx')) = [] @ pushed \<and> length pushed = 6
    \<and> pushed ! 1 = 0 \<and> pushed ! 2 = 1 \<and> pushed ! 5 = 4"
proof -
  let ?P = "ring8_producer :: (u32 list, u32 list \<times> nat, char Interleaved ShiftIter, u32) rtrb_producer"
  let ?mem = "\<lambda>p. if p = CHR ''l'' then [1 :: u32, 3] else [2, 4]"
  define jtx where "jtx = \<lparr>jtx_interleaver = \<lparr>il_ptrs = [(CHR ''l'', Dangling), (CHR ''r'', Dangling)]\<rparr>,
       jtx_tx = IndexedTx_new ([] :: u32 list) GenericCounter_new\<rparr>"
  have fields: "''lr'' = map fst (il_ptrs (jtx_interleaver jtx))" "itx_tx (jtx_tx jtx) = []"
    "GenericCounter_current (itx_counter (jtx_tx jtx)) = 0"
    by (simp_all add: jtx_def IndexedTx_new_def GenericCounter_new_def GenericCounter_current_def)
  have slots: "unat (tx_slots ?P ([] :: u32 list)) = 8"
    by (simp add: ring8_producer_def ring8_items_def)
  have "\<exists>jtx' pushed. process_tx GenericCounter_advance GenericCounter_current ?P
      \<lparr>n_frames = 2, last_frame_time = 0\<rparr> ?mem 1 jtx = Inr jtx'
    \<and> ring8_items (itx_tx (jtx_tx jtx')) = ring8_items (itx_tx (jtx_tx jtx)) @ pushed
    \<and> length pushed = min (unat (tx_slots ?P (itx_tx (jtx_tx jtx)))) (2 + 2 * 2 - 0)
    \<and> (\<forall>j < length pushed. pushed ! j =
        (if 0 + j < 2 then 0 else ?mem (''lr'' ! ((0 + j) mod 2)) ! ((0 + j) div 2 - unat (1 :: u64))))
    \<and> unat (GenericCounter_current (itx_counter (jtx_tx jtx'))) = 0 + length pushed
    \<and> map fst (il_ptrs (jtx_interleaver jtx')) = ''lr''"
    by (rule jack_tx_places_samples [OF generic.counter_laws_axioms ring8_producer_ok fields(1), where F = 2])
      (simp_all add: fields(2,3) slots checked_signed_diff_def)
  then obtain jtx' pushed where r: "process_tx GenericCounter_advance GenericCounter_current ?P
      \<lparr>n_frames = 2, last_frame_time = 0\<rparr> ?mem 1 jtx = Inr jtx'"
    "ring8_items (itx_tx (jtx_tx jtx')) = [] @ pushed" "length pushed = 6"
    and at: "\<forall>j < 6. pushed ! j =
        (if 0 + j < 2 then 0 else ?mem (''lr'' ! ((0 + j) mod 2)) ! ((0 + j) div 2 - unat (1 :: u64)))"
    by (auto simp: fields slots ring8_items_def)
  have "pushed ! 1 = 0" "pushed ! 2 = 1" "pushed ! 5 = 4"
    using at [rule_format, of 1] at [rule_format, of 2] at [rule_format, of 5] by simp_all
  with r show ?thesis unfolding jtx_def by (intro exI conjI)
qed

lemma process_rx_eq:
  assumes start: "il_at (\<lambda>p. length (mem p)) ports F (interleave (jrx_interleaver jrx) scope)"
    "il_rest ports F (interleave (jrx_interleaver jrx) scope) = places"
    and np: "n_ports (jrx_interleaver jrx) = Inr n" "strict_mul frame_idx (ucast n) = Inr idx"
    and recv: "recv_take advance current C (jrx_rx jrx) idx (\<lambda>_. 0) (length places) = Inr (xs, rx')"
  shows "\<exists>jrx'. process_rx advance current C scope frame_idx jrx mem =
      Some (Inr (jrx', fold write_sample (zip places xs) mem))
    \<and> jrx_rx jrx' = rx' \<and> map fst (il_ptrs (jrx_interleaver jrx')) = ports"
proof -
  let ?ny = "shift_next (ReadChunksIterCounter_next C) (ReadChunksIterCounter_nth C) (\<lambda>_. 0)"
  from recv obtain srcs srcs' cq where r: "IndexedRx_recv current C (jrx_rx jrx) idx = Inr srcs"
    "pull ?ny (length places) srcs = Inr (xs, srcs')"
    "ReadChunksIterCounter_drop advance C (si_inner srcs') = Inr cq"
    "rx' = (jrx_rx jrx)\<lparr>irx_rx := snd cq, irx_counter := fst cq\<rparr>"
    by (auto simp: recv_take_def rbind_eq_Inr_iff)
  from for_each_zip [where R = "il_at (\<lambda>p. length (mem p)) ports F" and f = "il_rest ports F"
      and nx = "Interleaved_next (\<lambda>p. length (mem p))", OF Interleaved_next_step start(1), of ?ny srcs xs srcs'
      write_sample mem] start(2) r(2)
  obtain it' where "for_each (zip_next (Interleaved_next (\<lambda>p. length (mem p))) ?ny) write_sample
      (interleave (jrx_interleaver jrx) scope, srcs) mem
      = Some (Inr ((it', srcs'), fold write_sample (zip places xs) mem))"
    "il_at (\<lambda>p. length (mem p)) ports F it'" by auto
  with np r il_at_ports [OF this(2)] show ?thesis
    by (auto simp: process_rx_def obind_def split: prod.splits)
qed

text \<open>C6: The receive side of a process cycle, over distinct output ports: frame \<open>f\<close> of the port
  with number \<open>p\<close> becomes the stream's item at index \<open>(frame + f) * n + p\<close>, silence where that
  item has already been consumed, and is left as it was where the item has not arrived yet.\<close>

theorem jack_rx_writes_samples:
  assumes "rtrb_consumer_ok C items chunk rest"
    and "ports = map fst (il_ptrs (jrx_interleaver jrx))" and "distinct ports"
    and "n = length ports" and "0 < n" and "n < 2 ^ 32"
    and "F = unat (n_frames scope)" and "\<forall>p \<in> set ports. length (mem p) = F"
    and "i = unat frame_idx * n" and "i < 2 ^ 64"
    and "c = gc_pos (irx_counter (jrx_rx jrx))" and "e = c + length (items (irx_rx (jrx_rx jrx)))"
    and "checked_signed_diff (of_nat i) (GenericCounter_current (irx_counter (jrx_rx jrx))) \<noteq> None"
    and "e < 2 ^ 64" and "items (irx_rx (jrx_rx jrx)) = map stream [c..<e]"
  shows "\<exists>jrx' mem'.
      process_rx GenericCounter_advance GenericCounter_current C scope frame_idx jrx mem = Some (Inr (jrx', mem'))
    \<and> (\<forall>p < n. \<forall>f < F. mem' (ports ! p) ! f =
        (let k = i + f * n + p in if e \<le> k then mem (ports ! p) ! f else if k < c then 0 else stream k))
    \<and> (\<forall>q. q \<notin> set ports \<longrightarrow> mem' q = mem q)"
proof -
  let ?il = "jrx_interleaver jrx" and ?rx = "jrx_rx jrx" and ?q = "items (irx_rx (jrx_rx jrx))"
  let ?places = "map (il_place ports) [0..<F * n]"
  have np: "n_ports ?il = Inr (of_nat n)" "unat (ucast (of_nat n :: u32) :: u64) = n"
    using n_ports_eq [of ?il] assms(2,4-6) by simp_all
  have mul: "strict_mul frame_idx (ucast (of_nat n :: u32)) = Inr (of_nat i)"
    using sample_index_mul [OF _ np(2)] assms(9,10) by simp
  have ui: "unat (of_nat i :: u64) = i" using assms(10) by simp
  have "\<forall>p \<in> set ports. unat (n_frames scope) \<le> length (mem p)" using assms(7,8) by simp
  note start = il_start [where len = "\<lambda>p. length (mem p)", OF _ _ assms(2) [symmetric] this]
  have "gc_pos (irx_counter ?rx) + length ?q < 2 ^ 64"
    "?q = map stream [gc_pos (irx_counter ?rx)..<gc_pos (irx_counter ?rx) + length ?q]"
    using assms(11,12,14,15) by simp_all
  from recv_stream [OF assms(1,13) this, of "\<lambda>_. 0" "F * n"] obtain xs rx' where
    rx': "recv_take GenericCounter_advance GenericCounter_current C ?rx (of_nat i) (\<lambda>_. 0) (F * n) = Inr (xs, rx')"
    and len: "length xs = min (F * n) (e - i)"
    and nth: "\<forall>j < length xs. xs ! j = (if i + j < c then 0 else stream (i + j))"
    unfolding ui using assms(11,12) by auto
  have st: "il_at (\<lambda>p. length (mem p)) ports F (interleave ?il scope)"
    "il_rest ports F (interleave ?il scope) = ?places"
    using start assms(4-7) by simp_all
  have "recv_take GenericCounter_advance GenericCounter_current C ?rx (of_nat i) (\<lambda>_. 0) (length ?places)
      = Inr (xs, rx')" using rx' by simp
  note rx_eq = process_rx_eq [OF st np(1) mul this]
  obtain jrx' where run: "process_rx GenericCounter_advance GenericCounter_current C scope frame_idx jrx mem =
      Some (Inr (jrx', fold write_sample (zip ?places xs) mem))"
    using rx_eq by blast
  have "fold write_sample (zip ?places xs) mem (ports ! p) ! f =
      (let k = i + f * n + p in if e \<le> k then mem (ports ! p) ! f else if k < c then 0 else stream k)"
    if "p < n" "f < F" for p f
  proof -
    have "f * n + p < F * n" using frame_major_bound [OF that] .
    then show ?thesis
      using write_places [OF assms(3), of n xs F mem p f] assms(4,8) that len nth [rule_format, of "f * n + p"]
      by (auto simp: Let_def add.assoc)
  qed
  moreover have "fold write_sample (zip ?places xs) mem q = mem q" if "q \<notin> set ports" for q
    using write_places_frame [OF that] assms(4,5) by simp
  ultimately show ?thesis using run by blast
qed

theorem jack_rx_writes_samples_witness:
  "\<exists>jrx' mem'. process_rx GenericCounter_advance GenericCounter_current ring8_consumer
      \<lparr>n_frames = 2, last_frame_time = 0\<rparr> 1
      \<lparr>jrx_rx = IndexedRx_new [13, 14] \<lparr>gc_value = 3\<rparr>,
       jrx_interleaver = \<lparr>il_ptrs = [(CHR ''l'', Dangling), (CHR ''r'', Dangling)]\<rparr>\<rparr> (\<lambda>_. [7, 7]) =
      Some (Inr (jrx', mem'))
    \<and> mem' CHR ''l'' ! 0 = 0 \<and> mem' CHR ''r'' ! 0 = 13 \<and> mem' CHR ''l'' ! 1 = 14 \<and> mem' CHR ''r'' ! 1 = 7"
proof -
  define jrx where "jrx = \<lparr>jrx_rx = IndexedRx_new [13 :: u32, 14] \<lparr>gc_value = 3\<rparr>,
       jrx_interleaver = \<lparr>il_ptrs = [(CHR ''l'', Dangling), (CHR ''r'', Dangling)]\<rparr>\<rparr>"
  let ?stream = "\<lambda>k. of_nat (k + 10) :: u32" and ?mem = "\<lambda>_. [7, 7 :: u32]"
  have fields: "''lr'' = map fst (il_ptrs (jrx_interleaver jrx))" "ring8_items (irx_rx (jrx_rx jrx)) = [13, 14]"
    "GenericCounter_current (irx_counter (jrx_rx jrx)) = 3"
    by (simp_all add: jrx_def IndexedRx_new_def GenericCounter_current_def ring8_items_def)
  have "\<exists>jrx' mem'. process_rx GenericCounter_advance GenericCounter_current ring8_consumer
      \<lparr>n_frames = 2, last_frame_time = 0\<rparr> 1 jrx ?mem = Some (Inr (jrx', mem'))
    \<and> (\<forall>p < 2. \<forall>f < 2. mem' (''lr'' ! p) ! f =
        (let k = 2 + f * 2 + p in if 5 \<le> k then ?mem (''lr'' ! p) ! f else if k < 3 then 0 else ?stream k))
    \<and> (\<forall>q. q \<notin> set ''lr'' \<longrightarrow> mem' q = ?mem q)"
    by (rule jack_rx_writes_samples [OF ring8_consumer_ok fields(1), where F = 2])
      (simp_all add: fields(2,3) checked_signed_diff_def upt_conv_Cons)
  then obtain jrx' mem' where run: "process_rx GenericCounter_advance GenericCounter_current ring8_consumer
      \<lparr>n_frames = 2, last_frame_time = 0\<rparr> 1 jrx ?mem = Some (Inr (jrx', mem'))"
    and at: "\<forall>p < 2. \<forall>f < 2. mem' (''lr'' ! p) ! f =
        (let k = 2 + f * 2 + p in if 5 \<le> k then ?mem (''lr'' ! p) ! f else if k < 3 then 0 else ?stream k)"
    by blast
  have "mem' CHR ''l'' ! 0 = 0" "mem' CHR ''r'' ! 0 = 13" "mem' CHR ''l'' ! 1 = 14" "mem' CHR ''r'' ! 1 = 7"
    using at [rule_format, of 0 0] at [rule_format, of 1 0] at [rule_format, of 0 1] at [rule_format, of 1 1]
    by simp_all
  with run show ?thesis unfolding jrx_def by (intro exI conjI)
qed

text \<open>C39: The frame counter of a cycle: the first cycle's counter becomes the origin and is kept
  from then on, and a cycle whose counter is below the origin, as after the 32-bit counter of
  JACK has wrapped around, panics before any sample is moved.\<close>

theorem jack_process_origin:
  assumes "t = ucast (last_frame_time scope)"
    and "f = (case dph_start_frame_idx self of None \<Rightarrow> t | Some f \<Rightarrow> f)"
  shows "if unat t < unat f then jack_process tadv tcur P radv rcur C self scope mem = Some (Inl Overflow)
    else case jack_process tadv tcur P radv rcur C self scope mem of
        Some (Inr (ctl, self', mem')) \<Rightarrow> ctl = Continue \<and> dph_start_frame_idx self' = Some f
      | _ \<Rightarrow> True"
proof (cases "unat t < unat f")
  case True
  then have "strict_sub t f = Inl Overflow" by (simp add: strict_sub_def)
  with True show ?thesis
    unfolding jack_process_def Let_def assms(1) [symmetric] assms(2) [symmetric] by (simp add: obind_def)
next
  case False
  then have "strict_sub t f = Inr (t - f)" by (simp add: strict_sub_def)
  with False show ?thesis
    unfolding jack_process_def Let_def assms(1) [symmetric] assms(2) [symmetric]
    by (auto simp: obind_def split: option.splits sum.splits prod.splits)
qed

theorem jack_process_origin_witness:
  "jack_process GenericCounter_advance GenericCounter_current ring8_producer GenericCounter_advance
      GenericCounter_current ring8_consumer
      \<lparr>dph_txs = [], dph_rxs = [], dph_start_frame_idx = Some 0xFFFFFF00\<rparr>
      \<lparr>n_frames = 256, last_frame_time = 0\<rparr> (\<lambda>_ :: char. []) = Some (Inl Overflow)"
  using jack_process_origin [of 0 "\<lparr>n_frames = 256, last_frame_time = 0\<rparr>" "0xFFFFFF00"
      "\<lparr>dph_txs = [], dph_rxs = [], dph_start_frame_idx = Some 0xFFFFFF00\<rparr>"]
  by simp

end
