(* ===== verification/CoreAudio_Volume.thy ===== *)
theory CoreAudio_Volume
  imports Complex_Main Rust_Prelude
begin

text \<open>
  The volume arithmetic of \<open>syfala_coreaudio/src/lib.rs\<close>: a control stores a linear gain,
  and the host reads and sets it as decibels or as a normalised value between 0 and 1. The
  functions are written over a record of the \<open>f32\<close> operations that the source calls, in
  the order in which it calls them. \<open>exact_f32\<close> is the instance without rounding; there
  \<open>log10\<close> means what the hardware computes for positive arguments only, and a gain that
  was set from a decibel or a normalised value is positive.
\<close>

section \<open>Operations\<close>

record 'f f32_ops =
  f_lit :: "rat \<Rightarrow> 'f"
  f_sub :: "'f \<Rightarrow> 'f \<Rightarrow> 'f"
  f_mul :: "'f \<Rightarrow> 'f \<Rightarrow> 'f"
  f_div :: "'f \<Rightarrow> 'f \<Rightarrow> 'f"
  f_mul_add :: "'f \<Rightarrow> 'f \<Rightarrow> 'f \<Rightarrow> 'f"
  f_powf :: "'f \<Rightarrow> 'f \<Rightarrow> 'f"
  f_log10 :: "'f \<Rightarrow> 'f"
  f_sqrt :: "'f \<Rightarrow> 'f"
  f_min :: "'f \<Rightarrow> 'f \<Rightarrow> 'f"
  f_max :: "'f \<Rightarrow> 'f \<Rightarrow> 'f"
  f_eq :: "'f \<Rightarrow> 'f \<Rightarrow> bool"
  f_to_bits :: "'f \<Rightarrow> u32"
  f_from_bits :: "u32 \<Rightarrow> 'f"
  f_to_f64_bits :: "'f \<Rightarrow> u64"

definition VOL_MIN_DB :: "'f f32_ops \<Rightarrow> 'f" where
  "VOL_MIN_DB F = f_lit F (- 80)"

definition VOL_MAX_DB :: "'f f32_ops \<Rightarrow> 'f" where
  "VOL_MAX_DB F = f_lit F 0"

definition VOL_DB_RANGE :: "'f f32_ops \<Rightarrow> 'f" where
  "VOL_DB_RANGE F = f_sub F (VOL_MAX_DB F) (VOL_MIN_DB F)"

definition sq :: "'f f32_ops \<Rightarrow> 'f \<Rightarrow> 'f" where
  "sq F x = f_mul F x x"

definition db_to_gain :: "'f f32_ops \<Rightarrow> 'f \<Rightarrow> 'f" where
  "db_to_gain F db = f_powf F (f_lit F 10) (f_mul F db (f_lit F (5 / 100)))"

definition gain_to_db :: "'f f32_ops \<Rightarrow> 'f \<Rightarrow> 'f" where
  "gain_to_db F gain = f_mul F (f_lit F 10) (f_log10 F (sq F gain))"

definition linear_remap :: "'f f32_ops \<Rightarrow> 'f \<Rightarrow> 'f \<Rightarrow> 'f \<Rightarrow> 'f \<Rightarrow> 'f \<Rightarrow> 'f" where
  "linear_remap F x x_start x_len y_start y_len =
     (if f_eq F x_len (f_lit F 0) then x_start
      else f_mul_add F (f_sub F x x_start) (f_div F y_len x_len) y_start)"

text \<open>The volumes are the static array \<open>OUTPUT_VOLUME\<close>, passed as a list.\<close>

definition volume_control_db_val :: "'f f32_ops \<Rightarrow> 'f list \<Rightarrow> usize \<Rightarrow> 'f option" where
  "volume_control_db_val F output_volume index =
     (if unat index < length output_volume
      then Some (f_max F (f_min F (gain_to_db F (output_volume ! unat index)) (VOL_MAX_DB F)) (VOL_MIN_DB F))
      else None)"

definition volume_control_norm_val :: "'f f32_ops \<Rightarrow> 'f list \<Rightarrow> usize \<Rightarrow> 'f option" where
  "volume_control_norm_val F output_volume index =
     map_option (\<lambda>db. sq F (linear_remap F db (VOL_MIN_DB F) (VOL_DB_RANGE F) (f_lit F 0) (f_lit F 1)))
       (volume_control_db_val F output_volume index)"

definition norm_to_db :: "'f f32_ops \<Rightarrow> 'f \<Rightarrow> 'f" where
  "norm_to_db F v =
     (let clamped = f_max F (f_min F v (f_lit F 1)) (f_lit F 0);
          skewed = f_sqrt F clamped
      in linear_remap F skewed (f_lit F 0) (f_lit F 1) (VOL_MIN_DB F) (VOL_DB_RANGE F))"

definition norm_to_gain :: "'f f32_ops \<Rightarrow> 'f \<Rightarrow> 'f" where
  "norm_to_gain F v = db_to_gain F (norm_to_db F v)"

definition db_to_norm :: "'f f32_ops \<Rightarrow> 'f \<Rightarrow> 'f" where
  "db_to_norm F db =
     (let clamped = f_max F (f_min F db (VOL_MIN_DB F)) (VOL_MAX_DB F);
          gain = linear_remap F clamped (VOL_MIN_DB F) (VOL_DB_RANGE F) (f_lit F 0) (f_lit F 1)
      in sq F gain)"

section \<open>Exact arithmetic\<close>

text \<open>The bit patterns are of no use here; every number is given the same one.\<close>

definition exact_f32 :: "real f32_ops" where
  "exact_f32 =
     \<lparr>f_lit = of_rat, f_sub = (-), f_mul = (*), f_div = (/),
      f_mul_add = (\<lambda>a b c. a * b + c), f_powf = (powr), f_log10 = log 10, f_sqrt = sqrt,
      f_min = min, f_max = max, f_eq = (=), f_to_bits = (\<lambda>_. 0), f_from_bits = (\<lambda>_. 0),
      f_to_f64_bits = (\<lambda>_. 0)\<rparr>"

named_theorems volume_defs \<open>the volume arithmetic at exact numbers\<close>

lemma exact_f32_simps [volume_defs]:
  "f_lit exact_f32 = of_rat" "f_sub exact_f32 = (-)" "f_mul exact_f32 = (*)"
  "f_div exact_f32 = (/)" "f_mul_add exact_f32 = (\<lambda>a b c. a * b + c)"
  "f_powf exact_f32 = (powr)" "f_log10 exact_f32 = log 10" "f_sqrt exact_f32 = sqrt"
  "f_min exact_f32 = min" "f_max exact_f32 = max" "f_eq exact_f32 = (=)"
  by (simp_all add: exact_f32_def)

lemmas volume_unfold = VOL_MIN_DB_def VOL_MAX_DB_def VOL_DB_RANGE_def sq_def linear_remap_def
  norm_to_db_def norm_to_gain_def db_to_norm_def db_to_gain_def gain_to_db_def

lemma exact_norm_to_db:
  "norm_to_db exact_f32 v = 80 * sqrt (max (min v 1) 0) - 80"
  by (simp add: volume_unfold volume_defs of_rat_minus)

lemma exact_gain_db:
  "gain_to_db exact_f32 (db_to_gain exact_f32 d) = d"
proof -
  have "(10::real) powr (d * (5 / 100)) * 10 powr (d * (5 / 100)) = 10 powr (d / 10)"
    by (simp add: powr_add [symmetric])
  then show ?thesis
    by (simp add: volume_unfold volume_defs of_rat_divide)
qed

text \<open>A control that was set in decibels reads back the value, clamped to its range.\<close>

lemma set_db_get_db:
  assumes "unat i < length vs"
  shows "volume_control_db_val exact_f32 (vs[unat i := db_to_gain exact_f32 d]) i
    = Some (max (min d 0) (- 80))"
  using assms
  by (simp add: volume_control_db_val_def exact_gain_db volume_defs VOL_MIN_DB_def VOL_MAX_DB_def of_rat_minus)

lemma set_norm_get_norm:
  assumes "unat i < length vs"
  shows "volume_control_norm_val exact_f32 (vs[unat i := norm_to_gain exact_f32 v]) i
    = Some (max (min v 1) 0)"
proof -
  define c where "c = max (min v 1) 0"
  have c: "0 \<le> c" "c \<le> 1" by (simp_all add: c_def)
  then have "sqrt c \<le> 1" by simp
  with c have "max (min (80 * sqrt c - 80) 0) (- 80) = 80 * sqrt c - 80"
    by (simp add: min_def max_def)
  with c show ?thesis
    unfolding norm_to_gain_def volume_control_norm_val_def
    using set_db_get_db [OF assms, of "norm_to_db exact_f32 v"]
    by (simp add: exact_norm_to_db c_def [symmetric])
       (simp add: volume_unfold volume_defs of_rat_minus)
qed

text \<open>
  The reverse conversion clamps with its bounds exchanged: every decibel value is
  converted to the normalised value of full volume.
\<close>

lemma db_to_norm_constant: "db_to_norm exact_f32 db = 1"
  by (simp add: volume_unfold volume_defs of_rat_minus)

lemma volume_other_channel:
  assumes "j \<noteq> i"
  shows "volume_control_db_val F (vs[unat i := g]) j = volume_control_db_val F vs j"
    and "volume_control_norm_val F (vs[unat i := g]) j = volume_control_norm_val F vs j"
  using assms by (simp_all add: volume_control_norm_val_def volume_control_db_val_def word_unat_eq_iff)

text \<open>C24: In exact arithmetic a volume control reads back what it was set to, in either unit: a normalised
  value clamped between 0 and 1, a decibel value clamped between -80 and 0; the values of
  the other controls do not change. The conversion that the driver offers from decibels to
  normalised values is not the inverse of this: it gives 1 for every argument.\<close>

theorem volume_round_trip:
  assumes "unat i < length vs"
  shows "volume_control_norm_val exact_f32 (vs[unat i := norm_to_gain exact_f32 v]) i = Some (max (min v 1) 0)
    \<and> volume_control_db_val exact_f32 (vs[unat i := db_to_gain exact_f32 v]) i = Some (max (min v 0) (- 80))
    \<and> (\<forall>j g. j \<noteq> i \<longrightarrow> volume_control_norm_val exact_f32 (vs[unat i := g]) j = volume_control_norm_val exact_f32 vs j)
    \<and> db_to_norm exact_f32 v = 1"
  by (intro conjI allI impI set_norm_get_norm [OF assms] set_db_get_db [OF assms] volume_other_channel(2) db_to_norm_constant)

theorem volume_round_trip_witness:
  "volume_control_norm_val exact_f32 ([1, 1, 1][unat (2 :: u64) := norm_to_gain exact_f32 (1 / 4)]) 2 = Some (1 / 4)"
  using volume_round_trip [of 2 "[1, 1, 1]" "1 / 4"] by simp

end
