(* ===== verification/CoreAudio_Objects.thy ===== *)
theory CoreAudio_Objects
  imports CoreAudio_Volume Sample_Type
begin

text \<open>
  The objects and the life cycle of the driver in \<open>syfala_coreaudio/src/lib.rs\<close>: the
  constants of the crate \<open>coreaudio_sys\<close> as a parameter, the object identifiers, the static
  variables as one state, the factory, the reference count and the operations that only
  check their arguments. An operation that panics aborts the process, because its function
  has the C calling convention; the panic is the left side of the result, and where the
  state matters the model returns it next to the result.
\<close>

unbundle bit_operations_syntax

section \<open>The constants of \<open>coreaudio_sys\<close>\<close>

text \<open>
  The values are generated from Apple's headers and are not in the repository: the record
  of their values is a parameter of the model.
\<close>

record coreaudio_sys =
  kAudioObjectPlugInObject :: u32
  kAudioObjectUnknown :: u32
  kAudioHardwareNoError :: u32
  kAudioHardwareUnspecifiedError :: u32
  kAudioHardwareUnknownPropertyError :: u32
  kAudioHardwareBadPropertySizeError :: u32
  kAudioHardwareIllegalOperationError :: u32
  kAudioHardwareBadObjectError :: u32
  kAudioHardwareUnsupportedOperationError :: u32
  kAudioServerPlugInIOOperationWriteMix :: u32
  kAudioFormatLinearPCM :: u32
  kAudioFormatFlagsNativeFloatPacked :: u32
  kAudioChannelLayoutTag_UseChannelDescriptions :: u32
  kAudioDeviceTransportTypeAVB :: u32
  kAudioStreamTerminalTypeUnknown :: u32
  kAudioObjectPropertyScopeGlobal :: u32
  kAudioObjectPropertyScopeOutput :: u32
  kAudioObjectPropertyElementMain :: u32
  kAudioObjectClassID :: u32
  kAudioPlugInClassID :: u32
  kAudioDeviceClassID :: u32
  kAudioStreamClassID :: u32
  kAudioLevelControlClassID :: u32
  kAudioVolumeControlClassID :: u32
  kAudioBooleanControlClassID :: u32
  kAudioMuteControlClassID :: u32
  kAudioObjectPropertyBaseClass :: u32
  kAudioObjectPropertyClass :: u32
  kAudioObjectPropertyOwner :: u32
  kAudioObjectPropertyName :: u32
  kAudioObjectPropertyManufacturer :: u32
  kAudioObjectPropertyElementName :: u32
  kAudioObjectPropertyOwnedObjects :: u32
  kAudioObjectPropertyControlList :: u32
  kAudioPlugInPropertyDeviceList :: u32
  kAudioPlugInPropertyTranslateUIDToDevice :: u32
  kAudioPlugInPropertyResourceBundle :: u32
  kAudioDevicePropertyDeviceCanBeDefaultDevice :: u32
  kAudioDevicePropertyDeviceCanBeDefaultSystemDevice :: u32
  kAudioDevicePropertyPreferredChannelLayout :: u32
  kAudioDevicePropertySafetyOffset :: u32
  kAudioDevicePropertyLatency :: u32
  kAudioDevicePropertyDeviceUID :: u32
  kAudioDevicePropertyModelUID :: u32
  kAudioDevicePropertyTransportType :: u32
  kAudioDevicePropertyRelatedDevices :: u32
  kAudioDevicePropertyClockDomain :: u32
  kAudioDevicePropertyDeviceIsAlive :: u32
  kAudioDevicePropertyDeviceIsRunning :: u32
  kAudioDevicePropertyNominalSampleRate :: u32
  kAudioDevicePropertyAvailableNominalSampleRates :: u32
  kAudioDevicePropertyIsHidden :: u32
  kAudioDevicePropertyZeroTimeStampPeriod :: u32
  kAudioDevicePropertyStreams :: u32
  kAudioStreamPropertyDirection :: u32
  kAudioStreamPropertyTerminalType :: u32
  kAudioStreamPropertyStartingChannel :: u32
  kAudioStreamPropertyLatency :: u32
  kAudioStreamPropertyAvailableVirtualFormats :: u32
  kAudioStreamPropertyAvailablePhysicalFormats :: u32
  kAudioStreamPropertyVirtualFormat :: u32
  kAudioStreamPropertyPhysicalFormat :: u32
  kAudioStreamPropertyIsActive :: u32
  kAudioControlPropertyScope :: u32
  kAudioControlPropertyElement :: u32
  kAudioLevelControlPropertyScalarValue :: u32
  kAudioLevelControlPropertyDecibelValue :: u32
  kAudioLevelControlPropertyDecibelRange :: u32
  kAudioLevelControlPropertyConvertScalarToDecibels :: u32
  kAudioLevelControlPropertyConvertDecibelsToScalar :: u32
  kAudioBooleanControlPropertyValue :: u32

text \<open>
  The rest of the environment: the address of the static driver object, the strings of
  CoreFoundation (creating one may change the state \<open>'w\<close> of that library), and the
  \<open>f32\<close> operations. Status codes and \<open>HRESULT\<close> are 32-bit patterns.
\<close>

record ('f, 'w) coreaudio_env = coreaudio_sys +
  raw_driver_ptr :: u64
  CFStringCreateWithBytes :: "string \<Rightarrow> 'w \<Rightarrow> u64 \<times> 'w"
  CFStringCompare :: "u64 \<Rightarrow> u64 \<Rightarrow> 'w \<Rightarrow> int"
  kCFCompareEqualTo :: int
  f32 :: "'f f32_ops"

type_synonym AudioObjectID = u32
type_synonym OSStatus = u32
type_synonym HRESULT = u32

record AudioObjectPropertyAddress =
  mSelector :: u32
  mScope :: u32
  mElement :: u32

section \<open>Objects\<close>

definition N_CHANNELS :: u32 where "N_CHANNELS = 16"

text \<open>\<open>f64\<close> numbers are kept as their bit patterns; this one is 48000.\<close>

definition SAMPLE_RATE :: u64 where "SAMPLE_RATE = 0x40E7700000000000"

text \<open>Constant arithmetic is evaluated by the compiler, which refuses an overflow.\<close>

definition N_CONTROLS :: u32 where "N_CONTROLS = (N_CHANNELS + 1) * 2"
definition N_DEVICE_OWNED_OBJS :: u32 where "N_DEVICE_OWNED_OBJS = N_CONTROLS + 1"

definition PLUGIN_ID :: "('f, 'w) coreaudio_env \<Rightarrow> AudioObjectID" where
  "PLUGIN_ID E = kAudioObjectPlugInObject E"
definition DEVICE_ID :: AudioObjectID where "DEVICE_ID = 2"
definition STREAM_ID :: AudioObjectID where "STREAM_ID = 3"
definition FIRST_CTRL_ID :: AudioObjectID where "FIRST_CTRL_ID = 4"
definition LAST_CTRL_ID :: AudioObjectID where "LAST_CTRL_ID = N_CONTROLS + 3"

definition audio_object_is_control :: "AudioObjectID \<Rightarrow> bool" where
  "audio_object_is_control ctrl \<longleftrightarrow> FIRST_CTRL_ID \<le> ctrl \<and> ctrl \<le> LAST_CTRL_ID"

definition control_is_volume :: "AudioObjectID \<Rightarrow> bool" where
  "control_is_volume ctrl \<longleftrightarrow> ctrl AND 1 \<noteq> 0"

definition control_channel_index :: "AudioObjectID \<Rightarrow> u32 rust" where
  "control_channel_index ctrl = rbind (strict_sub ctrl FIRST_CTRL_ID) (\<lambda>n. Inr (n div 2))"

section \<open>The static variables\<close>

text \<open>
  The host's interface is the pointer that \<open>initialize\<close> is given and whether it has a
  \<open>PropertiesChanged\<close> function; the calls of that function are recorded in order.
  \<open>NonZeroU32\<close> is a number, which the code never lets become zero.
\<close>

record host_interface =
  host_ref :: u64
  PropertiesChanged :: bool

record IOInfo =
  n_active_clients :: "u32 option"
  current_frame_timestamp :: u64
  current_host_timestamp :: u64

record ('f, 'w) driver =
  HOST :: "host_interface option"
  PLUGIN_REF_COUNT :: u32
  IS_OUTPUT_STREAM_ACTIVE :: bool
  DEVICE_IO :: IOInfo
  OUTPUT_VOLUME :: "'f list"
  OUTPUT_MUTE :: "bool list"
  cf_world :: 'w
  notified :: "(u64 \<times> AudioObjectID \<times> AudioObjectPropertyAddress list) list"

definition driver_init :: "('f, 'w) coreaudio_env \<Rightarrow> 'w \<Rightarrow> ('f, 'w) driver" where
  "driver_init E w =
     \<lparr>HOST = None, PLUGIN_REF_COUNT = 0, IS_OUTPUT_STREAM_ACTIVE = False,
      DEVICE_IO = \<lparr>n_active_clients = None, current_frame_timestamp = 0, current_host_timestamp = 0\<rparr>,
      OUTPUT_VOLUME = (replicate (unat (N_CHANNELS + 1)) (f_lit (f32 E) 1))[0 := f_lit (f32 E) 0],
      OUTPUT_MUTE = replicate (unat (N_CHANNELS + 1)) False,
      cf_world = w, notified = []\<rparr>"

definition cf_string :: "('f, 'w) coreaudio_env \<Rightarrow> string \<Rightarrow> ('f, 'w) driver \<Rightarrow> (u64 \<times> ('f, 'w) driver) rust" where
  "cf_string E str d =
     (if length str < 2 ^ 63
      then (case CFStringCreateWithBytes E str (cf_world d) of
              (r, w) \<Rightarrow> Inr (r, d\<lparr>cf_world := w\<rparr>))
      else Inl UnwrapErr)"

section \<open>Factory and reference count\<close>

record CFUUIDBytes =
  byte0 :: u8  byte1 :: u8  byte2 :: u8  byte3 :: u8
  byte4 :: u8  byte5 :: u8  byte6 :: u8  byte7 :: u8
  byte8 :: u8  byte9 :: u8  byte10 :: u8  byte11 :: u8
  byte12 :: u8  byte13 :: u8  byte14 :: u8  byte15 :: u8

definition AUDIO_SERVER_PLUGIN_TYPE_UUID :: "u8 list" where
  "AUDIO_SERVER_PLUGIN_TYPE_UUID =
     [0x44, 0x3A, 0xBA, 0xB8, 0xE7, 0xB3, 0x49, 0x1A, 0xB9, 0x85, 0xBE, 0xB9, 0x18, 0x70, 0x30, 0xDB]"

definition I_UNKNOWN_UUID :: "u8 list" where
  "I_UNKNOWN_UUID =
     [0x00, 0x00, 0x00, 0x00, 0x00, 0x00, 0x00, 0x00, 0xC0, 0x00, 0x00, 0x00, 0x00, 0x00, 0x00, 0x46]"

definition ASP_DRIVER_INTERFACE_UUID :: "u8 list" where
  "ASP_DRIVER_INTERFACE_UUID =
     [0xEE, 0xA5, 0x77, 0x3D, 0xCC, 0x43, 0x49, 0xF1, 0x8E, 0x00, 0x8F, 0x96, 0xE7, 0xD2, 0x3B, 0x17]"

definition cfuuid_as_bytes :: "CFUUIDBytes \<Rightarrow> u8 list" where
  "cfuuid_as_bytes b =
     [byte0 b, byte1 b, byte2 b, byte3 b, byte4 b, byte5 b, byte6 b, byte7 b, byte8 b, byte9 b,
      byte10 b, byte11 b, byte12 b, byte13 b, byte14 b, byte15 b]"

text \<open>The argument of \<open>create\<close> is what \<open>CFUUIDGetUUIDBytes\<close> returns; null is 0.\<close>

definition create :: "('f, 'w) coreaudio_env \<Rightarrow> CFUUIDBytes \<Rightarrow> u64" where
  "create E requested_type_uuid =
     (if cfuuid_as_bytes requested_type_uuid = AUDIO_SERVER_PLUGIN_TYPE_UUID then raw_driver_ptr E else 0)"

definition eq_driver_ptr :: "('f, 'w) coreaudio_env \<Rightarrow> u64 \<Rightarrow> bool" where
  "eq_driver_ptr E drv \<longleftrightarrow> drv = raw_driver_ptr E"

definition E_NOINTERFACE :: HRESULT where "E_NOINTERFACE = 0x80000004"

text \<open>
  An output pointer is a flag that says whether it is not null; what is written through it
  is part of the result.
\<close>

definition query_interface ::
    "('f, 'w) coreaudio_env \<Rightarrow> u64 \<Rightarrow> CFUUIDBytes \<Rightarrow> bool \<Rightarrow> ('f, 'w) driver
     \<Rightarrow> HRESULT \<times> u64 option \<times> ('f, 'w) driver" where
  "query_interface E drv in_uuid interface d =
     (if \<not> eq_driver_ptr E drv then (kAudioHardwareBadObjectError E, None, d)
      else if \<not> interface then (kAudioHardwareIllegalOperationError E, None, d)
      else if cfuuid_as_bytes in_uuid \<in> set [I_UNKNOWN_UUID, ASP_DRIVER_INTERFACE_UUID]
      then (kAudioHardwareNoError E, Some (raw_driver_ptr E),
            d\<lparr>PLUGIN_REF_COUNT := PLUGIN_REF_COUNT d + 1\<rparr>)
      else (E_NOINTERFACE, None, d))"

definition add_ref :: "('f, 'w) coreaudio_env \<Rightarrow> u64 \<Rightarrow> ('f, 'w) driver \<Rightarrow> u32 rust \<times> ('f, 'w) driver" where
  "add_ref E drv d =
     (if \<not> eq_driver_ptr E drv then (Inr 0, d)
      else (strict_add (PLUGIN_REF_COUNT d) 1, d\<lparr>PLUGIN_REF_COUNT := PLUGIN_REF_COUNT d + 1\<rparr>))"

definition release :: "('f, 'w) coreaudio_env \<Rightarrow> u64 \<Rightarrow> ('f, 'w) driver \<Rightarrow> u32 rust \<times> ('f, 'w) driver" where
  "release E drv d =
     (if \<not> eq_driver_ptr E drv then (Inr 0, d)
      else (strict_sub (PLUGIN_REF_COUNT d) 1, d\<lparr>PLUGIN_REF_COUNT := PLUGIN_REF_COUNT d - 1\<rparr>))"

section \<open>Initialisation and device management\<close>

definition initialize ::
    "('f, 'w) coreaudio_env \<Rightarrow> u64 \<Rightarrow> host_interface option \<Rightarrow> ('f, 'w) driver \<Rightarrow> OSStatus \<times> ('f, 'w) driver" where
  "initialize E drv host d =
     (if \<not> eq_driver_ptr E drv then (kAudioHardwareBadObjectError E, d)
      else (kAudioHardwareNoError E,
        (case host of
           None \<Rightarrow> d
         | Some host_ptr \<Rightarrow> (case HOST d of None \<Rightarrow> d\<lparr>HOST := Some host_ptr\<rparr> | Some _ \<Rightarrow> d))))"

definition create_device :: "('f, 'w) coreaudio_env \<Rightarrow> u64 \<Rightarrow> OSStatus" where
  "create_device E drv =
     (if \<not> eq_driver_ptr E drv then kAudioHardwareBadObjectError E
      else kAudioHardwareUnsupportedOperationError E)"

definition destroy_device :: "('f, 'w) coreaudio_env \<Rightarrow> u64 \<Rightarrow> AudioObjectID \<Rightarrow> OSStatus" where
  "destroy_device E drv device_object_id =
     (if \<not> eq_driver_ptr E drv then kAudioHardwareBadObjectError E
      else kAudioHardwareUnsupportedOperationError E)"

definition add_device_client :: "('f, 'w) coreaudio_env \<Rightarrow> u64 \<Rightarrow> AudioObjectID \<Rightarrow> OSStatus" where
  "add_device_client E drv device_object_id =
     (if \<not> eq_driver_ptr E drv then kAudioHardwareBadObjectError E
      else if device_object_id \<noteq> DEVICE_ID then kAudioHardwareBadObjectError E
      else kAudioHardwareNoError E)"

definition remove_device_client :: "('f, 'w) coreaudio_env \<Rightarrow> u64 \<Rightarrow> AudioObjectID \<Rightarrow> OSStatus" where
  "remove_device_client E drv device_object_id =
     (if \<not> eq_driver_ptr E drv then kAudioHardwareBadObjectError E
      else if device_object_id \<noteq> DEVICE_ID then kAudioHardwareBadObjectError E
      else kAudioHardwareNoError E)"

definition perform_device_config_change ::
    "('f, 'w) coreaudio_env \<Rightarrow> u64 \<Rightarrow> AudioObjectID \<Rightarrow> u64 \<Rightarrow> OSStatus" where
  "perform_device_config_change E drv device_object_id change_action =
     (if \<not> eq_driver_ptr E drv then kAudioHardwareBadObjectError E
      else if device_object_id \<noteq> DEVICE_ID then kAudioHardwareBadObjectError E
      else kAudioHardwareNoError E)"

definition abort_device_config_change ::
    "('f, 'w) coreaudio_env \<Rightarrow> u64 \<Rightarrow> AudioObjectID \<Rightarrow> u64 \<Rightarrow> OSStatus" where
  "abort_device_config_change E drv device_object_id change_action =
     (if \<not> eq_driver_ptr E drv then kAudioHardwareBadObjectError E
      else if device_object_id \<noteq> DEVICE_ID then kAudioHardwareBadObjectError E
      else kAudioHardwareNoError E)"

section \<open>The object tree\<close>

text \<open>
  The numbering that the comment above the identifiers describes: the plug-in, the device,
  the stream, and for the master (0) and each channel a mute and a volume control.
\<close>

datatype audio_object = PlugInObject | DeviceObject | StreamObject | MuteControl nat | VolumeControl nat

fun object_number :: "audio_object \<Rightarrow> nat" where
  "object_number PlugInObject = 1"
| "object_number DeviceObject = 2"
| "object_number StreamObject = 3"
| "object_number (MuteControl n) = 4 + 2 * n"
| "object_number (VolumeControl n) = 5 + 2 * n"

lemmas object_consts = N_CHANNELS_def N_CONTROLS_def N_DEVICE_OWNED_OBJS_def DEVICE_ID_def STREAM_ID_def
  FIRST_CTRL_ID_def LAST_CTRL_ID_def

lemma is_control_iff: "audio_object_is_control ctrl \<longleftrightarrow> 4 \<le> unat ctrl \<and> unat ctrl \<le> 37"
  by (simp add: audio_object_is_control_def object_consts word_le_nat_alt)

lemma is_volume_iff: "control_is_volume ctrl \<longleftrightarrow> odd (unat ctrl)"
  by (simp add: control_is_volume_def and_one_eq odd_iff_mod_2_eq_one even_iff_mod_2_eq_zero
      word_unat_eq_iff unat_mod)

lemma channel_index:
  assumes "4 \<le> unat ctrl"
  shows "control_channel_index ctrl = Inr (of_nat ((unat ctrl - 4) div 2))"
proof -
  have "unat ctrl < 2 ^ 32" using unsigned_less [of ctrl, where 'a = nat] by simp
  then have "(unat ctrl - 4) div 2 < 2 ^ 32" by simp
  then have "unat (of_nat ((unat ctrl - 4) div 2) :: u32) = (unat ctrl - 4) div 2" by simp
  with assms show ?thesis
    by (simp add: control_channel_index_def FIRST_CTRL_ID_def strict_sub_def word_unat_eq_iff
        unat_div_distrib unat_sub word_le_nat_alt)
qed

lemma control_cases:
  assumes "audio_object_is_control ctrl"
  obtains n where "n \<le> 16" "control_channel_index ctrl = Inr (of_nat n)"
    "unat ctrl = object_number (if control_is_volume ctrl then VolumeControl n else MuteControl n)"
proof
  let ?n = "(unat ctrl - 4) div 2"
  have b: "4 \<le> unat ctrl" "unat ctrl \<le> 37" using assms by (simp_all add: is_control_iff)
  show "?n \<le> 16" using b by simp
  show "control_channel_index ctrl = Inr (of_nat ?n)" by (rule channel_index [OF b(1)])
  show "unat ctrl = object_number (if control_is_volume ctrl then VolumeControl ?n else MuteControl ?n)"
    using b by (auto simp: is_volume_iff elim!: evenE oddE)
qed

lemma control_of_object:
  assumes "n \<le> 16"
  shows "audio_object_is_control (of_nat (4 + 2 * n))" "\<not> control_is_volume (of_nat (4 + 2 * n))"
    "control_channel_index (of_nat (4 + 2 * n)) = Inr (of_nat n)"
    "audio_object_is_control (of_nat (5 + 2 * n))" "control_is_volume (of_nat (5 + 2 * n))"
    "control_channel_index (of_nat (5 + 2 * n)) = Inr (of_nat n)"
proof -
  have u: "unat (of_nat (4 + 2 * n) :: u32) = 4 + 2 * n" "unat (of_nat (5 + 2 * n) :: u32) = 5 + 2 * n"
    using assms by (simp_all only: unat_of_nat take_bit_nat_eq_self) simp_all
  show "audio_object_is_control (of_nat (4 + 2 * n))" "\<not> control_is_volume (of_nat (4 + 2 * n))"
    "audio_object_is_control (of_nat (5 + 2 * n))" "control_is_volume (of_nat (5 + 2 * n))"
    using assms unfolding is_control_iff is_volume_iff u by simp_all
  show "control_channel_index (of_nat (4 + 2 * n)) = Inr (of_nat n)"
    "control_channel_index (of_nat (5 + 2 * n)) = Inr (of_nat n)"
    using channel_index [of "of_nat (4 + 2 * n)"] channel_index [of "of_nat (5 + 2 * n)"]
    unfolding u by simp_all
qed

section \<open>Reference counting\<close>

text \<open>
  Sequences of the calls that change the reference count, made with the right pointers.
  The specification counts references as a natural number and is undefined when a
  reference is released that nobody holds, or when the counter cannot represent the number.
\<close>

datatype ref_event = QueryInterface CFUUIDBytes | AddRef | Release

definition uuid_supported :: "CFUUIDBytes \<Rightarrow> bool" where
  "uuid_supported u \<longleftrightarrow> cfuuid_as_bytes u \<in> set [I_UNKNOWN_UUID, ASP_DRIVER_INTERFACE_UUID]"

fun ref_step :: "('f, 'w) coreaudio_env \<Rightarrow> ref_event \<Rightarrow> ('f, 'w) driver \<Rightarrow> ('f, 'w) driver rust" where
  "ref_step E (QueryInterface u) d = Inr (snd (snd (query_interface E (raw_driver_ptr E) u True d)))"
| "ref_step E AddRef d = (case add_ref E (raw_driver_ptr E) d of (r, d') \<Rightarrow> rbind r (\<lambda>_. Inr d'))"
| "ref_step E Release d = (case release E (raw_driver_ptr E) d of (r, d') \<Rightarrow> rbind r (\<lambda>_. Inr d'))"

fun ref_run :: "('f, 'w) coreaudio_env \<Rightarrow> ref_event list \<Rightarrow> ('f, 'w) driver \<Rightarrow> ('f, 'w) driver rust" where
  "ref_run E [] d = Inr d"
| "ref_run E (e # es) d = rbind (ref_step E e d) (ref_run E es)"

fun refs_after :: "ref_event list \<Rightarrow> nat \<Rightarrow> nat option" where
  "refs_after [] n = Some n"
| "refs_after (Release # es) n = (if n = 0 then None else refs_after es (n - 1))"
| "refs_after (AddRef # es) n = (if n + 1 < 2 ^ 32 then refs_after es (n + 1) else None)"
| "refs_after (QueryInterface u # es) n =
     (if \<not> uuid_supported u then refs_after es n
      else if n + 1 < 2 ^ 32 then refs_after es (n + 1) else None)"

lemma ref_count_run:
  assumes "refs_after evs (unat (PLUGIN_REF_COUNT d)) = Some n"
  shows "ref_run E evs d = Inr (d\<lparr>PLUGIN_REF_COUNT := of_nat n\<rparr>)"
  using assms
proof (induction evs arbitrary: d)
  case Nil
  then show ?case by auto
next
  case (Cons e es)
  let ?c = "PLUGIN_REF_COUNT d"
  show ?case
  proof (cases e)
    case (QueryInterface u)
    then show ?thesis
      using Cons.prems Cons.IH [of "d\<lparr>PLUGIN_REF_COUNT := ?c + 1\<rparr>"] Cons.IH [of d]
      by (auto simp: query_interface_def eq_driver_ptr_def uuid_supported_def unat_plus_1 split: if_splits)
  next
    case AddRef
    then show ?thesis
      using Cons.prems Cons.IH [of "d\<lparr>PLUGIN_REF_COUNT := ?c + 1\<rparr>"]
      by (auto simp: add_ref_def eq_driver_ptr_def strict_add_def unat_plus_1 split: if_splits)
  next
    case Release
    then have nz: "unat ?c \<noteq> 0" using Cons.prems by (auto split: if_splits)
    then have "unat (?c - 1) = unat ?c - 1" by (simp add: unat_sub word_le_nat_alt)
    then show ?thesis
      using nz Release Cons.prems Cons.IH [of "d\<lparr>PLUGIN_REF_COUNT := ?c - 1\<rparr>"]
      by (auto simp: release_def eq_driver_ptr_def strict_sub_def split: if_splits)
  qed
qed

text \<open>C23: As long as every release gives back a reference that is held and the number of references
  fits 32 bits, any sequence of interface queries, retains and releases leaves the counter
  at exactly the number of references held and changes nothing else of the driver. A
  release too many is not refused: it panics, and the counter stands at its largest value
  by then, because it is decremented before it is checked.\<close>

theorem ref_count_refines:
  "(refs_after evs (unat (PLUGIN_REF_COUNT d)) = Some n \<longrightarrow>
      ref_run E evs d = Inr (d\<lparr>PLUGIN_REF_COUNT := of_nat n\<rparr>))
   \<and> (PLUGIN_REF_COUNT d = 0 \<longrightarrow>
      release E (raw_driver_ptr E) d = (Inl Overflow, d\<lparr>PLUGIN_REF_COUNT := - 1\<rparr>))"
  by (simp add: ref_count_run release_def eq_driver_ptr_def strict_sub_def)

section \<open>An environment\<close>

text \<open>
  An instance of the environment: the constants numbered in the order of the record, apart
  from those whose value the source states; a library of strings that are never freed, and
  the arithmetic without rounding.
\<close>

definition numbered_env :: "(real, string list) coreaudio_env" where
  "numbered_env =
     \<lparr>kAudioObjectPlugInObject = 1, kAudioObjectUnknown = 0,
      kAudioHardwareNoError = 0, kAudioHardwareUnspecifiedError = 101,
      kAudioHardwareUnknownPropertyError = 102, kAudioHardwareBadPropertySizeError = 103,
      kAudioHardwareIllegalOperationError = 104, kAudioHardwareBadObjectError = 105,
      kAudioHardwareUnsupportedOperationError = 106, kAudioServerPlugInIOOperationWriteMix = 107,
      kAudioFormatLinearPCM = 108, kAudioFormatFlagsNativeFloatPacked = 109,
      kAudioChannelLayoutTag_UseChannelDescriptions = 110, kAudioDeviceTransportTypeAVB = 111,
      kAudioStreamTerminalTypeUnknown = 112, kAudioObjectPropertyScopeGlobal = 113,
      kAudioObjectPropertyScopeOutput = 114, kAudioObjectPropertyElementMain = 0,
      kAudioObjectClassID = 115, kAudioPlugInClassID = 116,
      kAudioDeviceClassID = 117, kAudioStreamClassID = 118,
      kAudioLevelControlClassID = 119, kAudioVolumeControlClassID = 120,
      kAudioBooleanControlClassID = 121, kAudioMuteControlClassID = 122,
      kAudioObjectPropertyBaseClass = 123, kAudioObjectPropertyClass = 124,
      kAudioObjectPropertyOwner = 125, kAudioObjectPropertyName = 126,
      kAudioObjectPropertyManufacturer = 127, kAudioObjectPropertyElementName = 128,
      kAudioObjectPropertyOwnedObjects = 129, kAudioObjectPropertyControlList = 130,
      kAudioPlugInPropertyDeviceList = 131, kAudioPlugInPropertyTranslateUIDToDevice = 132,
      kAudioPlugInPropertyResourceBundle = 133, kAudioDevicePropertyDeviceCanBeDefaultDevice = 134,
      kAudioDevicePropertyDeviceCanBeDefaultSystemDevice = 135, kAudioDevicePropertyPreferredChannelLayout = 136,
      kAudioDevicePropertySafetyOffset = 137, kAudioDevicePropertyLatency = 138,
      kAudioDevicePropertyDeviceUID = 139, kAudioDevicePropertyModelUID = 140,
      kAudioDevicePropertyTransportType = 141, kAudioDevicePropertyRelatedDevices = 142,
      kAudioDevicePropertyClockDomain = 143, kAudioDevicePropertyDeviceIsAlive = 144,
      kAudioDevicePropertyDeviceIsRunning = 145, kAudioDevicePropertyNominalSampleRate = 146,
      kAudioDevicePropertyAvailableNominalSampleRates = 147, kAudioDevicePropertyIsHidden = 148,
      kAudioDevicePropertyZeroTimeStampPeriod = 149, kAudioDevicePropertyStreams = 150,
      kAudioStreamPropertyDirection = 151, kAudioStreamPropertyTerminalType = 152,
      kAudioStreamPropertyStartingChannel = 153, kAudioStreamPropertyLatency = 154,
      kAudioStreamPropertyAvailableVirtualFormats = 155, kAudioStreamPropertyAvailablePhysicalFormats = 156,
      kAudioStreamPropertyVirtualFormat = 157, kAudioStreamPropertyPhysicalFormat = 158,
      kAudioStreamPropertyIsActive = 159, kAudioControlPropertyScope = 160,
      kAudioControlPropertyElement = 161, kAudioLevelControlPropertyScalarValue = 162,
      kAudioLevelControlPropertyDecibelValue = 163, kAudioLevelControlPropertyDecibelRange = 164,
      kAudioLevelControlPropertyConvertScalarToDecibels = 165, kAudioLevelControlPropertyConvertDecibelsToScalar = 166,
      kAudioBooleanControlPropertyValue = 167,
      raw_driver_ptr = 4096,
      CFStringCreateWithBytes = (\<lambda>str w. (of_nat (length w) + 1, w @ [str])),
      CFStringCompare = (\<lambda>a b w. if w ! (unat a - 1) = w ! (unat b - 1) then 0 else 1),
      kCFCompareEqualTo = 0, f32 = exact_f32\<rparr>"

text \<open>Two references are taken, and both are released.\<close>

theorem ref_count_refines_witness:
  "refs_after [AddRef, AddRef, Release, Release] 0 = Some 0
   \<and> ref_run numbered_env [AddRef, AddRef, Release, Release] (driver_init numbered_env [])
     = Inr (driver_init numbered_env [])
   \<and> fst (release numbered_env (raw_driver_ptr numbered_env) (driver_init numbered_env [])) = Inl Overflow"
  using ref_count_refines [of "[AddRef, AddRef, Release, Release]" "driver_init numbered_env []" 0 numbered_env]
  by (simp add: driver_init_def)

end
