(* ===== verification/CoreAudio_IO.thy ===== *)
theory CoreAudio_IO
  imports CoreAudio_Objects
begin

text \<open>
  The IO side of the driver in \<open>syfala_coreaudio/src/lib.rs\<close>: starting and stopping of
  clients, the zero timestamps that relate sample time to host time, and the IO operations.
  The lock around \<open>IOInfo\<close> is held by one call at a time and a panic aborts the process, so
  that a poisoned lock is never seen; the value of \<open>mach_absolute_time\<close> is an argument of the
  calls that read it. The specification is a number of clients and the time of the last
  start from zero; the driver answers every sequence of calls as the specification does.
\<close>

section \<open>Timestamps\<close>

definition TIMESTAMP_PERIOD_NANOSECS :: u64 where "TIMESTAMP_PERIOD_NANOSECS = 500000000"

text \<open>
  \<open>(500000000 * 48000 / 1e9 + 0.5) as u32\<close>: every intermediate result is exact as an
  \<open>f64\<close>, and the cast truncates.
\<close>

definition FRAMES_PER_TIMESTAMP :: u32 where
  "FRAMES_PER_TIMESTAMP = of_nat ((unat TIMESTAMP_PERIOD_NANOSECS * 48000 * 2 + 10 ^ 9) div (2 * 10 ^ 9))"

text \<open>The arguments are the fields that \<open>mach_timebase_info\<close> fills in.\<close>

definition TICKS_PER_TIMESTAMP :: "u32 \<Rightarrow> u32 \<Rightarrow> u64 rust" where
  "TICKS_PER_TIMESTAMP numer denom =
     rbind (strict_mul TIMESTAMP_PERIOD_NANOSECS (ucast numer)) (\<lambda>p.
     rbind (strict_div p (ucast denom)) (\<lambda>q.
     unwrap (nonzero_new q)))"

text \<open>
  The cast of a \<open>u64\<close> to an \<open>f64\<close>, as the integer that the result stands for: exact up to
  53 bits, rounded to the nearest multiple, ties to even, above.
\<close>

definition bit_length :: "nat \<Rightarrow> nat" where
  "bit_length n = length (takeWhile (\<lambda>k. 2 ^ k \<le> n) [0..<64])"

definition u64_as_f64 :: "u64 \<Rightarrow> nat" where
  "u64_as_f64 x =
     (let n = unat x; b = bit_length n in
      if b \<le> 53 then n
      else let s = b - 53; q = n div 2 ^ s; r = n mod 2 ^ s
           in (if 2 ^ (s - 1) < r \<or> (r = 2 ^ (s - 1) \<and> odd q) then q + 1 else q) * 2 ^ s)"

section \<open>Operations\<close>

definition start_io ::
    "('f, 'w) coreaudio_env \<Rightarrow> u64 \<Rightarrow> AudioObjectID \<Rightarrow> u64 \<Rightarrow> ('f, 'w) driver
     \<Rightarrow> OSStatus \<times> ('f, 'w) driver" where
  "start_io E drv device_id mach_absolute_time d =
     (if \<not> eq_driver_ptr E drv then (kAudioHardwareBadObjectError E, d)
      else if device_id \<noteq> DEVICE_ID then (kAudioHardwareBadObjectError E, d)
      else case n_active_clients (DEVICE_IO d) of
        Some n_clients \<Rightarrow>
          (case checked_add n_clients 1 of
             Some n \<Rightarrow> (kAudioHardwareNoError E, d\<lparr>DEVICE_IO := (DEVICE_IO d)\<lparr>n_active_clients := Some n\<rparr>\<rparr>)
           | None \<Rightarrow> (kAudioHardwareIllegalOperationError E, d))
      | None \<Rightarrow>
          (kAudioHardwareNoError E,
           d\<lparr>DEVICE_IO := \<lparr>n_active_clients = Some 1, current_frame_timestamp = 0,
                            current_host_timestamp = mach_absolute_time\<rparr>\<rparr>))"

definition stop_io ::
    "('f, 'w) coreaudio_env \<Rightarrow> u64 \<Rightarrow> AudioObjectID \<Rightarrow> ('f, 'w) driver
     \<Rightarrow> (OSStatus \<times> ('f, 'w) driver) rust" where
  "stop_io E drv device_id d =
     (if \<not> eq_driver_ptr E drv then Inr (kAudioHardwareBadObjectError E, d)
      else if device_id \<noteq> DEVICE_ID then Inr (kAudioHardwareBadObjectError E, d)
      else case n_active_clients (DEVICE_IO d) of
        None \<Rightarrow> Inr (kAudioHardwareIllegalOperationError E, d)
      | Some n_clients \<Rightarrow>
          rbind (strict_sub n_clients 1) (\<lambda>n.
          Inr (kAudioHardwareNoError E,
            d\<lparr>DEVICE_IO := (DEVICE_IO d)\<lparr>n_active_clients := nonzero_new n\<rparr>\<rparr>)))"

text \<open>
  The three output pointers are not checked: writing through a null pointer is undefined.
  The values written are the sample time, the host time and the seed.
\<close>

definition get_zero_timestamp ::
    "('f, 'w) coreaudio_env \<Rightarrow> u64 rust \<Rightarrow> u64 \<Rightarrow> AudioObjectID \<Rightarrow> bool \<Rightarrow> bool \<Rightarrow> bool
     \<Rightarrow> u64 \<Rightarrow> ('f, 'w) driver \<Rightarrow> (OSStatus \<times> (nat \<times> u64 \<times> u64) option \<times> ('f, 'w) driver) rust" where
  "get_zero_timestamp E ticks drv device_id sample_time host_time seed current_time d =
     (if \<not> eq_driver_ptr E drv then Inr (kAudioHardwareBadObjectError E, None, d)
      else if device_id \<noteq> DEVICE_ID then Inr (kAudioHardwareBadObjectError E, None, d)
      else
        rbind ticks (\<lambda>n_ticks_per_timestamp.
        let device_io = DEVICE_IO d in
        rbind (strict_sub current_time (current_host_timestamp device_io)) (\<lambda>elapsed_time_ticks.
        let n_timestamps_advanced = elapsed_time_ticks div n_ticks_per_timestamp in
        rbind (strict_mul n_ticks_per_timestamp n_timestamps_advanced) (\<lambda>dh.
        rbind (strict_add (current_host_timestamp device_io) dh) (\<lambda>h.
        rbind (strict_mul (ucast FRAMES_PER_TIMESTAMP) n_timestamps_advanced) (\<lambda>df.
        rbind (strict_add (current_frame_timestamp device_io) df) (\<lambda>f.
        if sample_time \<and> host_time \<and> seed
        then Inr (kAudioHardwareNoError E, Some (u64_as_f64 f, h, 1),
               d\<lparr>DEVICE_IO := device_io\<lparr>current_host_timestamp := h, current_frame_timestamp := f\<rparr>\<rparr>)
        else Inl UB)))))))"

definition will_do_io_operation ::
    "('f, 'w) coreaudio_env \<Rightarrow> u64 \<Rightarrow> AudioObjectID \<Rightarrow> u32 \<Rightarrow> bool \<Rightarrow> bool
     \<Rightarrow> OSStatus \<times> bool option \<times> bool option" where
  "will_do_io_operation E drv device_id operation_id will_do will_do_in_place =
     (if \<not> eq_driver_ptr E drv then (kAudioHardwareBadObjectError E, None, None)
      else if device_id \<noteq> DEVICE_ID then (kAudioHardwareBadObjectError E, None, None)
      else
        let (will, will_in_place) =
              (if operation_id = kAudioServerPlugInIOOperationWriteMix E then (True, True) else (False, False))
        in (kAudioHardwareNoError E,
            if will_do then Some will else None,
            if will_do_in_place then Some will_in_place else None))"

definition begin_io_operation :: "('f, 'w) coreaudio_env \<Rightarrow> u64 \<Rightarrow> AudioObjectID \<Rightarrow> u32 \<Rightarrow> u32 \<Rightarrow> OSStatus" where
  "begin_io_operation E drv device_id operation_id io_buffer_frame_size =
     (if \<not> eq_driver_ptr E drv then kAudioHardwareBadObjectError E
      else if device_id \<noteq> DEVICE_ID then kAudioHardwareBadObjectError E
      else kAudioHardwareNoError E)"

definition do_io_operation ::
    "('f, 'w) coreaudio_env \<Rightarrow> u64 \<Rightarrow> AudioObjectID \<Rightarrow> AudioObjectID \<Rightarrow> u32 \<Rightarrow> u32 \<Rightarrow> OSStatus" where
  "do_io_operation E drv device_id stream_id operation_id io_buffer_frame_size =
     (if \<not> eq_driver_ptr E drv then kAudioHardwareBadObjectError E
      else if device_id \<noteq> DEVICE_ID then kAudioHardwareBadObjectError E
      else if stream_id \<noteq> STREAM_ID then kAudioHardwareBadObjectError E
      else kAudioHardwareNoError E)"

definition end_io_operation :: "('f, 'w) coreaudio_env \<Rightarrow> u64 \<Rightarrow> AudioObjectID \<Rightarrow> u32 \<Rightarrow> u32 \<Rightarrow> OSStatus" where
  "end_io_operation E drv device_id operation_id io_buffer_frame_size =
     (if \<not> eq_driver_ptr E drv then kAudioHardwareBadObjectError E
      else if device_id \<noteq> DEVICE_ID then kAudioHardwareBadObjectError E
      else kAudioHardwareNoError E)"

section \<open>Numbers\<close>

lemma frames_per_timestamp [simp]: "unat FRAMES_PER_TIMESTAMP = 24000" "FRAMES_PER_TIMESTAMP = 24000"
  by (simp_all add: FRAMES_PER_TIMESTAMP_def TIMESTAMP_PERIOD_NANOSECS_def)

lemma u64_as_f64_exact:
  assumes "unat x < 2 ^ 53"
  shows "u64_as_f64 x = unat x"
proof -
  have "bit_length (unat x) \<le> 53"
  proof (rule ccontr)
    let ?t = "takeWhile (\<lambda>k. 2 ^ k \<le> unat x) [0..<64]"
    assume "\<not> bit_length (unat x) \<le> 53"
    then have l: "53 < length ?t" by (simp add: bit_length_def)
    then have "?t ! 53 \<in> set ?t" by (rule nth_mem)
    moreover have "?t ! 53 = 53" using takeWhile_nth [OF l] by simp
    ultimately have "2 ^ 53 \<le> unat x" by (metis set_takeWhileD)
    with assms show False by simp
  qed
  then show ?thesis by (simp add: u64_as_f64_def)
qed

text \<open>
  A tick lasts \<open>numer / denom\<close> nanoseconds, so that a period takes \<open>denom / numer\<close> times
  its nanoseconds in ticks; the code uses the inverse ratio. With the time base 125/3 a
  timestamp lasts 20833333333 ticks, 868 seconds, instead of 12000000.
\<close>

lemma ticks_per_timestamp_inverted:
  "TICKS_PER_TIMESTAMP 125 3 = Inr 20833333333"
  "500000000 * 3 div 125 = (12000000 :: nat)"
  by (simp_all add: TICKS_PER_TIMESTAMP_def TIMESTAMP_PERIOD_NANOSECS_def strict_mul_def strict_div_def
      nonzero_new_def)

section \<open>Specification\<close>

text \<open>
  Calls with the right pointers, each with the host time at which it is made. The
  specification keeps the number of clients and the epoch, the host time of the last start
  from zero clients; timestamps lie on the grid of period \<open>T\<close> that starts at the epoch.
\<close>

datatype io_call = StartIO u64 | StopIO u64 | ZeroTimestamp u64

primrec call_time :: "io_call \<Rightarrow> u64" where
  "call_time (StartIO t) = t"
| "call_time (StopIO t) = t"
| "call_time (ZeroTimestamp t) = t"

datatype io_reply = Status OSStatus | Stamp OSStatus nat u64 u64

record io_spec =
  clients :: nat
  epoch :: nat

fun io_spec_step :: "('f, 'w) coreaudio_env \<Rightarrow> nat \<Rightarrow> io_call \<Rightarrow> io_spec \<Rightarrow> io_reply \<times> io_spec" where
  "io_spec_step E T (StartIO t) a =
     (if clients a = 0 then (Status (kAudioHardwareNoError E), \<lparr>clients = 1, epoch = unat t\<rparr>)
      else if clients a + 1 < 2 ^ 32 then (Status (kAudioHardwareNoError E), a\<lparr>clients := clients a + 1\<rparr>)
      else (Status (kAudioHardwareIllegalOperationError E), a))"
| "io_spec_step E T (StopIO t) a =
     (if clients a = 0 then (Status (kAudioHardwareIllegalOperationError E), a)
      else (Status (kAudioHardwareNoError E), a\<lparr>clients := clients a - 1\<rparr>))"
| "io_spec_step E T (ZeroTimestamp t) a =
     (let m = (unat t - epoch a) div T
      in (Stamp (kAudioHardwareNoError E) (u64_as_f64 (of_nat (24000 * m))) (of_nat (epoch a + T * m)) 1, a))"

fun io_step ::
    "('f, 'w) coreaudio_env \<Rightarrow> u64 \<Rightarrow> io_call \<Rightarrow> ('f, 'w) driver \<Rightarrow> (io_reply \<times> ('f, 'w) driver) rust" where
  "io_step E T (StartIO t) d =
     (case start_io E (raw_driver_ptr E) DEVICE_ID t d of (st, d') \<Rightarrow> Inr (Status st, d'))"
| "io_step E T (StopIO t) d =
     rbind (stop_io E (raw_driver_ptr E) DEVICE_ID d) (\<lambda>(st, d'). Inr (Status st, d'))"
| "io_step E T (ZeroTimestamp t) d =
     rbind (get_zero_timestamp E (Inr T) (raw_driver_ptr E) DEVICE_ID True True True t d) (\<lambda>(st, out, d').
       case out of None \<Rightarrow> Inr (Status st, d') | Some (f, h, s) \<Rightarrow> Inr (Stamp st f h s, d'))"

fun io_run ::
    "('f, 'w) coreaudio_env \<Rightarrow> u64 \<Rightarrow> io_call list \<Rightarrow> ('f, 'w) driver \<Rightarrow> (io_reply list \<times> ('f, 'w) driver) rust" where
  "io_run E T [] d = Inr ([], d)"
| "io_run E T (c # cs) d =
     rbind (io_step E T c d) (\<lambda>(r, d'). rbind (io_run E T cs d') (\<lambda>(rs, d''). Inr (r # rs, d'')))"

fun io_spec_run :: "('f, 'w) coreaudio_env \<Rightarrow> nat \<Rightarrow> io_call list \<Rightarrow> io_spec \<Rightarrow> io_reply list \<times> io_spec" where
  "io_spec_run E T [] a = ([], a)"
| "io_spec_run E T (c # cs) a =
     (case io_spec_step E T c a of (r, a') \<Rightarrow>
        (case io_spec_run E T cs a' of (rs, a'') \<Rightarrow> (r # rs, a'')))"

text \<open>
  The simulation: the counter represents the number of clients, and the stored timestamps
  are a point of the grid not later than \<open>now\<close>, the time of the last call.
\<close>

definition io_sim :: "nat \<Rightarrow> nat \<Rightarrow> IOInfo \<Rightarrow> io_spec \<Rightarrow> bool" where
  "io_sim T now io a \<longleftrightarrow>
     n_active_clients io = nonzero_new (of_nat (clients a)) \<and> clients a < 2 ^ 32
     \<and> unat (current_host_timestamp io) \<le> now
     \<and> (\<exists>m. unat (current_host_timestamp io) = epoch a + T * m
           \<and> unat (current_frame_timestamp io) = 24000 * m)"

lemma div_minus_mult:
  fixes x k m :: nat
  assumes "k * m \<le> x" "0 < k"
  shows "(x - k * m) div k = x div k - m"
proof -
  define r where "r = x - k * m"
  then have "x = r + k * m" using assms(1) by simp
  then show ?thesis using assms(2) by (simp add: r_def [symmetric])
qed

lemma zero_timestamp_sim:
  fixes T t :: u64
  assumes T: "24000 \<le> unat T" and sim: "io_sim (unat T) now (DEVICE_IO d) a" and now: "now \<le> unat t"
  defines "M \<equiv> (unat t - epoch a) div unat T"
  shows "get_zero_timestamp E (Inr T) (raw_driver_ptr E) DEVICE_ID True True True t d =
      Inr (kAudioHardwareNoError E, Some (u64_as_f64 (of_nat (24000 * M)), of_nat (epoch a + unat T * M), 1),
        d\<lparr>DEVICE_IO := (DEVICE_IO d)\<lparr>current_host_timestamp := of_nat (epoch a + unat T * M),
                                     current_frame_timestamp := of_nat (24000 * M)\<rparr>\<rparr>)"
    and "epoch a + unat T * M \<le> unat t" and "24000 * M < 2 ^ 64"
proof -
  let ?io = "DEVICE_IO d" and ?T = "unat T"
  from sim obtain m where h: "unat (current_host_timestamp ?io) = epoch a + ?T * m"
    and f: "unat (current_frame_timestamp ?io) = 24000 * m"
    and hn: "unat (current_host_timestamp ?io) \<le> now"
    by (auto simp: io_sim_def)
  have tm: "epoch a + ?T * m \<le> unat t" using h hn now by linarith
  have "?T * M \<le> unat t - epoch a" by (simp add: M_def)
  with tm show le: "epoch a + ?T * M \<le> unat t" by linarith
  have t64: "unat t < 2 ^ 64" using unsigned_less [of t, where 'a = nat] by simp
  have "24000 * M \<le> ?T * M" using T by simp
  with le t64 show f64: "24000 * M < 2 ^ 64" by linarith
  have mM: "m \<le> M"
  proof -
    have "?T * m \<le> unat t - epoch a" using tm by linarith
    then have "?T * m div ?T \<le> M" unfolding M_def by (rule div_le_mono)
    then show ?thesis using T by simp
  qed
  define el where "el = t - current_host_timestamp ?io"
  define n where "n = el div T"
  have el: "unat el = unat t - epoch a - ?T * m" using h tm
    by (simp add: el_def unat_sub word_le_nat_alt)
  have n: "unat n = M - m"
  proof -
    have "unat n = (unat t - epoch a - ?T * m) div ?T" by (simp add: n_def unat_div_distrib el)
    also have "\<dots> = M - m" unfolding M_def using tm T by (intro div_minus_mult) linarith+
    finally show ?thesis .
  qed
  have dh: "unat T * unat n = ?T * M - ?T * m" by (simp add: n diff_mult_distrib2)
  have hh: "epoch a + ?T * m + (?T * M - ?T * m) = epoch a + ?T * M" using mM T by simp
  have df: "24000 * unat n = 24000 * M - 24000 * m" by (simp add: n diff_mult_distrib2)
  have ff: "24000 * m + (24000 * M - 24000 * m) = 24000 * M" using mM by simp
  have sub: "strict_sub t (current_host_timestamp ?io) = Inr el"
    using h tm by (simp add: strict_sub_def el_def)
  have "unat T * unat n < 2 ^ LENGTH(64)" using dh le t64 by simp
  then have mulh: "strict_mul T n = Inr (T * n)" "unat (T * n) = ?T * M - ?T * m"
    using dh by (simp_all add: strict_ok unat_mult_lem [THEN iffD1])
  have addh: "strict_add (current_host_timestamp ?io) (T * n) = Inr (of_nat (epoch a + ?T * M))"
    using le t64 hh by (simp add: strict_add_eq_Inr_iff h mulh(2) unat_of_nat_lt del: of_nat_add of_nat_mult)
  have "unat (24000 :: u64) * unat n < 2 ^ LENGTH(64)" using df f64 by simp
  then have mulf: "strict_mul 24000 n = Inr (24000 * n)" "unat (24000 * n) = 24000 * M - 24000 * m"
    using df by (simp_all add: strict_ok unat_mult_lem [THEN iffD1])
  have addf: "strict_add (current_frame_timestamp ?io) (24000 * n) = Inr (of_nat (24000 * M))"
    using f64 ff by (simp add: strict_add_eq_Inr_iff f mulf(2) unat_of_nat_lt del: of_nat_add of_nat_mult)
  have u: "(ucast (24000 :: u32) :: u64) = 24000" by simp
  show "get_zero_timestamp E (Inr T) (raw_driver_ptr E) DEVICE_ID True True True t d =
      Inr (kAudioHardwareNoError E, Some (u64_as_f64 (of_nat (24000 * M)), of_nat (epoch a + ?T * M), 1),
        d\<lparr>DEVICE_IO := (DEVICE_IO d)\<lparr>current_host_timestamp := of_nat (epoch a + ?T * M),
                                     current_frame_timestamp := of_nat (24000 * M)\<rparr>\<rparr>)"
    unfolding get_zero_timestamp_def eq_driver_ptr_def Let_def frames_per_timestamp(2) u
    by (simp only: rbind_simps sub n_def [symmetric] mulh addh mulf addf simp_thms if_False if_True)
qed

lemma active_clients_cases:
  assumes "io_sim T now io a"
  obtains (idle) "clients a = 0" "n_active_clients io = None"
  | (busy) n where "n_active_clients io = Some n" "unat n = clients a" "clients a \<noteq> 0" "n = of_nat (clients a)"
proof (cases "clients a = 0")
  case True
  with assms show ?thesis by (intro idle) (simp_all add: io_sim_def nonzero_new_def)
next
  case False
  with assms have u: "unat (of_nat (clients a) :: u32) = clients a"
    by (simp add: io_sim_def)
  with False have "(of_nat (clients a) :: u32) \<noteq> 0" by (metis unat_0)
  with assms False u show ?thesis by (intro busy) (simp_all add: io_sim_def nonzero_new_def)
qed

text \<open>The grid of a state that keeps its timestamps is still behind any later time.\<close>

lemma io_sim_later:
  assumes "io_sim T now io a" "now \<le> now'" "n < 2 ^ 32"
  shows "io_sim T now' (io\<lparr>n_active_clients := nonzero_new (of_nat n)\<rparr>) (a\<lparr>clients := n\<rparr>)"
  using assms by (auto simp: io_sim_def)

lemma io_sim_mono: "io_sim T now io a \<Longrightarrow> now \<le> now' \<Longrightarrow> io_sim T now' io a"
  by (auto simp: io_sim_def)

lemma start_io_sim:
  assumes sim: "io_sim (unat T) now (DEVICE_IO d) a" and now: "now \<le> unat t"
  shows "\<exists>io. io_step E T (StartIO t) d = Inr (fst (io_spec_step E (unat T) (StartIO t) a), d\<lparr>DEVICE_IO := io\<rparr>)
    \<and> io_sim (unat T) (unat t) io (snd (io_spec_step E (unat T) (StartIO t) a))"
  using sim
proof (cases rule: active_clients_cases)
  case idle
  then show ?thesis
    by (intro exI [of _ "\<lparr>n_active_clients = Some 1, current_frame_timestamp = 0, current_host_timestamp = t\<rparr>"])
       (simp add: start_io_def eq_driver_ptr_def io_sim_def nonzero_new_def)
next
  case (busy n)
  show ?thesis
  proof (cases "clients a + 1 < 2 ^ 32")
    case True
    have "nonzero_new (of_nat (clients a + 1) :: u32) = Some (n + 1)"
      using True busy(4) unat_of_nat_lt [of "clients a + 1", where 'a = 32]
      by (auto simp: nonzero_new_def)
    with io_sim_later [OF sim now True] True busy show ?thesis
      by (intro exI [of _ "(DEVICE_IO d)\<lparr>n_active_clients := Some (n + 1)\<rparr>"])
         (simp add: start_io_def eq_driver_ptr_def checked_add_def)
  next
    case False
    with io_sim_mono [OF sim now] busy show ?thesis
      by (intro exI [of _ "DEVICE_IO d"]) (simp add: start_io_def eq_driver_ptr_def checked_add_def)
  qed
qed

lemma stop_io_sim:
  assumes sim: "io_sim (unat T) now (DEVICE_IO d) a" and now: "now \<le> unat t"
  shows "\<exists>io. io_step E T (StopIO t) d = Inr (fst (io_spec_step E (unat T) (StopIO t) a), d\<lparr>DEVICE_IO := io\<rparr>)
    \<and> io_sim (unat T) (unat t) io (snd (io_spec_step E (unat T) (StopIO t) a))"
  using sim
proof (cases rule: active_clients_cases)
  case idle
  with io_sim_mono [OF sim now] show ?thesis
    by (intro exI [of _ "DEVICE_IO d"]) (simp add: stop_io_def eq_driver_ptr_def)
next
  case (busy n)
  have b: "clients a - 1 < 2 ^ 32" using sim by (auto simp: io_sim_def)
  have "n - 1 = of_nat (clients a - 1)" using busy by (simp add: of_nat_diff)
  with io_sim_later [OF sim now b] busy show ?thesis
    by (intro exI [of _ "(DEVICE_IO d)\<lparr>n_active_clients := nonzero_new (n - 1)\<rparr>"])
       (simp add: stop_io_def eq_driver_ptr_def strict_sub_def)
qed

lemma zero_timestamp_step_sim:
  assumes T: "24000 \<le> unat T" and sim: "io_sim (unat T) now (DEVICE_IO d) a" and now: "now \<le> unat t"
  shows "\<exists>io. io_step E T (ZeroTimestamp t) d
      = Inr (fst (io_spec_step E (unat T) (ZeroTimestamp t) a), d\<lparr>DEVICE_IO := io\<rparr>)
    \<and> io_sim (unat T) (unat t) io (snd (io_spec_step E (unat T) (ZeroTimestamp t) a))"
proof -
  define M where "M = (unat t - epoch a) div unat T"
  note z = zero_timestamp_sim [OF T sim now, folded M_def]
  let ?io = "(DEVICE_IO d)\<lparr>current_host_timestamp := of_nat (epoch a + unat T * M),
    current_frame_timestamp := of_nat (24000 * M)\<rparr>"
  have "epoch a + unat T * M < 2 ^ 64"
    using z(2) unsigned_less [of t, where 'a = nat] by simp
  then have "io_sim (unat T) (unat t) ?io a"
    using sim z(2,3) by (simp add: io_sim_def del: of_nat_add of_nat_mult)
  then show ?thesis
    by (intro exI [of _ ?io]) (simp add: z(1) M_def [symmetric] Let_def del: of_nat_add of_nat_mult)
qed

lemma io_run_sim:
  assumes "24000 \<le> unat T" and "io_sim (unat T) now (DEVICE_IO d) a"
    and "sorted (now # map (\<lambda>c. unat (call_time c)) cs)"
  shows "\<exists>io. io_run E T cs d = Inr (fst (io_spec_run E (unat T) cs a), d\<lparr>DEVICE_IO := io\<rparr>)
    \<and> io_sim (unat T) (last (now # map (\<lambda>c. unat (call_time c)) cs)) io (snd (io_spec_run E (unat T) cs a))"
  using assms(2,3)
proof (induction cs arbitrary: now d a)
  case Nil
  then show ?case by (intro exI [of _ "DEVICE_IO d"]) auto
next
  case (Cons c cs)
  let ?r = "io_spec_step E (unat T) c a"
  have now: "now \<le> unat (call_time c)" using Cons.prems(2) by simp
  have "\<exists>io. io_step E T c d = Inr (fst ?r, d\<lparr>DEVICE_IO := io\<rparr>) \<and> io_sim (unat T) (unat (call_time c)) io (snd ?r)"
    using start_io_sim [OF Cons.prems(1)] stop_io_sim [OF Cons.prems(1)]
      zero_timestamp_step_sim [OF assms(1) Cons.prems(1)] now
    by (cases c) (simp_all only: call_time.simps)
  then obtain io where io: "io_step E T c d = Inr (fst ?r, d\<lparr>DEVICE_IO := io\<rparr>)"
    "io_sim (unat T) (unat (call_time c)) io (snd ?r)" by blast
  have "sorted (unat (call_time c) # map (\<lambda>c. unat (call_time c)) cs)" using Cons.prems(2) by simp
  with Cons.IH [of "unat (call_time c)" "d\<lparr>DEVICE_IO := io\<rparr>" "snd ?r"] io(2) obtain io' where
    "io_run E T cs (d\<lparr>DEVICE_IO := io\<rparr>) = Inr (fst (io_spec_run E (unat T) cs (snd ?r)), d\<lparr>DEVICE_IO := io'\<rparr>)"
    "io_sim (unat T) (last (unat (call_time c) # map (\<lambda>c. unat (call_time c)) cs)) io'
       (snd (io_spec_run E (unat T) cs (snd ?r)))" by auto
  with io(1) show ?case
    by (intro exI [of _ io']) (simp add: case_prod_beta)
qed

lemma init_sim: "io_sim T 0 (DEVICE_IO (driver_init E w)) \<lparr>clients = 0, epoch = 0\<rparr>"
  by (simp add: io_sim_def driver_init_def nonzero_new_def)

section \<open>Properties\<close>

text \<open>C4: On any sequence of start, stop and timestamp calls at times that do not decrease the driver
  returns without a panic and gives exactly the replies of the specification: the counter
  of clients is exact, one client too many and one stop too many are refused, only the first
  start resets the clock, and every zero timestamp is the one computed directly from the
  time and the epoch, however many timestamps were asked for before. The period must be at
  least as many ticks as frames.\<close>

theorem io_calls_equivalent:
  assumes "24000 \<le> unat T" and "sorted (map (\<lambda>c. unat (call_time c)) cs)"
  shows "\<exists>io. io_run E T cs (driver_init E w) =
    Inr (fst (io_spec_run E (unat T) cs \<lparr>clients = 0, epoch = 0\<rparr>), (driver_init E w)\<lparr>DEVICE_IO := io\<rparr>)"
  using io_run_sim [OF assms(1) init_sim [of "unat T" E w], of cs E] assms(2) by auto

theorem io_calls_equivalent_witness:
  "\<exists>io. io_run numbered_env 30000 [StartIO 7, ZeroTimestamp 60008, StopIO 60009, StopIO 60009]
      (driver_init numbered_env []) =
    Inr (fst (io_spec_run numbered_env 30000 [StartIO 7, ZeroTimestamp 60008, StopIO 60009, StopIO 60009]
           \<lparr>clients = 0, epoch = 0\<rparr>),
         (driver_init numbered_env [])\<lparr>DEVICE_IO := io\<rparr>)"
  using io_calls_equivalent
    [of 30000 "[StartIO 7, ZeroTimestamp 60008, StopIO 60009, StopIO 60009]" numbered_env "[]"]
  by simp

text \<open>C18: After any such sequence a zero timestamp names a host time that is a whole number of periods
  after the epoch and is followed by the present within one period, and a sample time of
  24000 frames for each of those periods.\<close>

theorem zero_timestamp_on_grid:
  assumes "24000 \<le> unat T" and "sorted (map (\<lambda>c. unat (call_time c)) (cs @ [ZeroTimestamp t]))"
  shows "\<exists>rs d m d'. io_run E T cs (driver_init E w) = Inr (rs, d)
    \<and> get_zero_timestamp E (Inr T) (raw_driver_ptr E) DEVICE_ID True True True t d =
        Inr (kAudioHardwareNoError E,
          Some (u64_as_f64 (of_nat (24000 * m)),
                of_nat (epoch (snd (io_spec_run E (unat T) cs \<lparr>clients = 0, epoch = 0\<rparr>)) + unat T * m), 1), d')
    \<and> epoch (snd (io_spec_run E (unat T) cs \<lparr>clients = 0, epoch = 0\<rparr>)) + unat T * m \<le> unat t
    \<and> unat t < epoch (snd (io_spec_run E (unat T) cs \<lparr>clients = 0, epoch = 0\<rparr>)) + unat T * (m + 1)
    \<and> 24000 * m < 2 ^ 64"
proof -
  let ?a = "snd (io_spec_run E (unat T) cs \<lparr>clients = 0, epoch = 0\<rparr>)"
  let ?l = "last (0 # map (\<lambda>c. unat (call_time c)) cs)"
  define M where "M = (unat t - epoch ?a) div unat T"
  have "sorted (0 # map (\<lambda>c. unat (call_time c)) cs)" using assms(2) by (simp add: sorted_append)
  from io_run_sim [OF assms(1) init_sim [of "unat T" E w] this, of E] obtain io where
    run: "io_run E T cs (driver_init E w) = Inr (fst (io_spec_run E (unat T) cs \<lparr>clients = 0, epoch = 0\<rparr>),
      (driver_init E w)\<lparr>DEVICE_IO := io\<rparr>)"
    and sim: "io_sim (unat T) ?l (DEVICE_IO ((driver_init E w)\<lparr>DEVICE_IO := io\<rparr>)) ?a"
    by auto
  have lt: "?l \<le> unat t" using assms(2) by (auto simp: sorted_append last_map)
  note z = zero_timestamp_sim(1) [where E = E, OF assms(1) sim lt, folded M_def]
    zero_timestamp_sim(2,3) [OF assms(1) sim lt, folded M_def]
  have "unat t - epoch ?a < unat T * (M + 1)"
    using assms(1) dividend_less_times_div [of "unat T" "unat t - epoch ?a"] by (simp add: M_def)
  then have "unat t < epoch ?a + unat T * (M + 1)" using z(2) by linarith
  with run z show ?thesis
    by (intro exI [of _ M] exI conjI) assumption+
qed

theorem zero_timestamp_on_grid_witness:
  "\<exists>rs d m d'. io_run numbered_env 30000 [StartIO 7] (driver_init numbered_env []) = Inr (rs, d)
    \<and> get_zero_timestamp numbered_env (Inr 30000) (raw_driver_ptr numbered_env) DEVICE_ID True True True 60008 d =
        Inr (kAudioHardwareNoError numbered_env, Some (u64_as_f64 (of_nat (24000 * m)), of_nat (7 + 30000 * m), 1), d')
    \<and> 7 + 30000 * m \<le> 60008 \<and> 60008 < 7 + 30000 * (m + 1) \<and> 24000 * m < 2 ^ 64"
  using zero_timestamp_on_grid [of 30000 "[StartIO 7]" 60008 numbered_env "[]"]
  by simp

end
