(* ===== verification/CoreAudio_Tables.thy ===== *)
theory CoreAudio_Tables
  imports CoreAudio_IO
begin

text \<open>
  The property tables of the driver in \<open>syfala_coreaudio/src/lib.rs\<close>: for every object the
  properties it has, each with the range of its data size, the function that writes its
  value and, if it can be set, the function that reads a new one. The functions work on
  raw memory that the host lends: a list of bytes, in which an access past the end is
  undefined behaviour. Values lie in memory in the little-endian order of the machines
  that the driver runs on. The locale \<open>property_table\<close> is the contract of a table towards
  the handlers: whenever the buffer has the smallest size of the property, no access
  leaves it.
\<close>

section \<open>Raw memory\<close>

definition ptr_write :: "nat \<Rightarrow> u8 list \<Rightarrow> u8 list \<Rightarrow> u8 list rust" where
  "ptr_write off bs mem =
     (if off + length bs \<le> length mem then Inr (take off mem @ bs @ drop (off + length bs) mem) else Inl UB)"

definition ptr_read :: "nat \<Rightarrow> u8 list \<Rightarrow> u8 list rust" where
  "ptr_read n mem = (if n \<le> length mem then Inr (take n mem) else Inl UB)"

fun write_loop :: "nat \<Rightarrow> usize \<Rightarrow> u8 list list \<Rightarrow> u8 list \<Rightarrow> (usize \<times> u8 list) rust" where
  "write_loop item_size count [] mem = Inr (count, mem)"
| "write_loop item_size count (v # vs) mem =
     rbind (ptr_write (unat count * item_size) v mem) (\<lambda>mem'.
     rbind (strict_add count 1) (\<lambda>count'.
     write_loop item_size count' vs mem'))"

definition size_u32 :: "usize rust \<Rightarrow> u32 rust" where
  "size_u32 m = rbind m (\<lambda>n. if unat n < 2 ^ 32 then Inr (ucast n) else Inl UnwrapErr)"

text \<open>The values are given by their bytes in memory, \<open>item_size\<close> of them each.\<close>

definition write_get_size :: "nat \<Rightarrow> u8 list \<Rightarrow> usize \<Rightarrow> u8 list list \<Rightarrow> (u32 \<times> u8 list) rust" where
  "write_get_size item_size mem bytes_available values =
     (if item_size = 0 then Inl DivZero
      else
        rbind (write_loop item_size 0 (take (unat bytes_available div item_size) values) mem) (\<lambda>(count, mem').
        rbind (size_u32 (strict_mul count (of_nat item_size))) (\<lambda>n. Inr (n, mem'))))"

definition write_once_get_size :: "u8 list \<Rightarrow> u8 list \<Rightarrow> (u32 \<times> u8 list) rust" where
  "write_once_get_size mem v = write_get_size (length v) mem (of_nat (length v)) [v]"

section \<open>Entries of the tables\<close>

datatype ('t, 'u) Qualifier = Needed 't | Unneeded 'u

text \<open>
  The functions of an entry take the object, the address, the size and the bytes of the
  qualifier, and the size and the bytes of the data; a null qualifier is \<open>None\<close>.
\<close>

type_synonym size_fn = "AudioObjectID \<Rightarrow> AudioObjectPropertyAddress \<Rightarrow> (u32 \<times> u32) rust"
type_synonym ('q, 'f, 'w) write_fn =
  "AudioObjectID \<Rightarrow> AudioObjectPropertyAddress \<Rightarrow> u32 \<Rightarrow> 'q \<Rightarrow> u32 \<Rightarrow> u8 list \<Rightarrow> ('f, 'w) driver
   \<Rightarrow> (u32 \<times> u8 list \<times> ('f, 'w) driver) rust"
type_synonym ('q, 'f, 'w) read_fn =
  "AudioObjectID \<Rightarrow> AudioObjectPropertyAddress \<Rightarrow> u32 \<Rightarrow> 'q \<Rightarrow> u32 \<Rightarrow> u8 list \<Rightarrow> ('f, 'w) driver
   \<Rightarrow> ('f, 'w) driver rust"

record ('f, 'w) PropertyData =
  get_data_size :: size_fn
  write_data :: "(size_fn \<times> (u8 list, 'f, 'w) write_fn, (u8 list option, 'f, 'w) write_fn) Qualifier"
  read_data :: "((u8 list, 'f, 'w) read_fn, (u8 list option, 'f, 'w) read_fn) Qualifier option"

definition s_range :: "u32 \<Rightarrow> (u32 \<times> u32) rust" where
  "s_range v = Inr (v, v)"

definition CLASS_ID_SIZE :: u32 where "CLASS_ID_SIZE = 4"
definition OBJECT_ID_SIZE :: u32 where "OBJECT_ID_SIZE = 4"
definition CFSTRING_SIZE :: u32 where "CFSTRING_SIZE = 8"

text \<open>
  Three shapes recur in the tables: a value of a fixed size, a string of CoreFoundation,
  and a list of values of which as many are written as the buffer has room for.
\<close>

definition put_once :: "u8 list \<Rightarrow> u8 list \<Rightarrow> ('f, 'w) driver \<Rightarrow> (u32 \<times> u8 list \<times> ('f, 'w) driver) rust" where
  "put_once v mem d = rbind (write_once_get_size mem v) (\<lambda>(n, mem'). Inr (n, mem', d))"

definition put_items ::
    "nat \<Rightarrow> u8 list list \<Rightarrow> u32 \<Rightarrow> u8 list \<Rightarrow> ('f, 'w) driver \<Rightarrow> (u32 \<times> u8 list \<times> ('f, 'w) driver) rust" where
  "put_items item_size vs data_size mem d =
     rbind (write_get_size item_size mem (ucast data_size) vs) (\<lambda>(n, mem'). Inr (n, mem', d))"

definition value_property :: "u32 \<Rightarrow> u8 list \<Rightarrow> ('f, 'w) PropertyData" where
  "value_property n v =
     \<lparr>get_data_size = \<lambda>_ _. s_range n,
      write_data = Unneeded (\<lambda>_ _ _ _ _ mem d. put_once v mem d),
      read_data = None\<rparr>"

definition string_property :: "('f, 'w) coreaudio_env \<Rightarrow> string \<Rightarrow> ('f, 'w) PropertyData" where
  "string_property E str =
     \<lparr>get_data_size = \<lambda>_ _. s_range CFSTRING_SIZE,
      write_data = Unneeded (\<lambda>_ _ _ _ _ mem d.
        rbind (cf_string E str d) (\<lambda>(r, d'). put_once (to_le_bytes r) mem d')),
      read_data = None\<rparr>"

definition items_property :: "u32 rust \<Rightarrow> nat \<Rightarrow> u8 list list \<Rightarrow> ('f, 'w) PropertyData" where
  "items_property n item_size vs =
     \<lparr>get_data_size = \<lambda>_ _. rbind n s_range,
      write_data = Unneeded (\<lambda>_ _ _ _ out_size mem d. put_items item_size vs out_size mem d),
      read_data = None\<rparr>"

definition no_objects_property :: "('f, 'w) PropertyData" where
  "no_objects_property =
     \<lparr>get_data_size = \<lambda>_ _. rbind (strict_mul OBJECT_ID_SIZE 0) (\<lambda>hi. Inr (0, hi)),
      write_data = Unneeded (\<lambda>_ _ _ _ _ mem d. Inr (0, mem, d)),
      read_data = None\<rparr>"

abbreviation u32_property :: "u32 \<Rightarrow> ('f, 'w) PropertyData" where
  "u32_property v \<equiv> value_property 4 (to_le_bytes v)"

text \<open>The range \<open>FIRST_CTRL_ID..=LAST_CTRL_ID\<close>.\<close>

definition ctrl_ids :: "AudioObjectID list" where
  "ctrl_ids = map of_nat [unat FIRST_CTRL_ID..<unat LAST_CTRL_ID + 1]"

section \<open>The stream format\<close>

record AudioStreamBasicDescription =
  mSampleRate :: u64
  mFormatID :: u32
  mFormatFlags :: u32
  mBytesPerPacket :: u32
  mFramesPerPacket :: u32
  mBytesPerFrame :: u32
  mChannelsPerFrame :: u32
  mBitsPerChannel :: u32
  mReserved :: u32

record AudioValueRange =
  mMinimum :: u64
  mMaximum :: u64

record AudioStreamRangedDescription =
  mFormat :: AudioStreamBasicDescription
  mSampleRateRange :: AudioValueRange

definition FORMAT :: "('f, 'w) coreaudio_env \<Rightarrow> AudioStreamRangedDescription" where
  "FORMAT E =
     \<lparr>mFormat =
        \<lparr>mSampleRate = SAMPLE_RATE, mFormatID = kAudioFormatLinearPCM E,
         mFormatFlags = kAudioFormatFlagsNativeFloatPacked E, mBytesPerPacket = N_CHANNELS * 4,
         mFramesPerPacket = 1, mBytesPerFrame = N_CHANNELS * 4, mChannelsPerFrame = N_CHANNELS,
         mBitsPerChannel = 8 * 4, mReserved = 0\<rparr>,
      mSampleRateRange = \<lparr>mMinimum = SAMPLE_RATE, mMaximum = SAMPLE_RATE\<rparr>\<rparr>"

text \<open>The layout of the C structures, fields in order and without padding.\<close>

definition asbd_bytes :: "AudioStreamBasicDescription \<Rightarrow> u8 list" where
  "asbd_bytes x = to_le_bytes (mSampleRate x) @ to_le_bytes (mFormatID x) @ to_le_bytes (mFormatFlags x)
     @ to_le_bytes (mBytesPerPacket x) @ to_le_bytes (mFramesPerPacket x) @ to_le_bytes (mBytesPerFrame x)
     @ to_le_bytes (mChannelsPerFrame x) @ to_le_bytes (mBitsPerChannel x) @ to_le_bytes (mReserved x)"

definition range_bytes :: "AudioValueRange \<Rightarrow> u8 list" where
  "range_bytes x = to_le_bytes (mMinimum x) @ to_le_bytes (mMaximum x)"

definition ranged_bytes :: "AudioStreamRangedDescription \<Rightarrow> u8 list" where
  "ranged_bytes x = asbd_bytes (mFormat x) @ range_bytes (mSampleRateRange x)"

section \<open>The plug-in\<close>

definition DEVICE_UID :: string where "DEVICE_UID = ''UID''"
definition DEVICE_MODEL_UID :: string where "DEVICE_MODEL_UID = ''ModelUID''"

definition translate_uid_to_device :: "('f, 'w) coreaudio_env \<Rightarrow> (u8 list, 'f, 'w) write_fn" where
  "translate_uid_to_device E obj addr qual_size qual_data out_size mem d =
     rbind (ptr_read 8 qual_data) (\<lambda>q.
     rbind (cf_string E DEVICE_UID d) (\<lambda>(uid, d').
     let compare_res = CFStringCompare E (from_le_bytes q) uid (cf_world d');
         res = (if compare_res = kCFCompareEqualTo E then DEVICE_ID else kAudioObjectUnknown E)
     in rbind (ptr_write 0 (to_le_bytes res) mem) (\<lambda>mem'.
        Inr (OBJECT_ID_SIZE, mem', d'))))"

definition find_plugin_property_data ::
    "('f, 'w) coreaudio_env \<Rightarrow> AudioObjectPropertyAddress \<Rightarrow> ('f, 'w) PropertyData option" where
  "find_plugin_property_data E addr =
     (if mScope addr \<noteq> kAudioObjectPropertyScopeGlobal E \<or> mElement addr \<noteq> kAudioObjectPropertyElementMain E
      then None
      else let sel = mSelector addr in
      if sel = kAudioObjectPropertyBaseClass E then
        Some (value_property CLASS_ID_SIZE (to_le_bytes (kAudioObjectClassID E)))
      else if sel = kAudioObjectPropertyClass E then
        Some (value_property CLASS_ID_SIZE (to_le_bytes (kAudioPlugInClassID E)))
      else if sel = kAudioObjectPropertyOwner E then
        Some (value_property OBJECT_ID_SIZE (to_le_bytes (kAudioObjectUnknown E)))
      else if sel = kAudioObjectPropertyManufacturer E then
        Some (string_property E ''GRAME CNCM'')
      else if sel = kAudioObjectPropertyOwnedObjects E \<or> sel = kAudioPlugInPropertyDeviceList E then
        Some (items_property (strict_mul OBJECT_ID_SIZE 1) 4 [to_le_bytes DEVICE_ID])
      else if sel = kAudioPlugInPropertyTranslateUIDToDevice E then
        Some \<lparr>get_data_size = \<lambda>_ _. s_range OBJECT_ID_SIZE,
              write_data = Needed (\<lambda>_ _. s_range CFSTRING_SIZE, translate_uid_to_device E),
              read_data = None\<rparr>
      else if sel = kAudioPlugInPropertyResourceBundle E then
        Some (string_property E '''')
      else None)"

section \<open>The device\<close>

text \<open>\<open>u32::to_string\<close>\<close>

fun decimal :: "nat \<Rightarrow> string" where
  "decimal n = (if n < 10 then [char_of (48 + n)] else decimal (n div 10) @ [char_of (48 + n mod 10)])"

declare decimal.simps [simp del]

definition element_name :: "('f, 'w) coreaudio_env \<Rightarrow> u32 \<Rightarrow> string" where
  "element_name E elem =
     (if elem = kAudioObjectPropertyElementMain E then ''Master''
      else if 1 \<le> elem \<and> elem \<le> N_CHANNELS then decimal (unat elem)
      else ''<Unknown>'')"

definition element_name_property :: "('f, 'w) coreaudio_env \<Rightarrow> ('f, 'w) PropertyData" where
  "element_name_property E =
     \<lparr>get_data_size = \<lambda>_ _. s_range CFSTRING_SIZE,
      write_data = Unneeded (\<lambda>_ addr _ _ _ mem d.
        rbind (cf_string E (element_name E (mElement addr)) d) (\<lambda>(r, d'). put_once (to_le_bytes r) mem d')),
      read_data = None\<rparr>"

definition in_output_scope :: "('f, 'w) coreaudio_env \<Rightarrow> u32 \<Rightarrow> bool" where
  "in_output_scope E scope \<longleftrightarrow> scope = kAudioObjectPropertyScopeOutput E \<or> scope = kAudioObjectPropertyScopeGlobal E"

text \<open>
  \<open>AudioChannelLayout\<close>: three 32-bit fields and, at offset 12, one description of 20 bytes.
\<close>

definition channel_layout_size :: "u32 rust" where
  "channel_layout_size =
     size_u32 (rbind (strict_mul 20 1) (\<lambda>n. strict_add n 12))"

definition channel_description_bytes :: "('f, 'w) coreaudio_env \<Rightarrow> u8 list" where
  "channel_description_bytes E =
     to_le_bytes (1 :: u32) @ to_le_bytes (0 :: u32)
     @ concat (replicate 3 (to_le_bytes (f_to_bits (f32 E) (f_lit (f32 E) 0))))"

definition preferred_channel_layout :: "('f, 'w) coreaudio_env \<Rightarrow> (u8 list option, 'f, 'w) write_fn" where
  "preferred_channel_layout E obj addr qual_size qual_data out_size mem d =
     rbind (ptr_read 32 mem) (\<lambda>_.
     rbind (ptr_write 0 (to_le_bytes (kAudioChannelLayoutTag_UseChannelDescriptions E)) mem) (\<lambda>mem.
     rbind (ptr_write 4 (to_le_bytes (0 :: u32)) mem) (\<lambda>mem.
     rbind (ptr_write 8 (to_le_bytes (1 :: u32)) mem) (\<lambda>mem.
     rbind (ptr_write 12 (channel_description_bytes E) mem) (\<lambda>mem.
     rbind channel_layout_size (\<lambda>n. Inr (n, mem, d)))))))"

definition device_output_properties ::
    "('f, 'w) coreaudio_env \<Rightarrow> u32 \<Rightarrow> ('f, 'w) PropertyData option" where
  "device_output_properties E sel =
     (if sel = kAudioDevicePropertyDeviceCanBeDefaultDevice E then Some (u32_property 1)
      else if sel = kAudioDevicePropertyDeviceCanBeDefaultSystemDevice E then Some (u32_property 1)
      else if sel = kAudioDevicePropertyPreferredChannelLayout E then
        Some \<lparr>get_data_size = \<lambda>_ _. rbind channel_layout_size s_range,
              write_data = Unneeded (preferred_channel_layout E),
              read_data = None\<rparr>
      else None)"

text \<open>Outside the global and the output scope nothing is written.\<close>

definition scoped_items_property ::
    "('f, 'w) coreaudio_env \<Rightarrow> u32 rust \<Rightarrow> u8 list list \<Rightarrow> ('f, 'w) PropertyData" where
  "scoped_items_property E n vs =
     \<lparr>get_data_size = \<lambda>_ _. rbind n s_range,
      write_data = Unneeded (\<lambda>_ addr _ _ out_size mem d.
        if mScope addr = kAudioObjectPropertyScopeGlobal E \<or> mScope addr = kAudioObjectPropertyScopeOutput E
        then put_items 4 vs out_size mem d
        else Inr (0, mem, d)),
      read_data = None\<rparr>"

definition device_object_properties ::
    "('f, 'w) coreaudio_env \<Rightarrow> u32 \<Rightarrow> ('f, 'w) PropertyData option" where
  "device_object_properties E sel =
     (if sel = kAudioObjectPropertyBaseClass E then
        Some (value_property CLASS_ID_SIZE (to_le_bytes (kAudioObjectClassID E)))
      else if sel = kAudioDevicePropertySafetyOffset E then Some (u32_property 0)
      else if sel = kAudioDevicePropertyLatency E then Some (u32_property 0)
      else if sel = kAudioObjectPropertyClass E then
        Some (value_property CLASS_ID_SIZE (to_le_bytes (kAudioDeviceClassID E)))
      else if sel = kAudioObjectPropertyOwner E then
        Some (value_property OBJECT_ID_SIZE (to_le_bytes (PLUGIN_ID E)))
      else if sel = kAudioObjectPropertyName E then Some (string_property E ''YESSSS'')
      else if sel = kAudioObjectPropertyManufacturer E then Some (string_property E ''GRAME'')
      else if sel = kAudioObjectPropertyOwnedObjects E then
        Some (scoped_items_property E (strict_mul N_DEVICE_OWNED_OBJS OBJECT_ID_SIZE)
                (map to_le_bytes (STREAM_ID # ctrl_ids)))
      else if sel = kAudioObjectPropertyControlList E then
        Some (items_property (strict_mul N_CONTROLS OBJECT_ID_SIZE) 4 (map to_le_bytes ctrl_ids))
      else if sel = kAudioDevicePropertyDeviceUID E then Some (string_property E DEVICE_UID)
      else if sel = kAudioDevicePropertyModelUID E then Some (string_property E DEVICE_MODEL_UID)
      else None)"

text \<open>\<open>Option<NonZeroU32>\<close> is written as its 32-bit representation, in which \<open>None\<close> is zero.\<close>

definition clients_bytes :: "u32 option \<Rightarrow> u8 list" where
  "clients_bytes n = to_le_bytes (case n of None \<Rightarrow> 0 | Some k \<Rightarrow> k)"

definition device_clock_properties ::
    "('f, 'w) coreaudio_env \<Rightarrow> u32 \<Rightarrow> ('f, 'w) PropertyData option" where
  "device_clock_properties E sel =
     (if sel = kAudioDevicePropertyTransportType E then Some (u32_property (kAudioDeviceTransportTypeAVB E))
      else if sel = kAudioDevicePropertyRelatedDevices E then
        Some (items_property (Inr OBJECT_ID_SIZE) 4 [to_le_bytes DEVICE_ID])
      else if sel = kAudioDevicePropertyClockDomain E then Some (u32_property 0)
      else if sel = kAudioDevicePropertyDeviceIsAlive E then Some (u32_property 1)
      else if sel = kAudioDevicePropertyDeviceIsRunning E then
        Some \<lparr>get_data_size = \<lambda>_ _. s_range 4,
              write_data = Unneeded (\<lambda>_ _ _ _ _ mem d.
                put_once (clients_bytes (n_active_clients (DEVICE_IO d))) mem d),
              read_data = None\<rparr>
      else if sel = kAudioDevicePropertyNominalSampleRate E then Some (value_property 8 (to_le_bytes SAMPLE_RATE))
      else if sel = kAudioDevicePropertyAvailableNominalSampleRates E then
        Some (items_property (size_u32 (strict_mul 16 1)) 16 [range_bytes \<lparr>mMinimum = SAMPLE_RATE, mMaximum = SAMPLE_RATE\<rparr>])
      else if sel = kAudioDevicePropertyIsHidden E then Some (u32_property 0)
      else if sel = kAudioDevicePropertyZeroTimeStampPeriod E then Some (u32_property FRAMES_PER_TIMESTAMP)
      else if sel = kAudioDevicePropertyStreams E then
        Some (scoped_items_property E (size_u32 (strict_mul 4 1)) [to_le_bytes STREAM_ID])
      else None)"

text \<open>The first table that has the selector answers.\<close>

definition or_else :: "'a option \<Rightarrow> 'a option \<Rightarrow> 'a option" where
  "or_else x y = (case x of None \<Rightarrow> y | Some v \<Rightarrow> Some v)"

definition find_device_property_data ::
    "('f, 'w) coreaudio_env \<Rightarrow> AudioObjectPropertyAddress \<Rightarrow> ('f, 'w) PropertyData option" where
  "find_device_property_data E addr =
     (let sel = mSelector addr; elem = mElement addr in
      if sel = kAudioObjectPropertyElementName E \<and> 0 \<le> elem \<and> elem \<le> N_CHANNELS
      then Some (element_name_property E)
      else
        or_else (if in_output_scope E (mScope addr) then device_output_properties E sel else None)
        (or_else (device_object_properties E sel)
          (device_clock_properties E sel)))"

section \<open>The stream\<close>

text \<open>
  A change is reported to the host when it is known and has a callback.
\<close>

definition notify ::
    "AudioObjectID \<Rightarrow> AudioObjectPropertyAddress list \<Rightarrow> ('f, 'w) driver \<Rightarrow> ('f, 'w) driver" where
  "notify obj addrs d =
     (case HOST d of
        Some host \<Rightarrow> if PropertiesChanged host then d\<lparr>notified := notified d @ [(host_ref host, obj, addrs)]\<rparr> else d
      | None \<Rightarrow> d)"

definition bool_u32 :: "bool \<Rightarrow> u32" where
  "bool_u32 b = (if b then 1 else 0)"

definition read_stream_active :: "(u8 list option, 'f, 'w) read_fn" where
  "read_stream_active obj addr qual_size qual_data data_size mem d =
     rbind (ptr_read 4 mem) (\<lambda>v.
     let new_state = (from_le_bytes v :: u32) \<noteq> 0
     in Inr (notify obj [addr] (d\<lparr>IS_OUTPUT_STREAM_ACTIVE := new_state\<rparr>)))"

definition find_stream_property_data ::
    "('f, 'w) coreaudio_env \<Rightarrow> AudioObjectPropertyAddress \<Rightarrow> ('f, 'w) PropertyData option" where
  "find_stream_property_data E addr =
     (let sel = mSelector addr in
      if sel = kAudioObjectPropertyBaseClass E then
        Some (value_property CLASS_ID_SIZE (to_le_bytes (kAudioObjectClassID E)))
      else if sel = kAudioObjectPropertyClass E then
        Some (value_property CLASS_ID_SIZE (to_le_bytes (kAudioStreamClassID E)))
      else if sel = kAudioObjectPropertyOwner E then
        Some (value_property OBJECT_ID_SIZE (to_le_bytes DEVICE_ID))
      else if sel = kAudioObjectPropertyOwnedObjects E then Some no_objects_property
      else if sel = kAudioObjectPropertyName E then Some (string_property E ''Output Stream'')
      else if sel = kAudioStreamPropertyDirection E then Some (u32_property 0)
      else if sel = kAudioStreamPropertyTerminalType E then
        Some (u32_property (kAudioStreamTerminalTypeUnknown E))
      else if sel = kAudioStreamPropertyStartingChannel E then Some (u32_property 1)
      else if sel = kAudioStreamPropertyLatency E then Some (u32_property 0)
      else if sel = kAudioStreamPropertyAvailableVirtualFormats E
           \<or> sel = kAudioStreamPropertyAvailablePhysicalFormats E then
        Some (items_property (size_u32 (strict_mul 56 1)) 56 [ranged_bytes (FORMAT E)])
      else if sel = kAudioStreamPropertyVirtualFormat E \<or> sel = kAudioStreamPropertyPhysicalFormat E then
        Some (value_property 40 (asbd_bytes (mFormat (FORMAT E))))
      else if sel = kAudioStreamPropertyIsActive E then
        Some \<lparr>get_data_size = \<lambda>_ _. s_range 4,
              write_data = Unneeded (\<lambda>_ _ _ _ _ mem d.
                put_once (to_le_bytes (bool_u32 (IS_OUTPUT_STREAM_ACTIVE d))) mem d),
              read_data = Some (Unneeded read_stream_active)\<rparr>
      else None)"

section \<open>The controls\<close>

definition control_index :: "AudioObjectID \<Rightarrow> usize rust" where
  "control_index obj = rbind (control_channel_index obj) (\<lambda>c. Inr (ucast c))"

definition read_f32 :: "('f, 'w) coreaudio_env \<Rightarrow> u8 list \<Rightarrow> 'f rust" where
  "read_f32 E mem = rbind (ptr_read 4 mem) (\<lambda>v. Inr (f_from_bits (f32 E) (from_le_bytes v)))"

definition f32_bytes :: "('f, 'w) coreaudio_env \<Rightarrow> 'f \<Rightarrow> u8 list" where
  "f32_bytes E x = to_le_bytes (f_to_bits (f32 E) x)"

definition store_volume :: "usize \<Rightarrow> 'f \<Rightarrow> ('f, 'w) driver \<Rightarrow> ('f, 'w) driver rust" where
  "store_volume idx gain d =
     (if unat idx < length (OUTPUT_VOLUME d)
      then Inr (d\<lparr>OUTPUT_VOLUME := (OUTPUT_VOLUME d)[unat idx := gain]\<rparr>)
      else Inl UnwrapNone)"

definition write_scalar_value :: "('f, 'w) coreaudio_env \<Rightarrow> (u8 list option, 'f, 'w) write_fn" where
  "write_scalar_value E obj addr qual_size qual_data out_size mem d =
     rbind (control_index obj) (\<lambda>ctrl_idx.
     rbind (unwrap (volume_control_norm_val (f32 E) (OUTPUT_VOLUME d) ctrl_idx)) (\<lambda>v.
     put_once (f32_bytes E v) mem d))"

definition read_scalar_value :: "('f, 'w) coreaudio_env \<Rightarrow> (u8 list option, 'f, 'w) read_fn" where
  "read_scalar_value E obj addr qual_size qual_data data_size mem d =
     rbind (control_index obj) (\<lambda>ctrl_idx.
     rbind (read_f32 E mem) (\<lambda>new_norm_val.
     let new_gain = norm_to_gain (f32 E) new_norm_val in
     rbind (store_volume ctrl_idx new_gain d) (\<lambda>d'.
     Inr (notify obj [addr, addr\<lparr>mSelector := kAudioLevelControlPropertyDecibelValue E\<rparr>] d'))))"

definition write_decibel_value :: "('f, 'w) coreaudio_env \<Rightarrow> (u8 list option, 'f, 'w) write_fn" where
  "write_decibel_value E obj addr qual_size qual_data out_size mem d =
     rbind (control_index obj) (\<lambda>ctrl_idx.
     rbind (unwrap (volume_control_db_val (f32 E) (OUTPUT_VOLUME d) ctrl_idx)) (\<lambda>v.
     put_once (f32_bytes E v) mem d))"

definition read_decibel_value :: "('f, 'w) coreaudio_env \<Rightarrow> (u8 list option, 'f, 'w) read_fn" where
  "read_decibel_value E obj addr qual_size qual_data data_size mem d =
     rbind (control_index obj) (\<lambda>ctrl_idx.
     rbind (read_f32 E mem) (\<lambda>new_db_val.
     let new_gain = db_to_gain (f32 E) new_db_val in
     rbind (store_volume ctrl_idx new_gain d) (\<lambda>d'.
     Inr (notify obj [addr, addr\<lparr>mSelector := kAudioLevelControlPropertyScalarValue E\<rparr>] d'))))"

definition convert_property :: "('f, 'w) coreaudio_env \<Rightarrow> ('f \<Rightarrow> 'f) \<Rightarrow> ('f, 'w) PropertyData" where
  "convert_property E conv =
     \<lparr>get_data_size = \<lambda>_ _. s_range 4,
      write_data = Unneeded (\<lambda>_ _ _ _ _ mem d.
        rbind (read_f32 E mem) (\<lambda>v. put_once (f32_bytes E (conv v)) mem d)),
      read_data = None\<rparr>"

definition volume_properties ::
    "('f, 'w) coreaudio_env \<Rightarrow> u32 \<Rightarrow> ('f, 'w) PropertyData option" where
  "volume_properties E sel =
     (if sel = kAudioObjectPropertyBaseClass E then
        Some (value_property CLASS_ID_SIZE (to_le_bytes (kAudioLevelControlClassID E)))
      else if sel = kAudioObjectPropertyClass E then
        Some (value_property CLASS_ID_SIZE (to_le_bytes (kAudioVolumeControlClassID E)))
      else if sel = kAudioLevelControlPropertyScalarValue E then
        Some \<lparr>get_data_size = \<lambda>_ _. s_range 4, write_data = Unneeded (write_scalar_value E),
              read_data = Some (Unneeded (read_scalar_value E))\<rparr>
      else if sel = kAudioLevelControlPropertyDecibelValue E then
        Some \<lparr>get_data_size = \<lambda>_ _. s_range 4, write_data = Unneeded (write_decibel_value E),
              read_data = Some (Unneeded (read_decibel_value E))\<rparr>
      else if sel = kAudioLevelControlPropertyDecibelRange E then
        Some (value_property 16 (range_bytes
          \<lparr>mMinimum = f_to_f64_bits (f32 E) (VOL_MIN_DB (f32 E)),
           mMaximum = f_to_f64_bits (f32 E) (VOL_MAX_DB (f32 E))\<rparr>))
      else if sel = kAudioLevelControlPropertyConvertScalarToDecibels E then
        Some (convert_property E (norm_to_db (f32 E)))
      else if sel = kAudioLevelControlPropertyConvertDecibelsToScalar E then
        Some (convert_property E (db_to_norm (f32 E)))
      else None)"

definition write_mute :: "(u8 list option, 'f, 'w) write_fn" where
  "write_mute obj addr qual_size qual_data out_size mem d =
     rbind (control_index obj) (\<lambda>ctrl_idx.
     if unat ctrl_idx < length (OUTPUT_MUTE d)
     then put_once (to_le_bytes (bool_u32 (OUTPUT_MUTE d ! unat ctrl_idx))) mem d
     else Inl UnwrapNone)"

definition read_mute :: "(u8 list option, 'f, 'w) read_fn" where
  "read_mute obj addr qual_size qual_data data_size mem d =
     rbind (control_index obj) (\<lambda>ctrl_idx.
     rbind (ptr_read 4 mem) (\<lambda>v.
     let new_val = (from_le_bytes v :: u32) in
     if unat ctrl_idx < length (OUTPUT_MUTE d)
     then Inr (notify obj [addr] (d\<lparr>OUTPUT_MUTE := (OUTPUT_MUTE d)[unat ctrl_idx := new_val \<noteq> 0]\<rparr>))
     else Inl UnwrapNone))"

definition mute_properties ::
    "('f, 'w) coreaudio_env \<Rightarrow> u32 \<Rightarrow> ('f, 'w) PropertyData option" where
  "mute_properties E sel =
     (if sel = kAudioObjectPropertyBaseClass E then
        Some (value_property CLASS_ID_SIZE (to_le_bytes (kAudioBooleanControlClassID E)))
      else if sel = kAudioObjectPropertyClass E then
        Some (value_property CLASS_ID_SIZE (to_le_bytes (kAudioMuteControlClassID E)))
      else if sel = kAudioBooleanControlPropertyValue E then
        Some \<lparr>get_data_size = \<lambda>_ _. s_range 4, write_data = Unneeded write_mute,
              read_data = Some (Unneeded read_mute)\<rparr>
      else None)"

definition find_control_property_data ::
    "('f, 'w) coreaudio_env \<Rightarrow> bool \<Rightarrow> usize \<Rightarrow> AudioObjectPropertyAddress \<Rightarrow> ('f, 'w) PropertyData option" where
  "find_control_property_data E is_volume ctrl_index addr =
     (let sel = mSelector addr in
      if sel = kAudioObjectPropertyOwner E then
        Some (value_property OBJECT_ID_SIZE (to_le_bytes DEVICE_ID))
      else if sel = kAudioObjectPropertyOwnedObjects E then Some no_objects_property
      else if sel = kAudioControlPropertyScope E then
        Some (u32_property (kAudioObjectPropertyScopeOutput E))
      else if sel = kAudioControlPropertyElement E then
        Some \<lparr>get_data_size = \<lambda>_ _. s_range 4,
              write_data = Unneeded (\<lambda>obj _ _ _ _ mem d.
                rbind (control_channel_index obj) (\<lambda>ctrl_idx. put_once (to_le_bytes ctrl_idx) mem d)),
              read_data = None\<rparr>
      else if is_volume then volume_properties E sel
      else mute_properties E sel)"

section \<open>Writing to memory\<close>

lemma length_to_le_bytes [simp]:
  "length (to_le_bytes (w8 :: u8)) = 1" "length (to_le_bytes (w32 :: u32)) = 4" "length (to_le_bytes (w64 :: u64)) = 8"
  by (simp_all add: to_le_bytes_def)

lemma length_struct_bytes [simp]:
  "length (asbd_bytes x) = 40" "length (range_bytes r) = 16" "length (ranged_bytes y) = 56"
  "length (clients_bytes n) = 4" "length (f32_bytes E v) = 4" "length (channel_description_bytes E) = 20"
  by (simp_all add: asbd_bytes_def range_bytes_def ranged_bytes_def clients_bytes_def f32_bytes_def
      channel_description_bytes_def numeral_3_eq_3)

text \<open>What the loop leaves in memory: the items one after the other, and the rest as it was.\<close>

lemma write_loop_spec:
  assumes "\<And>v. v \<in> set vs \<Longrightarrow> length v = k" and "(unat c + length vs) * k \<le> length mem"
    and "unat c + length vs < 2 ^ 64"
  shows "write_loop k c vs mem =
    Inr (of_nat (unat c + length vs), take (unat c * k) mem @ concat vs @ drop ((unat c + length vs) * k) mem)"
  using assms
proof (induction vs arbitrary: c mem)
  case Nil
  then show ?case by simp
next
  case (Cons v vs)
  have v: "length v = k" using Cons.prems(1) by simp
  have le: "unat c * k + k \<le> length mem" "unat c * k + k + length vs * k \<le> length mem"
    using Cons.prems(2) by (simp_all add: algebra_simps)
  let ?mem = "take (unat c * k) mem @ v @ drop (unat c * k + k) mem"
  have w: "ptr_write (unat c * k) v mem = Inr ?mem" using v le by (simp add: ptr_write_def)
  have lm: "length ?mem = length mem" using v le by simp
  have u: "unat (c + 1) = Suc (unat c)" using Cons.prems(3) by (intro unat_plus_1) simp
  have a: "strict_add c 1 = Inr (c + 1)" using Cons.prems(3) by (simp add: strict_add_def)
  have "write_loop k (c + 1) vs ?mem =
    Inr (of_nat (unat (c + 1) + length vs),
      take (unat (c + 1) * k) ?mem @ concat vs @ drop ((unat (c + 1) + length vs) * k) ?mem)"
    using Cons.prems(1,3) le(2) by (intro Cons.IH) (simp_all add: u lm [simplified] add_mult_distrib)
  moreover have "take (unat (c + 1) * k) ?mem = take (unat c * k) mem @ v"
    using v le(1) unfolding u by (simp add: min_absorb2)
  moreover have "drop ((unat (c + 1) + length vs) * k) ?mem = drop ((unat c + length (v # vs)) * k) mem"
    using v le(1) unfolding u by (simp add: min_absorb2 add_mult_distrib add.commute add.left_commute)
  ultimately show ?case by (simp only: write_loop.simps w a rbind_simps) (simp add: u)
qed

lemma size_u32_ok: "n < 2 ^ 32 \<Longrightarrow> size_u32 (Inr (of_nat n)) = Inr (of_nat n)"
  by (simp add: size_u32_def word_unat_eq_iff unsigned_ucast_eq take_bit_nat_eq_self)

lemma write_get_size_spec:
  assumes items: "\<And>v. v \<in> set vs \<Longrightarrow> length v = k" and "0 < k"
    and avail: "unat avail \<le> length mem" "unat avail < 2 ^ 32"
  defines "m \<equiv> min (unat avail div k) (length vs)"
  shows "write_get_size k mem avail vs = Inr (of_nat (m * k), concat (take m vs) @ drop (m * k) mem)"
    and "m * k \<le> unat avail"
proof -
  have "m * k \<le> unat avail div k * k" by (simp add: m_def)
  then show mk: "m * k \<le> unat avail" using div_times_less_eq_dividend [of "unat avail" k] by linarith
  have t: "take (unat avail div k) vs = take m vs" "length (take m vs) = m"
    by (auto simp: m_def min_def)
  have "m \<le> m * k" using \<open>0 < k\<close> by simp
  then have m32: "m < 2 ^ 32" "m * k < 2 ^ 32" using mk avail(2) by linarith+
  have "write_loop k 0 (take m vs) mem = Inr (of_nat m, concat (take m vs) @ drop (m * k) mem)"
    using write_loop_spec [of "take m vs" k 0 mem] items in_set_takeD [of _ m vs] mk avail(1) m32(1) t(2)
    by simp
  moreover have "strict_mul (of_nat m) (of_nat k) = Inr (of_nat (m * k) :: u64)"
  proof (cases "m = 0")
    case True
    then show ?thesis by (simp add: strict_mul_def)
  next
    case False
    then have "k \<le> m * k" by simp
    then have "k < 2 ^ 32" using m32(2) by linarith
    then show ?thesis using m32
      by (simp add: strict_mul_eq_Inr_iff del: of_nat_mult)
  qed
  ultimately show "write_get_size k mem avail vs = Inr (of_nat (m * k), concat (take m vs) @ drop (m * k) mem)"
    using \<open>0 < k\<close> size_u32_ok [OF m32(2)] by (simp add: write_get_size_def t(1) del: of_nat_mult)
qed

lemma put_once_spec:
  assumes "length v \<le> length mem" "0 < length v" "length v < 2 ^ 32"
  shows "put_once v mem d = Inr (of_nat (length v), v @ drop (length v) mem, d)"
  using write_get_size_spec(1) [of "[v]" "length v" "of_nat (length v)" mem] assms
  by (simp add: put_once_def write_once_get_size_def del: of_nat_mult)

lemma put_items_spec:
  assumes "\<And>v. v \<in> set vs \<Longrightarrow> length v = k" and "0 < k" and "length mem < 2 ^ 32"
  defines "m \<equiv> min (length mem div k) (length vs)"
  shows "put_items k vs (of_nat (length mem)) mem d = Inr (of_nat (m * k), concat (take m vs) @ drop (m * k) mem, d)"
    and "m * k \<le> length mem" and "m * k \<le> length vs * k"
proof -
  have u: "unat (ucast (of_nat (length mem) :: u32) :: u64) = length mem"
    using assms(3) by (simp add: unsigned_ucast_eq take_bit_nat_eq_self)
  note w = write_get_size_spec [of vs k "ucast (of_nat (length mem) :: u32)" mem, OF assms(1,2), unfolded u, folded m_def]
  show "put_items k vs (of_nat (length mem)) mem d = Inr (of_nat (m * k), concat (take m vs) @ drop (m * k) mem, d)"
    "m * k \<le> length mem"
    using w assms(3) by (simp_all add: put_items_def del: of_nat_mult)
  show "m * k \<le> length vs * k" by (simp add: m_def)
qed

section \<open>The contract of a table\<close>

definition driver_ok :: "('f, 'w) driver \<Rightarrow> bool" where
  "driver_ok d \<longleftrightarrow> length (OUTPUT_VOLUME d) = 17 \<and> length (OUTPUT_MUTE d) = 17"

text \<open>
  A writer that is given at least \<open>lo\<close> bytes writes at most \<open>hi\<close> of them, from the start,
  reports how many, and changes nothing of the driver but the library of strings.
\<close>

definition writer_ok ::
    "u32 \<Rightarrow> u32 \<Rightarrow> (u32 \<Rightarrow> u8 list \<Rightarrow> ('f, 'w) driver \<Rightarrow> (u32 \<times> u8 list \<times> ('f, 'w) driver) rust) \<Rightarrow> bool" where
  "writer_ok lo hi f \<longleftrightarrow>
     (\<forall>mem d. driver_ok d \<longrightarrow> length mem < 2 ^ 32 \<longrightarrow> unat lo \<le> length mem \<longrightarrow>
       (\<exists>out w. f (of_nat (length mem)) mem d =
            Inr (of_nat (length out), out @ drop (length out) mem, d\<lparr>cf_world := w\<rparr>)
          \<and> length out \<le> unat hi \<and> length out \<le> length mem))"

definition reader_ok :: "u32 \<Rightarrow> (u32 \<Rightarrow> u8 list \<Rightarrow> ('f, 'w) driver \<Rightarrow> ('f, 'w) driver rust) \<Rightarrow> bool" where
  "reader_ok lo f \<longleftrightarrow>
     (\<forall>mem d. driver_ok d \<longrightarrow> length mem < 2 ^ 32 \<longrightarrow> unat lo \<le> length mem \<longrightarrow>
       (\<exists>d'. f (of_nat (length mem)) mem d = Inr d' \<and> driver_ok d'
          \<and> HOST d' = HOST d \<and> PLUGIN_REF_COUNT d' = PLUGIN_REF_COUNT d \<and> DEVICE_IO d' = DEVICE_IO d))"

definition entry_ok :: "AudioObjectID \<Rightarrow> AudioObjectPropertyAddress \<Rightarrow> ('f, 'w) PropertyData \<Rightarrow> bool" where
  "entry_ok obj addr p \<longleftrightarrow>
     (\<exists>lo hi. get_data_size p obj addr = Inr (lo, hi) \<and> lo \<le> hi
       \<and> (case write_data p of
            Unneeded f \<Rightarrow> \<forall>qs q. writer_ok lo hi (f obj addr qs q)
          | Needed (qsize, f) \<Rightarrow>
              \<exists>qlo qhi. qsize obj addr = Inr (qlo, qhi)
                \<and> (\<forall>q. unat qlo \<le> length q \<longrightarrow> length q < 2 ^ 32 \<longrightarrow> writer_ok lo hi (f obj addr (of_nat (length q)) q)))
       \<and> (case read_data p of
            None \<Rightarrow> True
          | Some (Unneeded f) \<Rightarrow> lo = hi \<and> (\<forall>qs q. reader_ok lo (f obj addr qs q))
          | Some (Needed f) \<Rightarrow> False))"

named_theorems entry_intros \<open>entries that keep the contract\<close>

lemma writer_okI:
  assumes "\<And>mem d. driver_ok d \<Longrightarrow> length mem < 2 ^ 32 \<Longrightarrow> unat lo \<le> length mem \<Longrightarrow>
    \<exists>out w. f (of_nat (length mem)) mem d = Inr (of_nat (length out), out @ drop (length out) mem, d\<lparr>cf_world := w\<rparr>)
      \<and> length out \<le> unat hi \<and> length out \<le> length mem"
  shows "writer_ok lo hi f"
  using assms by (simp add: writer_ok_def)

lemma put_once_writer:
  assumes "\<And>d :: ('f, 'w) driver. driver_ok d \<Longrightarrow> \<exists>v w. (\<forall>n mem. unat lo \<le> length mem \<longrightarrow> f n mem d = put_once v mem (d\<lparr>cf_world := w\<rparr>))
      \<and> length v = unat lo" and "0 < unat lo"
  shows "writer_ok lo lo (f :: u32 \<Rightarrow> u8 list \<Rightarrow> ('f, 'w) driver \<Rightarrow> _)"
proof (rule writer_okI)
  fix mem :: "u8 list" and d :: "('f, 'w) driver"
  assume d: "driver_ok d" and len: "length mem < 2 ^ 32" "unat lo \<le> length mem"
  from assms(1) [OF d] obtain v w where "\<forall>n mem. unat lo \<le> length mem \<longrightarrow> f n mem d = put_once v mem (d\<lparr>cf_world := w\<rparr>)"
    "length v = unat lo" by (elim exE conjE)
  moreover from this(2) len assms(2)
  have "put_once v mem (d\<lparr>cf_world := w\<rparr>) = Inr (of_nat (length v), v @ drop (length v) mem, d\<lparr>cf_world := w\<rparr>)"
    by (intro put_once_spec) simp_all
  ultimately show "\<exists>out w. f (of_nat (length mem)) mem d =
      Inr (of_nat (length out), out @ drop (length out) mem, d\<lparr>cf_world := w\<rparr>)
      \<and> length out \<le> unat lo \<and> length out \<le> length mem"
    using len(2) by (intro exI [of _ v] exI [of _ w]) simp
qed

lemma value_property_ok [entry_intros]:
  assumes "length v = unat n" "0 < unat n"
  shows "entry_ok obj addr (value_property n v :: ('f, 'w) PropertyData)"
proof -
  have "writer_ok n n (\<lambda>_ mem d. put_once v mem (d :: ('f, 'w) driver))"
  proof (rule put_once_writer [OF _ assms(2)])
    fix d :: "('f, 'w) driver"
    show "\<exists>va w. (\<forall>k mem. unat n \<le> length mem \<longrightarrow> put_once v mem d = put_once va mem (d\<lparr>cf_world := w\<rparr>)) \<and> length va = unat n"
      by (intro exI [of _ v] exI [of _ "cf_world d"]) (simp add: assms)
  qed
  then show ?thesis by (simp add: entry_ok_def value_property_def s_range_def)
qed

lemma string_writer_ok:
  assumes "length str < 2 ^ 63"
  shows "writer_ok 8 8 (\<lambda>_ mem d. rbind (cf_string E str d) (\<lambda>(r, d'). put_once (to_le_bytes r) mem d'))"
proof (rule put_once_writer)
  fix d :: "('a, 'b) driver"
  obtain r w where rw: "CFStringCreateWithBytes E str (cf_world d) = (r, w)" by fastforce
  show "\<exists>v w. (\<forall>n mem. unat (8 :: u32) \<le> length mem \<longrightarrow>
      rbind (cf_string E str d) (\<lambda>(r, d'). put_once (to_le_bytes r) mem d') = put_once v mem (d\<lparr>cf_world := w\<rparr>))
      \<and> length v = unat (8 :: u32)"
    by (intro exI [of _ "to_le_bytes r"] exI [of _ w]) (simp add: cf_string_def rw assms [simplified])
qed simp

lemma string_property_ok [entry_intros]:
  "length str < 2 ^ 63 \<Longrightarrow> entry_ok obj addr (string_property E str)"
  using string_writer_ok [of str E]
  by (simp add: entry_ok_def string_property_def s_range_def CFSTRING_SIZE_def)

lemma length_concat_items:
  assumes "\<And>v. v \<in> set vs \<Longrightarrow> length v = k"
  shows "length (concat vs) = length vs * k"
  using assms by (induction vs) auto

lemma items_writer_ok:
  assumes "\<And>v. v \<in> set vs \<Longrightarrow> length v = k" and "0 < k" and "length vs * k = unat hi"
  shows "writer_ok lo hi (put_items k vs)"
proof (rule writer_okI)
  fix mem :: "u8 list" and d :: "('a, 'b) driver"
  assume "length mem < 2 ^ 32"
  define m where "m = min (length mem div k) (length vs)"
  note p = put_items_spec(1) [of vs k mem d, OF assms(1,2) \<open>length mem < 2 ^ 32\<close>, folded m_def]
    put_items_spec(2,3) [of vs k mem, OF assms(1,2) \<open>length mem < 2 ^ 32\<close>, folded m_def]
  have "length (concat (take m vs)) = m * k"
  proof (subst length_concat_items)
    show "length v = k" if "v \<in> set (take m vs)" for v using that by (intro assms(1)) (rule in_set_takeD)
  qed (simp add: m_def)
  with p assms(3) show "\<exists>out w. put_items k vs (of_nat (length mem)) mem d =
      Inr (of_nat (length out), out @ drop (length out) mem, d\<lparr>cf_world := w\<rparr>)
      \<and> length out \<le> unat hi \<and> length out \<le> length mem"
    by (intro exI [of _ "concat (take m vs)"] exI [of _ "cf_world d"]) (simp del: of_nat_mult length_concat)
qed

lemma items_property_ok [entry_intros]:
  assumes "\<And>v. v \<in> set vs \<Longrightarrow> length v = k" "0 < k" "n = Inr hi" "length vs * k = unat hi"
  shows "entry_ok obj addr (items_property n k vs)"
  using items_writer_ok [of vs k hi hi, OF assms(1,2,4)]
  by (simp add: entry_ok_def items_property_def s_range_def assms(3))

lemma nothing_writer_ok: "writer_ok lo hi (\<lambda>_ mem d. Inr (0, mem, d))"
proof (rule writer_okI)
  fix mem :: "u8 list" and d :: "('a, 'b) driver"
  show "\<exists>out w. Inr (0, mem, d) = Inr (of_nat (length out), out @ drop (length out) mem, d\<lparr>cf_world := w\<rparr>)
      \<and> length out \<le> unat hi \<and> length out \<le> length mem"
    by (intro exI [of _ "[]"] exI [of _ "cf_world d"]) simp
qed

lemma scoped_items_property_ok [entry_intros]:
  assumes "\<And>v. v \<in> set vs \<Longrightarrow> length v = 4" "n = Inr hi" "length vs * 4 = unat hi"
  shows "entry_ok obj addr (scoped_items_property E n vs)"
  using items_writer_ok [of vs 4 hi hi, OF assms(1) _ assms(3)] nothing_writer_ok [of hi hi]
  by (cases "mScope addr = kAudioObjectPropertyScopeGlobal E \<or> mScope addr = kAudioObjectPropertyScopeOutput E")
     (auto simp: entry_ok_def scoped_items_property_def s_range_def assms(2))

lemma no_objects_property_ok [entry_intros]: "entry_ok obj addr no_objects_property"
  using nothing_writer_ok [of 0 0]
  by (simp add: entry_ok_def no_objects_property_def strict_mul_def)

lemma element_name_property_ok [entry_intros]: "entry_ok obj addr (element_name_property E)"
proof -
  have dl: "length (decimal n) \<le> n + 1" for n
  proof (induction n rule: decimal.induct)
    case (1 n)
    then show ?case by (subst decimal.simps) (cases "n < 10"; force)
  qed
  have "length (element_name E (mElement addr)) < 2 ^ 63"
    using dl [of "unat (mElement addr)"] by (auto simp: element_name_def N_CHANNELS_def word_le_nat_alt)
  then show ?thesis
    using string_writer_ok [of "element_name E (mElement addr)" E]
    by (simp add: entry_ok_def element_name_property_def s_range_def CFSTRING_SIZE_def)
qed

lemma translate_uid_ok [entry_intros]:
  "entry_ok obj addr \<lparr>get_data_size = \<lambda>_ _. s_range OBJECT_ID_SIZE,
     write_data = Needed (\<lambda>_ _. s_range CFSTRING_SIZE, translate_uid_to_device E), read_data = None\<rparr>"
proof -
  have uid: "length DEVICE_UID < 9223372036854775808" by (simp add: DEVICE_UID_def)
  have "writer_ok 4 4 (translate_uid_to_device E obj addr qs q)" if "8 \<le> length q" for qs q
  proof (rule writer_okI)
    fix mem :: "u8 list" and d :: "('a, 'b) driver"
    assume mem: "unat (4 :: u32) \<le> length mem"
    obtain r w where rw: "CFStringCreateWithBytes E DEVICE_UID (cf_world d) = (r, w)" by fastforce
    define res where "res = (if CFStringCompare E (from_le_bytes (take 8 q)) r w = kCFCompareEqualTo E
      then DEVICE_ID else kAudioObjectUnknown E)"
    show "\<exists>out w. translate_uid_to_device E obj addr qs q (of_nat (length mem)) mem d =
        Inr (of_nat (length out), out @ drop (length out) mem, d\<lparr>cf_world := w\<rparr>)
        \<and> length out \<le> unat (4 :: u32) \<and> length out \<le> length mem"
      using that mem
      by (intro exI [of _ "to_le_bytes res"] exI [of _ w])
         (simp add: translate_uid_to_device_def ptr_read_def ptr_write_def cf_string_def rw uid
           OBJECT_ID_SIZE_def res_def)
  qed
  then show ?thesis by (simp add: entry_ok_def s_range_def OBJECT_ID_SIZE_def CFSTRING_SIZE_def)
qed

lemma channel_layout_size_eq: "channel_layout_size = Inr 32"
  by (simp add: channel_layout_size_def size_u32_def strict_mul_def strict_add_def)

lemma ptr_write_append:
  "length pre = off \<Longrightarrow> off + length v \<le> length mem \<Longrightarrow>
    ptr_write off v (pre @ drop off mem) = Inr (pre @ v @ drop (off + length v) mem)"
  by (simp add: ptr_write_def add.commute)

lemma channel_layout_ok [entry_intros]:
  "entry_ok obj addr \<lparr>get_data_size = \<lambda>_ _. rbind channel_layout_size s_range,
     write_data = Unneeded (preferred_channel_layout E), read_data = None\<rparr>"
proof -
  define tag where "tag = to_le_bytes (kAudioChannelLayoutTag_UseChannelDescriptions E)"
  define z o' where "z = to_le_bytes (0 :: u32)" and "o' = to_le_bytes (1 :: u32)"
  note bytes = tag_def z_def o'_def
  let ?out = "tag @ z @ o' @ channel_description_bytes E"
  have "writer_ok 32 32 (preferred_channel_layout E obj addr qs q)" for qs q
  proof (rule writer_okI)
    fix mem :: "u8 list" and d :: "('a, 'b) driver"
    assume "unat (32 :: u32) \<le> length mem"
    then have mem: "32 \<le> length mem" by simp
    have "ptr_write 0 tag mem = Inr (tag @ drop 4 mem)"
      using ptr_write_append [of "[]" 0 tag mem] mem by (simp add: bytes)
    moreover have "ptr_write 4 z (tag @ drop 4 mem) = Inr ((tag @ z) @ drop 8 mem)"
      using ptr_write_append [of tag 4 z mem] mem by (simp add: bytes)
    moreover have "ptr_write 8 o' ((tag @ z) @ drop 8 mem) = Inr ((tag @ z @ o') @ drop 12 mem)"
      using ptr_write_append [of "tag @ z" 8 o' mem] mem by (simp add: bytes)
    moreover have "ptr_write 12 (channel_description_bytes E) ((tag @ z @ o') @ drop 12 mem) = Inr (?out @ drop 32 mem)"
      using ptr_write_append [of "tag @ z @ o'" 12 "channel_description_bytes E" mem] mem by (simp add: bytes)
    ultimately have "preferred_channel_layout E obj addr qs q (of_nat (length mem)) mem d = Inr (32, ?out @ drop 32 mem, d)"
      using mem unfolding preferred_channel_layout_def bytes [symmetric]
      by (simp only: ptr_read_def if_True rbind_simps channel_layout_size_eq)
    with mem show "\<exists>out w. preferred_channel_layout E obj addr qs q (of_nat (length mem)) mem d =
        Inr (of_nat (length out), out @ drop (length out) mem, d\<lparr>cf_world := w\<rparr>)
        \<and> length out \<le> unat (32 :: u32) \<and> length out \<le> length mem"
      by (intro exI [of _ ?out] exI [of _ "cf_world d"]) (simp add: bytes)
  qed
  then show ?thesis by (simp add: entry_ok_def s_range_def channel_layout_size_eq)
qed

lemma state_writer_ok:
  assumes "\<And>d n mem. driver_ok d \<Longrightarrow> 4 \<le> length mem \<Longrightarrow> f n mem d = put_once (g d) mem (d :: ('f, 'w) driver)"
    and "\<And>d. length (g d) = 4"
  shows "writer_ok 4 4 (f :: u32 \<Rightarrow> u8 list \<Rightarrow> ('f, 'w) driver \<Rightarrow> _)"
proof (rule put_once_writer)
  fix d :: "('f, 'w) driver"
  assume "driver_ok d"
  then show "\<exists>v w. (\<forall>n mem. unat (4 :: u32) \<le> length mem \<longrightarrow> f n mem d = put_once v mem (d\<lparr>cf_world := w\<rparr>))
      \<and> length v = unat (4 :: u32)"
    by (intro exI [of _ "g d"] exI [of _ "cf_world d"]) (simp add: assms)
qed simp

lemma is_running_ok [entry_intros]:
  "entry_ok obj addr \<lparr>get_data_size = \<lambda>_ _. s_range 4,
     write_data = Unneeded (\<lambda>_ _ _ _ _ mem d. put_once (clients_bytes (n_active_clients (DEVICE_IO d))) mem d),
     read_data = None\<rparr>"
  by (simp add: entry_ok_def s_range_def state_writer_ok [where g = "\<lambda>d. clients_bytes (n_active_clients (DEVICE_IO d))"])

lemma notify_simps [simp]:
  "HOST (notify obj as d) = HOST d" "PLUGIN_REF_COUNT (notify obj as d) = PLUGIN_REF_COUNT d"
  "DEVICE_IO (notify obj as d) = DEVICE_IO d" "OUTPUT_VOLUME (notify obj as d) = OUTPUT_VOLUME d"
  "OUTPUT_MUTE (notify obj as d) = OUTPUT_MUTE d" "cf_world (notify obj as d) = cf_world d"
  "IS_OUTPUT_STREAM_ACTIVE (notify obj as d) = IS_OUTPUT_STREAM_ACTIVE d"
  by (simp_all add: notify_def split: option.split)

lemma driver_ok_notify [simp]: "driver_ok (notify obj as d) = driver_ok d"
  by (simp add: driver_ok_def)

lemma stream_active_ok [entry_intros]:
  "entry_ok obj addr \<lparr>get_data_size = \<lambda>_ _. s_range 4,
     write_data = Unneeded (\<lambda>_ _ _ _ _ mem d. put_once (to_le_bytes (bool_u32 (IS_OUTPUT_STREAM_ACTIVE d))) mem d),
     read_data = Some (Unneeded read_stream_active)\<rparr>"
  by (simp add: entry_ok_def s_range_def reader_ok_def read_stream_active_def ptr_read_def driver_ok_def
      state_writer_ok [where g = "\<lambda>d. to_le_bytes (bool_u32 (IS_OUTPUT_STREAM_ACTIVE d))"])

lemma control_index_ok:
  assumes "audio_object_is_control obj"
  obtains i where "control_index obj = Inr i" "unat i < 17" "control_channel_index obj = Inr (ucast i)"
proof -
  from assms obtain n where n: "n \<le> 16" "control_channel_index obj = Inr (of_nat n)"
    by (rule control_cases)
  have u: "ucast (of_nat n :: u32) = (of_nat n :: u64)" "ucast (of_nat n :: u64) = (of_nat n :: u32)"
    using n(1) by (simp_all add: word_unat_eq_iff unsigned_ucast_eq take_bit_nat_eq_self)
  show ?thesis
    by (rule that [of "of_nat n"]) (use n in \<open>simp_all add: control_index_def u\<close>)
qed

lemma control_element_ok [entry_intros]:
  assumes "audio_object_is_control obj"
  shows "entry_ok obj addr \<lparr>get_data_size = \<lambda>_ _. s_range 4,
     write_data = Unneeded (\<lambda>obj _ _ _ _ mem d.
       rbind (control_channel_index obj) (\<lambda>ctrl_idx. put_once (to_le_bytes ctrl_idx) mem d)),
     read_data = None\<rparr>"
  using assms
proof (rule control_index_ok)
  fix i :: usize
  assume "control_channel_index obj = Inr (ucast i)"
  then show ?thesis
    by (simp add: entry_ok_def s_range_def state_writer_ok [where g = "\<lambda>_. to_le_bytes (ucast i :: u32)"])
qed

lemma convert_property_ok [entry_intros]:
  fixes E :: "('f, 'w) coreaudio_env"
  shows "entry_ok obj addr (convert_property E conv)"
proof -
  have "writer_ok 4 4 (\<lambda>_ mem (d :: ('f, 'w) driver). rbind (read_f32 E mem) (\<lambda>v. put_once (f32_bytes E (conv v)) mem d))"
  proof (rule writer_okI)
    fix mem :: "u8 list" and d :: "('f, 'w) driver"
    assume "unat (4 :: u32) \<le> length mem"
    then show "\<exists>out w. rbind (read_f32 E mem) (\<lambda>v. put_once (f32_bytes E (conv v)) mem d) =
        Inr (of_nat (length out), out @ drop (length out) mem, d\<lparr>cf_world := w\<rparr>)
        \<and> length out \<le> unat (4 :: u32) \<and> length out \<le> length mem"
      by (intro exI [of _ "f32_bytes E (conv (f_from_bits (f32 E) (from_le_bytes (take 4 mem))))"] exI [of _ "cf_world d"])
         (simp add: read_f32_def ptr_read_def put_once_spec)
  qed
  then show ?thesis by (simp add: entry_ok_def convert_property_def s_range_def)
qed

lemma volume_value_ok:
  "driver_ok d \<Longrightarrow> unat i < 17 \<Longrightarrow> \<exists>v. volume_control_db_val F (OUTPUT_VOLUME d) i = Some v"
  "driver_ok d \<Longrightarrow> unat i < 17 \<Longrightarrow> \<exists>v. volume_control_norm_val F (OUTPUT_VOLUME d) i = Some v"
  by (simp_all add: volume_control_norm_val_def volume_control_db_val_def driver_ok_def)

lemma volume_entries_ok [entry_intros]:
  assumes "audio_object_is_control obj"
  shows "entry_ok obj addr \<lparr>get_data_size = \<lambda>_ _. s_range 4, write_data = Unneeded (write_scalar_value E),
      read_data = Some (Unneeded (read_scalar_value E))\<rparr>"
    and "entry_ok obj addr \<lparr>get_data_size = \<lambda>_ _. s_range 4, write_data = Unneeded (write_decibel_value E),
      read_data = Some (Unneeded (read_decibel_value E))\<rparr>"
proof -
  from assms obtain i where i: "control_index obj = Inr i" "unat i < 17" by (rule control_index_ok)
  have "writer_ok 4 4 (write_scalar_value E obj addr qs q)" for qs q
    by (rule state_writer_ok [where g = "\<lambda>d. f32_bytes E (the (volume_control_norm_val (f32 E) (OUTPUT_VOLUME d) i))"])
       (use volume_value_ok(2) [OF _ i(2), of _ "f32 E"] in \<open>fastforce simp: write_scalar_value_def i(1)\<close>, simp)
  moreover have "writer_ok 4 4 (write_decibel_value E obj addr qs q)" for qs q
    by (rule state_writer_ok [where g = "\<lambda>d. f32_bytes E (the (volume_control_db_val (f32 E) (OUTPUT_VOLUME d) i))"])
       (use volume_value_ok(1) [OF _ i(2), of _ "f32 E"] in \<open>fastforce simp: write_decibel_value_def i(1)\<close>, simp)
  moreover have "reader_ok 4 (read_scalar_value E obj addr qs q)" "reader_ok 4 (read_decibel_value E obj addr qs q)" for qs q
    using i by (simp_all add: reader_ok_def read_scalar_value_def read_decibel_value_def read_f32_def ptr_read_def
        store_volume_def driver_ok_def)
  ultimately show "entry_ok obj addr \<lparr>get_data_size = \<lambda>_ _. s_range 4, write_data = Unneeded (write_scalar_value E),
      read_data = Some (Unneeded (read_scalar_value E))\<rparr>"
    "entry_ok obj addr \<lparr>get_data_size = \<lambda>_ _. s_range 4, write_data = Unneeded (write_decibel_value E),
      read_data = Some (Unneeded (read_decibel_value E))\<rparr>"
    by (simp_all add: entry_ok_def s_range_def)
qed

lemma mute_entry_ok [entry_intros]:
  assumes "audio_object_is_control obj"
  shows "entry_ok obj addr (\<lparr>get_data_size = \<lambda>_ _. s_range 4, write_data = Unneeded write_mute,
      read_data = Some (Unneeded read_mute)\<rparr> :: ('f, 'w) PropertyData)"
proof -
  from assms obtain i where i: "control_index obj = Inr i" "unat i < 17" by (rule control_index_ok)
  have "writer_ok 4 4 (write_mute obj addr qs q :: u32 \<Rightarrow> u8 list \<Rightarrow> ('f, 'w) driver \<Rightarrow> _)" for qs q
    by (rule state_writer_ok [where g = "\<lambda>d. to_le_bytes (bool_u32 (OUTPUT_MUTE d ! unat i))"])
       (use i in \<open>simp_all add: write_mute_def driver_ok_def\<close>)
  moreover have "reader_ok 4 (read_mute obj addr qs q :: u32 \<Rightarrow> u8 list \<Rightarrow> ('f, 'w) driver \<Rightarrow> _)" for qs q
    using i by (simp add: reader_ok_def read_mute_def ptr_read_def driver_ok_def)
  ultimately show ?thesis by (simp add: entry_ok_def s_range_def)
qed

section \<open>Interface to the handlers\<close>

text \<open>
  What the handlers do with an entry once it is found: the second half of
  \<open>get_property_data\<close> and of \<open>set_property_data\<close>. The values are the status, the size
  written, the buffer and the driver.
\<close>

definition get_entry_data ::
    "('f, 'w) coreaudio_env \<Rightarrow> ('f, 'w) PropertyData \<Rightarrow> AudioObjectID \<Rightarrow> AudioObjectPropertyAddress
     \<Rightarrow> u32 \<Rightarrow> u8 list option \<Rightarrow> u32 \<Rightarrow> u8 list \<Rightarrow> ('f, 'w) driver
     \<Rightarrow> (OSStatus \<times> u32 option \<times> u8 list \<times> ('f, 'w) driver) rust" where
  "get_entry_data E p obj addr qual_size qual_data data_size mem d =
     rbind (get_data_size p obj addr) (\<lambda>(lo, hi).
     if data_size < lo then Inr (kAudioHardwareBadPropertySizeError E, None, mem, d)
     else case write_data p of
       Needed (get_qual_size, write) \<Rightarrow>
         (case qual_data of
            None \<Rightarrow> Inr (kAudioHardwareIllegalOperationError E, None, mem, d)
          | Some q \<Rightarrow>
              rbind (get_qual_size obj addr) (\<lambda>(qlo, qhi).
              if qual_size < qlo then Inr (kAudioHardwareBadPropertySizeError E, None, mem, d)
              else rbind (write obj addr qual_size q data_size mem d) (\<lambda>(n, mem', d').
                Inr (kAudioHardwareNoError E, Some n, mem', d'))))
     | Unneeded write \<Rightarrow>
         rbind (write obj addr qual_size qual_data data_size mem d) (\<lambda>(n, mem', d').
           Inr (kAudioHardwareNoError E, Some n, mem', d')))"

definition set_entry_data ::
    "('f, 'w) coreaudio_env \<Rightarrow> ('f, 'w) PropertyData \<Rightarrow> AudioObjectID \<Rightarrow> AudioObjectPropertyAddress
     \<Rightarrow> u32 \<Rightarrow> u8 list option \<Rightarrow> u32 \<Rightarrow> u8 list \<Rightarrow> ('f, 'w) driver
     \<Rightarrow> (OSStatus \<times> ('f, 'w) driver) rust" where
  "set_entry_data E p obj addr qual_size qual_data data_size mem d =
     rbind (get_data_size p obj addr) (\<lambda>(lo, hi).
     if data_size < lo then Inr (kAudioHardwareBadPropertySizeError E, d)
     else case read_data p of
       None \<Rightarrow> Inr (kAudioHardwareUnknownPropertyError E, d)
     | Some (Needed f) \<Rightarrow>
         (case qual_data of
            None \<Rightarrow> Inr (kAudioHardwareNoError E, d)
          | Some q \<Rightarrow> rbind (f obj addr qual_size q data_size mem d) (\<lambda>d'. Inr (kAudioHardwareNoError E, d')))
     | Some (Unneeded f) \<Rightarrow>
         rbind (f obj addr qual_size qual_data data_size mem d) (\<lambda>d'. Inr (kAudioHardwareNoError E, d')))"

text \<open>
  A safe answer: no panic and no access outside the buffer; an error leaves the buffer
  alone; otherwise the bytes counted are written from the start of the buffer, no more
  than the upper end \<open>hi\<close> of the size range, and the rest is untouched.
\<close>

definition safe_answer ::
    "u32 \<Rightarrow> u8 list \<Rightarrow> ('f, 'w) driver \<Rightarrow> (OSStatus \<times> u32 option \<times> u8 list \<times> ('f, 'w) driver) rust \<Rightarrow> bool" where
  "safe_answer hi mem d r \<longleftrightarrow>
     (\<exists>st k out w. r = Inr (st, k, out @ drop (length out) mem, d\<lparr>cf_world := w\<rparr>)
        \<and> length out \<le> length mem
        \<and> (case k of None \<Rightarrow> out = [] | Some k \<Rightarrow> k = of_nat (length out) \<and> length out \<le> unat hi))"

lemma safe_answer_refuse: "safe_answer hi mem d (Inr (st, None, mem, d))"
  unfolding safe_answer_def
  by (intro exI [of _ st] exI [of _ None] exI [of _ "[]"] exI [of _ "cf_world d"]) simp

lemma safe_answer_write:
  assumes f: "writer_ok lo hi f" and d: "driver_ok d" and mem: "length mem = unat n" and lo: "\<not> n < lo"
  shows "safe_answer hi mem d (rbind (f n mem d) (\<lambda>(k, mem', d'). Inr (st, Some k, mem', d')))"
proof -
  have n: "of_nat (length mem) = n" "length mem < 2 ^ 32"
    using mem unsigned_less [of n, where 'a = nat] by simp_all
  have "unat lo \<le> length mem" using lo mem by (simp add: word_less_nat_alt)
  with f d n obtain out w where "f n mem d = Inr (of_nat (length out), out @ drop (length out) mem, d\<lparr>cf_world := w\<rparr>)"
    "length out \<le> unat hi" "length out \<le> length mem"
    unfolding writer_ok_def by metis
  then show ?thesis unfolding safe_answer_def
    by (intro exI [of _ st] exI [of _ "Some (of_nat (length out))"] exI [of _ out] exI [of _ w]) simp
qed

text \<open>
  The contract of a table, and what follows from it for the handlers when the sizes they are
  given are the sizes of the buffers.
\<close>

locale property_table =
  fixes find :: "AudioObjectPropertyAddress \<Rightarrow> ('f, 'w) PropertyData option"
    and obj :: AudioObjectID
  assumes entry: "find addr = Some p \<Longrightarrow> entry_ok obj addr p"
begin

lemma data_size:
  assumes "find addr = Some p"
  shows "\<exists>lo hi. get_data_size p obj addr = Inr (lo, hi) \<and> lo \<le> hi"
  using entry [OF assms] unfolding entry_ok_def by blast

lemma get_safe:
  assumes p: "find addr = Some p" and sz: "get_data_size p obj addr = Inr (lo, hi)" and d: "driver_ok d"
    and mem: "length mem = unat n" and q: "\<And>qd. q = Some qd \<Longrightarrow> length qd = unat qs"
  shows "safe_answer hi mem d (get_entry_data E p obj addr qs q n mem d)"
proof (cases "n < lo")
  case True
  then show ?thesis by (simp add: get_entry_data_def sz safe_answer_refuse)
next
  case lo: False
  note e = entry [OF p, unfolded entry_ok_def sz]
  show ?thesis
  proof (cases "write_data p")
    case (Unneeded f)
    then have "writer_ok lo hi (f obj addr qs q)" using e by auto
    from safe_answer_write [OF this d mem lo] Unneeded lo show ?thesis by (simp add: get_entry_data_def sz)
  next
    case (Needed sf)
    obtain qf f where sf: "sf = (qf, f)" by (cases sf)
    from e Needed obtain qlo qhi where ql: "qf obj addr = Inr (qlo, qhi)"
      and w: "\<And>q. unat qlo \<le> length q \<Longrightarrow> length q < 2 ^ 32 \<Longrightarrow> writer_ok lo hi (f obj addr (of_nat (length q)) q)"
      by (auto simp: sf)
    show ?thesis
    proof (cases "\<exists>qd. q = Some qd \<and> \<not> qs < qlo")
      case False
      then show ?thesis
        by (cases q) (simp_all add: get_entry_data_def sz Needed sf ql lo safe_answer_refuse)
    next
      case True
      then obtain qd where qd: "q = Some qd" "\<not> qs < qlo" by blast
      have "writer_ok lo hi (f obj addr qs qd)"
        using w [of qd] q [OF qd(1)] qd(2) unsigned_less [of qs, where 'a = nat] by (simp add: word_less_nat_alt)
      from safe_answer_write [OF this d mem lo] show ?thesis
        using qd lo by (simp add: get_entry_data_def sz Needed sf ql)
    qed
  qed
qed

lemma set_safe:
  assumes p: "find addr = Some p" and sz: "get_data_size p obj addr = Inr (lo, hi)" and d: "driver_ok d"
    and mem: "length mem = unat n"
  shows "\<exists>st d'. set_entry_data E p obj addr qs q n mem d = Inr (st, d') \<and> driver_ok d'
    \<and> HOST d' = HOST d \<and> PLUGIN_REF_COUNT d' = PLUGIN_REF_COUNT d \<and> DEVICE_IO d' = DEVICE_IO d
    \<and> st = (if n < lo then kAudioHardwareBadPropertySizeError E
            else if read_data p = None then kAudioHardwareUnknownPropertyError E else kAudioHardwareNoError E)
    \<and> (n < lo \<or> read_data p = None \<longrightarrow> d' = d)"
proof -
  from entry [OF p] sz have rd: "case read_data p of None \<Rightarrow> True
      | Some (Unneeded f) \<Rightarrow> lo = hi \<and> (\<forall>qs q. reader_ok lo (f obj addr qs q)) | Some (Needed f) \<Rightarrow> False"
    unfolding entry_ok_def by auto
  consider "n < lo" | "\<not> n < lo" "read_data p = None"
    | f where "\<not> n < lo" "read_data p = Some (Unneeded f)" "reader_ok lo (f obj addr qs q)"
    using rd by (auto split: option.splits Qualifier.splits)
  then show ?thesis
  proof cases
    case (3 f)
    have "of_nat (length mem) = n" "length mem < 2 ^ 32" "unat lo \<le> length mem"
      using mem unsigned_less [of n, where 'a = nat] 3(1) by (simp_all add: word_less_nat_alt)
    with 3(3) d have "\<exists>d'. f obj addr qs q n mem d = Inr d' \<and> driver_ok d'
        \<and> HOST d' = HOST d \<and> PLUGIN_REF_COUNT d' = PLUGIN_REF_COUNT d \<and> DEVICE_IO d' = DEVICE_IO d"
      unfolding reader_ok_def by metis
    with 3 show ?thesis by (auto simp: set_entry_data_def sz)
  qed (use d in \<open>simp_all add: set_entry_data_def sz\<close>)
qed

text \<open>What can be set has one size.\<close>

lemma settable_size:
  assumes "find addr = Some p" "get_data_size p obj addr = Inr (lo, hi)" "read_data p \<noteq> None"
  shows "lo = hi"
  using entry [OF assms(1)] assms(2,3) by (auto simp: entry_ok_def split: option.splits Qualifier.splits)

end

section \<open>The tables keep the contract\<close>

lemmas size_consts = CLASS_ID_SIZE_def OBJECT_ID_SIZE_def CFSTRING_SIZE_def
lemmas [entry_intros] = translate_uid_ok [unfolded size_consts]

lemma length_ctrl_ids [simp]: "length ctrl_ids = 34"
  by (simp add: ctrl_ids_def object_consts)

lemmas table_sizes = size_consts object_consts strict_mul_def size_u32_def DEVICE_UID_def DEVICE_MODEL_UID_def

lemma plugin_entries_ok: "find_plugin_property_data E addr = Some p \<Longrightarrow> entry_ok obj addr p"
  by (auto simp: find_plugin_property_data_def Let_def table_sizes intro!: entry_intros split: if_splits)

interpretation plugin_table: property_table "find_plugin_property_data E" obj for E obj
  by unfold_locales (rule plugin_entries_ok)

lemma or_else_Some: "or_else x y = Some v \<longleftrightarrow> x = Some v \<or> x = None \<and> y = Some v"
  by (auto simp: or_else_def split: option.split)

lemma device_output_entries_ok: "device_output_properties E sel = Some p \<Longrightarrow> entry_ok obj addr p"
  by (auto simp: device_output_properties_def intro!: entry_intros split: if_splits)

lemma device_object_entries_ok: "device_object_properties E sel = Some p \<Longrightarrow> entry_ok obj addr p"
  by (auto simp: device_object_properties_def table_sizes intro!: entry_intros split: if_splits)

lemma device_clock_entries_ok: "device_clock_properties E sel = Some p \<Longrightarrow> entry_ok obj addr p"
  by (auto simp: device_clock_properties_def table_sizes intro!: entry_intros split: if_splits)

lemma device_entries_ok: "find_device_property_data E addr = Some p \<Longrightarrow> entry_ok obj addr p"
  by (auto simp: find_device_property_data_def Let_def or_else_Some
      intro: element_name_property_ok device_output_entries_ok device_object_entries_ok device_clock_entries_ok
      split: if_splits)

interpretation device_table: property_table "find_device_property_data E" obj for E obj
  by unfold_locales (rule device_entries_ok)

lemma stream_entries_ok: "find_stream_property_data E addr = Some p \<Longrightarrow> entry_ok obj addr p"
  by (auto simp: find_stream_property_data_def Let_def table_sizes intro!: entry_intros split: if_splits)

interpretation stream_table: property_table "find_stream_property_data E" obj for E obj
  by unfold_locales (rule stream_entries_ok)

lemma volume_table_entries_ok:
  "audio_object_is_control obj \<Longrightarrow> volume_properties E sel = Some p \<Longrightarrow> entry_ok obj addr p"
  by (auto simp: volume_properties_def table_sizes intro!: entry_intros split: if_splits)

lemma mute_table_entries_ok:
  "audio_object_is_control obj \<Longrightarrow> mute_properties E sel = Some p \<Longrightarrow> entry_ok obj addr p"
  by (auto simp: mute_properties_def table_sizes intro!: entry_intros split: if_splits)

lemma control_entries_ok:
  "audio_object_is_control obj \<Longrightarrow> find_control_property_data E v i addr = Some p \<Longrightarrow> entry_ok obj addr p"
  by (auto simp: find_control_property_data_def Let_def table_sizes
      intro!: entry_intros dest: volume_table_entries_ok mute_table_entries_ok split: if_splits)

text \<open>
  A control's table answers for controls only; for another object it is taken as empty.
\<close>

interpretation control_table: property_table
  "\<lambda>addr. if audio_object_is_control obj then find_control_property_data E v i addr else None" obj for E v i obj
  by unfold_locales (auto dest: control_entries_ok split: if_splits)

end
