(* ===== verification/CoreAudio_Properties.thy ===== *)
theory CoreAudio_Properties
  imports CoreAudio_Tables
begin

text \<open>
  The property handlers of the driver in \<open>syfala_coreaudio/src/lib.rs\<close>: the search for the
  entry of an object and the five operations that the host calls. Pointers that may be null
  are options, output pointers flags or buffers; \<open>catch_unwind\<close> turns a panic, but not
  undefined behaviour, into a value. The theorems: answers stay inside the buffers that
  the host lends, what can be set is what says so, what is set is what is read, and the
  objects that the driver lists are the ones it answers for.
\<close>

section \<open>Operations\<close>

definition ok_or :: "'e \<Rightarrow> 'a option \<Rightarrow> 'e + 'a" where
  "ok_or e x = (case x of None \<Rightarrow> Inl e | Some v \<Rightarrow> Inr v)"

definition find_property_data ::
    "('f, 'w) coreaudio_env \<Rightarrow> AudioObjectID \<Rightarrow> AudioObjectPropertyAddress
     \<Rightarrow> (bool + ('f, 'w) PropertyData) rust" where
  "find_property_data E obj addr =
     (if obj = PLUGIN_ID E then Inr (ok_or True (find_plugin_property_data E addr))
      else if obj = DEVICE_ID then Inr (ok_or True (find_device_property_data E addr))
      else if obj = STREAM_ID then Inr (ok_or True (find_stream_property_data E addr))
      else if audio_object_is_control obj then
        rbind (control_index obj) (\<lambda>i.
        Inr (ok_or True (find_control_property_data E (control_is_volume obj) i addr)))
      else Inr (Inl False))"

definition catch_unwind :: "'a rust \<Rightarrow> 'a option rust" where
  "catch_unwind m = (case m of Inl p \<Rightarrow> if p = UB then Inl UB else Inr None | Inr x \<Rightarrow> Inr (Some x))"

definition has_property ::
    "('f, 'w) coreaudio_env \<Rightarrow> u64 \<Rightarrow> AudioObjectID \<Rightarrow> AudioObjectPropertyAddress option \<Rightarrow> bool rust" where
  "has_property E drv obj addr =
     (if \<not> eq_driver_ptr E drv then Inr False
      else case addr of
        None \<Rightarrow> Inr False
      | Some a \<Rightarrow>
          rbind (catch_unwind (rbind (find_property_data E obj a) (\<lambda>r. Inr (case r of Inl _ \<Rightarrow> False | Inr _ \<Rightarrow> True)))) (\<lambda>res.
          case res of None \<Rightarrow> Inr False | Some b \<Rightarrow> Inr b))"

definition lookup_error :: "('f, 'w) coreaudio_env \<Rightarrow> bool \<Rightarrow> OSStatus" where
  "lookup_error E b = (if b then kAudioHardwareUnknownPropertyError E else kAudioHardwareBadObjectError E)"

definition is_property_settable ::
    "('f, 'w) coreaudio_env \<Rightarrow> u64 \<Rightarrow> AudioObjectID \<Rightarrow> AudioObjectPropertyAddress option \<Rightarrow> bool
     \<Rightarrow> (OSStatus \<times> bool option) rust" where
  "is_property_settable E drv obj addr is_settable =
     (if \<not> eq_driver_ptr E drv then Inr (kAudioHardwareBadObjectError E, None)
      else case addr of
        None \<Rightarrow> Inr (kAudioHardwareIllegalOperationError E, None)
      | Some a \<Rightarrow>
          if \<not> is_settable then Inr (kAudioHardwareIllegalOperationError E, None)
          else
            rbind (catch_unwind (rbind (find_property_data E obj a) (\<lambda>r.
              Inr (map_sum (\<lambda>b. b) (\<lambda>p. read_data p \<noteq> None) r)))) (\<lambda>res.
            case res of
              None \<Rightarrow> Inr (kAudioHardwareUnspecifiedError E, None)
            | Some (Inl b) \<Rightarrow> Inr (lookup_error E b, None)
            | Some (Inr b) \<Rightarrow> Inr (kAudioHardwareNoError E, Some b)))"

definition get_property_data_size ::
    "('f, 'w) coreaudio_env \<Rightarrow> u64 \<Rightarrow> AudioObjectID \<Rightarrow> AudioObjectPropertyAddress option \<Rightarrow> bool
     \<Rightarrow> (OSStatus \<times> u32 option) rust" where
  "get_property_data_size E drv obj addr data_size =
     (if \<not> eq_driver_ptr E drv then Inr (kAudioHardwareBadObjectError E, None)
      else case addr of
        None \<Rightarrow> Inr (kAudioHardwareIllegalOperationError E, None)
      | Some a \<Rightarrow>
          if \<not> data_size then Inr (kAudioHardwareIllegalOperationError E, None)
          else
            rbind (catch_unwind (rbind (find_property_data E obj a) (\<lambda>r.
              case r of
                Inl b \<Rightarrow> Inr (Inl b)
              | Inr p \<Rightarrow> rbind (get_data_size p obj a) (\<lambda>(lo, hi). Inr (Inr hi))))) (\<lambda>res.
            case res of
              None \<Rightarrow> Inr (kAudioHardwareUnspecifiedError E, None)
            | Some (Inl b) \<Rightarrow> Inr (lookup_error E b, None)
            | Some (Inr n) \<Rightarrow> Inr (kAudioHardwareNoError E, Some n)))"

text \<open>The result is the status, the size written, the output buffer and the driver.\<close>

definition get_property_data ::
    "('f, 'w) coreaudio_env \<Rightarrow> u64 \<Rightarrow> AudioObjectID \<Rightarrow> AudioObjectPropertyAddress option
     \<Rightarrow> u32 \<Rightarrow> u8 list option \<Rightarrow> u32 \<Rightarrow> bool \<Rightarrow> u8 list option \<Rightarrow> ('f, 'w) driver
     \<Rightarrow> (OSStatus \<times> u32 option \<times> u8 list option \<times> ('f, 'w) driver) rust" where
  "get_property_data E drv obj addr qual_size qual_data data_size written_data_size out_data d =
     (if \<not> eq_driver_ptr E drv then Inr (kAudioHardwareBadObjectError E, None, out_data, d)
      else case addr of
        None \<Rightarrow> Inr (kAudioHardwareIllegalOperationError E, None, out_data, d)
      | Some a \<Rightarrow>
          if \<not> written_data_size then Inr (kAudioHardwareIllegalOperationError E, None, out_data, d)
          else case out_data of
            None \<Rightarrow> Inr (kAudioHardwareIllegalOperationError E, None, out_data, d)
          | Some mem \<Rightarrow>
              rbind (catch_unwind (find_property_data E obj a)) (\<lambda>res.
              case res of
                None \<Rightarrow> Inr (kAudioHardwareUnspecifiedError E, None, out_data, d)
              | Some (Inl b) \<Rightarrow> Inr (lookup_error E b, None, out_data, d)
              | Some (Inr p) \<Rightarrow>
                  rbind (get_entry_data E p obj a qual_size qual_data data_size mem d) (\<lambda>(st, n, mem', d').
                  Inr (st, n, Some mem', d'))))"

definition set_property_data ::
    "('f, 'w) coreaudio_env \<Rightarrow> u64 \<Rightarrow> AudioObjectID \<Rightarrow> AudioObjectPropertyAddress option
     \<Rightarrow> u32 \<Rightarrow> u8 list option \<Rightarrow> u32 \<Rightarrow> u8 list option \<Rightarrow> ('f, 'w) driver
     \<Rightarrow> (OSStatus \<times> ('f, 'w) driver) rust" where
  "set_property_data E drv obj addr qual_size qual_data data_size out_data d =
     (if \<not> eq_driver_ptr E drv then Inr (kAudioHardwareBadObjectError E, d)
      else case addr of
        None \<Rightarrow> Inr (kAudioHardwareIllegalOperationError E, d)
      | Some a \<Rightarrow>
          rbind (catch_unwind (find_property_data E obj a)) (\<lambda>res.
          case res of
            None \<Rightarrow> Inr (kAudioHardwareUnspecifiedError E, d)
          | Some (Inl b) \<Rightarrow> Inr (lookup_error E b, d)
          | Some (Inr p) \<Rightarrow>
              (case out_data of
                 None \<Rightarrow> Inr (kAudioHardwareIllegalOperationError E, d)
               | Some mem \<Rightarrow> set_entry_data E p obj a qual_size qual_data data_size mem d)))"

section \<open>The search\<close>

text \<open>The search never panics, and what it finds keeps the contract.\<close>

lemma find_property_data_total:
  "\<exists>r. find_property_data E obj addr = Inr r"
  by (auto simp: find_property_data_def elim: control_index_ok)

lemma catch_unwind_Inr [simp]: "catch_unwind (Inr x) = Inr (Some x)"
  by (simp add: catch_unwind_def)

lemma ok_or_iff: "ok_or e x = Inr v \<longleftrightarrow> x = Some v"
  by (simp add: ok_or_def split: option.split)

definition object_table ::
    "('f, 'w) coreaudio_env \<Rightarrow> AudioObjectID \<Rightarrow> AudioObjectPropertyAddress \<Rightarrow> ('f, 'w) PropertyData option" where
  "object_table E obj addr = (case find_property_data E obj addr of Inr (Inr p) \<Rightarrow> Some p | _ \<Rightarrow> None)"

lemma object_table_iff: "object_table E obj addr = Some p \<longleftrightarrow> find_property_data E obj addr = Inr (Inr p)"
  by (simp add: object_table_def split: sum.split)

interpretation objects: property_table "object_table E obj" obj for E obj
proof unfold_locales
  fix addr p
  assume "object_table E obj addr = Some p"
  then have f: "find_property_data E obj addr = Inr (Inr p)" by (simp only: object_table_iff)
  show "entry_ok obj addr p"
  proof (cases "obj = PLUGIN_ID E \<or> obj = DEVICE_ID \<or> obj = STREAM_ID")
    case True
    then show ?thesis
      using f plugin_table.entry [of E addr p obj] device_table.entry [of E addr p obj] stream_table.entry [of E addr p obj]
      by (auto simp: find_property_data_def ok_or_iff split: if_splits)
  next
    case False
    with f have c: "audio_object_is_control obj" by (auto simp: find_property_data_def split: if_splits)
    then obtain i where "control_index obj = Inr i" by (rule control_index_ok)
    with f c False control_table.entry [of obj E "control_is_volume obj" i addr p] show ?thesis
      by (simp add: find_property_data_def ok_or_iff)
  qed
qed

section \<open>Safety\<close>

lemma get_data_size_known:
  assumes "find_property_data E obj a = Inr (Inr p)"
  obtains lo hi where "get_data_size p obj a = Inr (lo, hi)" "lo \<le> hi"
    "get_property_data_size E (raw_driver_ptr E) obj (Some a) True = Inr (kAudioHardwareNoError E, Some hi)"
proof -
  from objects.data_size [of E obj a p] assms obtain lo hi where
    s: "get_data_size p obj a = Inr (lo, hi)" "lo \<le> hi" by (auto simp: object_table_iff)
  show ?thesis
    by (rule that [OF s]) (simp add: get_property_data_size_def eq_driver_ptr_def assms s)
qed

text \<open>C3: Reading a property is safe for every object, address, qualifier and buffer, null pointers
  included, as long as the sizes that are passed are those of the buffers: the call returns
  without a panic and without an access outside the buffer; the bytes it says it wrote are
  written at the start of the buffer, they are at most as many as the size query
  announces, and the rest of the buffer keeps its contents; an error writes nothing. Apart
  from strings that are created for the host, the driver is not changed.\<close>

theorem get_property_data_in_bounds:
  assumes d: "driver_ok d" and mem: "length mem = unat n" and q: "\<And>qd. q = Some qd \<Longrightarrow> length qd = unat qs"
  shows "\<exists>st k out w. get_property_data E drv obj addr qs q n wp (Some mem) d =
      Inr (st, k, Some (out @ drop (length out) mem), d\<lparr>cf_world := w\<rparr>)
    \<and> length out \<le> length mem
    \<and> (case k of
         None \<Rightarrow> out = []
       | Some m \<Rightarrow> unat m = length out
           \<and> (\<exists>hi. get_property_data_size E drv obj addr True = Inr (kAudioHardwareNoError E, Some hi)
                \<and> length out \<le> unat hi))"
    (is "\<exists>st k out w. ?call = Inr (?r st k out w) \<and> ?P k out")
proof -
  have refuse: "\<exists>st k out w. ?call = Inr (?r st k out w) \<and> ?P k out" if "?call = Inr (st, None, Some mem, d)" for st
    by (intro exI [of _ st] exI [of _ None] exI [of _ "[]"] exI [of _ "cf_world d"]) (simp add: that)
  show ?thesis
  proof (cases "eq_driver_ptr E drv \<and> wp \<and> (\<exists>a p. addr = Some a \<and> find_property_data E obj a = Inr (Inr p))")
    case False
    obtain r where "\<forall>a. addr = Some a \<longrightarrow> find_property_data E obj a = Inr r"
      using find_property_data_total [of E obj] by (cases addr) auto
    with False have "\<exists>st. ?call = Inr (st, None, Some mem, d)"
      by (cases addr; cases r) (auto simp: get_property_data_def)
    then show ?thesis using refuse by blast
  next
    case True
    then obtain a p where a: "addr = Some a" "find_property_data E obj a = Inr (Inr p)" "eq_driver_ptr E drv" wp
      by blast
    from a(2) obtain lo hi where sz: "get_data_size p obj a = Inr (lo, hi)"
      and size_known: "get_property_data_size E (raw_driver_ptr E) obj (Some a) True = Inr (kAudioHardwareNoError E, Some hi)"
      by (rule get_data_size_known)
    have "safe_answer hi mem d (get_entry_data E p obj a qs q n mem d)"
      using objects.get_safe [of E obj a p, OF _ sz d mem q] a(2) by (simp add: object_table_iff)
    then obtain st k out w where "get_entry_data E p obj a qs q n mem d =
        Inr (st, k, out @ drop (length out) mem, d\<lparr>cf_world := w\<rparr>)"
      and o: "length out \<le> length mem" "case k of None \<Rightarrow> out = [] | Some k \<Rightarrow> k = of_nat (length out) \<and> length out \<le> unat hi"
      unfolding safe_answer_def by (elim exE conjE)
    moreover have "length out < 2 ^ 32" using o(1) mem unsigned_less [of n, where 'a = nat] by simp
    ultimately show ?thesis using a size_known
      by (intro exI [of _ st] exI [of _ k] exI [of _ out] exI [of _ w])
         (auto simp: get_property_data_def eq_driver_ptr_def split: option.splits)
  qed
qed

lemma driver_ok_init [simp]: "driver_ok (driver_init E w)"
  by (simp add: driver_ok_def driver_init_def N_CHANNELS_def)

text \<open>The objects of the device, for a buffer with room for two of them.\<close>

theorem get_property_data_in_bounds_witness:
  "\<exists>st k out w. get_property_data numbered_env 4096 2 (Some \<lparr>mSelector = 129, mScope = 113, mElement = 0\<rparr>) 0 None 8
      True (Some (replicate 8 0)) (driver_init numbered_env []) =
      Inr (st, k, Some (out @ drop (length out) (replicate 8 0)), (driver_init numbered_env [])\<lparr>cf_world := w\<rparr>)
    \<and> length out \<le> length (replicate 8 (0 :: u8))
    \<and> (case k of
         None \<Rightarrow> out = []
       | Some m \<Rightarrow> unat m = length out
           \<and> (\<exists>hi. get_property_data_size numbered_env 4096 2 (Some \<lparr>mSelector = 129, mScope = 113, mElement = 0\<rparr>) True
                = Inr (kAudioHardwareNoError numbered_env, Some hi) \<and> length out \<le> unat hi))"
  by (rule get_property_data_in_bounds) simp_all

text \<open>C17: Setting a property is safe, and a caller that asks first is answered truthfully. With a
  buffer of the size that is passed the call returns without a panic, keeps the tables of
  volumes and mutes at their length, and never touches the host, the reference count or the
  IO state. If the query whether the property can be set fails (wrong driver, no address,
  unknown object or property), setting fails with the same error. If the property is said to
  be settable, setting succeeds when the data have at least the size that the size query
  announces and is refused for its size otherwise. If it is said not to be settable, setting
  is refused: as an unknown property, or for its size when the data are shorter than
  announced. Whatever is refused changes nothing.\<close>

theorem set_property_data_as_announced:
  assumes d: "driver_ok d" and mem: "length mem = unat n"
  shows "\<exists>st d' s1 ans. set_property_data E drv obj addr qs q n (Some mem) d = Inr (st, d') \<and> driver_ok d'
    \<and> HOST d' = HOST d \<and> PLUGIN_REF_COUNT d' = PLUGIN_REF_COUNT d \<and> DEVICE_IO d' = DEVICE_IO d
    \<and> is_property_settable E drv obj addr True = Inr (s1, ans)
    \<and> (case ans of
         None \<Rightarrow> st = s1 \<and> d' = d \<and> s1 \<in> {kAudioHardwareBadObjectError E, kAudioHardwareIllegalOperationError E,
           kAudioHardwareUnknownPropertyError E}
       | Some b \<Rightarrow> s1 = kAudioHardwareNoError E
           \<and> (\<exists>hi. get_property_data_size E drv obj addr True = Inr (kAudioHardwareNoError E, Some hi)
           \<and> (if b \<and> hi \<le> n then st = kAudioHardwareNoError E
              else if b then st = kAudioHardwareBadPropertySizeError E \<and> d' = d
              else (st = kAudioHardwareUnknownPropertyError E
                    \<or> st = kAudioHardwareBadPropertySizeError E \<and> n < hi) \<and> d' = d)))"
proof (cases "eq_driver_ptr E drv \<and> (\<exists>a p. addr = Some a \<and> find_property_data E obj a = Inr (Inr p))")
  case False
  obtain r where "\<forall>a. addr = Some a \<longrightarrow> find_property_data E obj a = Inr r"
    using find_property_data_total [of E obj] by (cases addr) auto
  with False d show ?thesis
    by (cases addr; cases r) (auto simp: set_property_data_def is_property_settable_def lookup_error_def)
next
  case True
  then obtain a p where a: "addr = Some a" "find_property_data E obj a = Inr (Inr p)" "eq_driver_ptr E drv"
    by blast
  from a(2) obtain lo hi where sz: "get_data_size p obj a = Inr (lo, hi)" "lo \<le> hi"
    by (rule get_data_size_known)
  have p: "object_table E obj a = Some p" using a(2) by (simp only: object_table_iff)
  from objects.set_safe [OF p sz(1) d mem, of E qs q] obtain st d' where
    s: "set_entry_data E p obj a qs q n mem d = Inr (st, d')" "driver_ok d'"
      "HOST d' = HOST d" "PLUGIN_REF_COUNT d' = PLUGIN_REF_COUNT d" "DEVICE_IO d' = DEVICE_IO d"
      "st = (if n < lo then kAudioHardwareBadPropertySizeError E
         else if read_data p = None then kAudioHardwareUnknownPropertyError E else kAudioHardwareNoError E)"
      "n < lo \<or> read_data p = None \<longrightarrow> d' = d"
    by (elim exE conjE)
  have "if read_data p \<noteq> None \<and> hi \<le> n then st = kAudioHardwareNoError E
      else if read_data p \<noteq> None then st = kAudioHardwareBadPropertySizeError E \<and> d' = d
      else (st = kAudioHardwareUnknownPropertyError E \<or> st = kAudioHardwareBadPropertySizeError E \<and> n < hi) \<and> d' = d"
    using s(6,7) sz(2) objects.settable_size [OF p sz(1)] by auto
  with s(1-5) a sz(1) show ?thesis
    by (intro exI [of _ st] exI [of _ d'] exI [of _ "kAudioHardwareNoError E"] exI [of _ "Some (read_data p \<noteq> None)"])
       (simp add: set_property_data_def is_property_settable_def get_property_data_size_def)
qed

section \<open>The values of the constants\<close>

text \<open>
  What the driver relies on when it tells objects and properties apart: the plug-in is
  object 1, as the comments of the source say, and within one table no two selectors
  have the same value.
\<close>

definition coreaudio_sys_ok :: "('f, 'w) coreaudio_env \<Rightarrow> bool" where
  "coreaudio_sys_ok E \<longleftrightarrow>
     kAudioObjectPlugInObject E = 1
     \<and> distinct [kAudioObjectPropertyBaseClass E, kAudioObjectPropertyClass E, kAudioObjectPropertyOwner E,
          kAudioObjectPropertyName E, kAudioObjectPropertyManufacturer E, kAudioObjectPropertyElementName E,
          kAudioObjectPropertyOwnedObjects E, kAudioObjectPropertyControlList E,
          kAudioDevicePropertyDeviceCanBeDefaultDevice E, kAudioDevicePropertyDeviceCanBeDefaultSystemDevice E,
          kAudioDevicePropertyPreferredChannelLayout E, kAudioDevicePropertySafetyOffset E, kAudioDevicePropertyLatency E]
     \<and> distinct [kAudioObjectPropertyBaseClass E, kAudioObjectPropertyClass E, kAudioObjectPropertyOwner E,
          kAudioObjectPropertyOwnedObjects E, kAudioObjectPropertyName E, kAudioStreamPropertyDirection E,
          kAudioStreamPropertyTerminalType E, kAudioStreamPropertyStartingChannel E, kAudioStreamPropertyLatency E,
          kAudioStreamPropertyAvailableVirtualFormats E, kAudioStreamPropertyAvailablePhysicalFormats E,
          kAudioStreamPropertyVirtualFormat E, kAudioStreamPropertyPhysicalFormat E, kAudioStreamPropertyIsActive E]
     \<and> distinct [kAudioObjectPropertyOwner E, kAudioObjectPropertyOwnedObjects E, kAudioControlPropertyScope E,
          kAudioControlPropertyElement E, kAudioObjectPropertyBaseClass E, kAudioObjectPropertyClass E,
          kAudioLevelControlPropertyScalarValue E, kAudioLevelControlPropertyDecibelValue E,
          kAudioBooleanControlPropertyValue E]"

lemma numbered_env_ok: "coreaudio_sys_ok numbered_env"
  by (simp add: coreaudio_sys_ok_def numbered_env_def)

lemma find_control:
  assumes "coreaudio_sys_ok E" "audio_object_is_control obj" "control_index obj = Inr i"
  shows "find_property_data E obj addr = Inr (ok_or True (find_control_property_data E (control_is_volume obj) i addr))"
proof -
  have "obj \<noteq> PLUGIN_ID E" "obj \<noteq> DEVICE_ID" "obj \<noteq> STREAM_ID"
    using assms(1,2) by (auto simp: is_control_iff PLUGIN_ID_def coreaudio_sys_ok_def object_consts)
  with assms(2,3) show ?thesis by (simp add: find_property_data_def)
qed

section \<open>Setting and reading\<close>

definition change_report ::
    "('f, 'w) driver \<Rightarrow> AudioObjectID \<Rightarrow> AudioObjectPropertyAddress list
     \<Rightarrow> (u64 \<times> AudioObjectID \<times> AudioObjectPropertyAddress list) list" where
  "change_report d obj addrs =
     (case HOST d of Some h \<Rightarrow> if PropertiesChanged h then [(host_ref h, obj, addrs)] else [] | None \<Rightarrow> [])"

lemma notify_eq: "notify obj addrs d = d\<lparr>notified := notified d @ change_report d obj addrs\<rparr>"
  by (simp add: notify_def change_report_def split: option.split)

lemma change_report_cong: "HOST d' = HOST d \<Longrightarrow> change_report d' = change_report d"
  by (simp add: change_report_def fun_eq_iff)

lemma u32_bytes_round_trip [simp]: "from_le_bytes (to_le_bytes (v :: u32)) = v"
  by (rule le_bytes_round_trip) simp

lemma put_u32: "length mem = 4 \<Longrightarrow> put_once (to_le_bytes (v :: u32)) mem d = Inr (4, to_le_bytes v, d)"
  by (simp add: put_once_spec)

lemma get_by_entry:
  assumes "find_property_data E obj a = Inr (Inr p)"
  shows "get_property_data E (raw_driver_ptr E) obj (Some a) qs q n True (Some mem) d =
    rbind (get_entry_data E p obj a qs q n mem d) (\<lambda>(st, n, mem', d'). Inr (st, n, Some mem', d'))"
  by (simp add: get_property_data_def eq_driver_ptr_def assms)

lemma set_by_entry:
  assumes "find_property_data E obj a = Inr (Inr p)"
  shows "set_property_data E (raw_driver_ptr E) obj (Some a) qs q n (Some mem) d = set_entry_data E p obj a qs q n mem d"
  by (simp add: set_property_data_def eq_driver_ptr_def assms)

lemma find_mute:
  assumes "coreaudio_sys_ok E" "i \<le> 16" "mSelector a = kAudioBooleanControlPropertyValue E"
  shows "find_property_data E (of_nat (4 + 2 * i)) a =
      Inr (Inr \<lparr>get_data_size = \<lambda>_ _. s_range 4, write_data = Unneeded write_mute, read_data = Some (Unneeded read_mute)\<rparr>)"
    and "control_index (of_nat (4 + 2 * i)) = Inr (of_nat i)"
proof -
  note c = control_of_object(1,2,3) [OF assms(2)]
  have "(ucast (of_nat i :: u32) :: u64) = of_nat i"
    using assms(2) by (simp add: word_unat_eq_iff unsigned_ucast_eq take_bit_nat_eq_self)
  then show ci: "control_index (of_nat (4 + 2 * i)) = Inr (of_nat i)"
    using c(3) by (simp add: control_index_def del: of_nat_add of_nat_mult)
  have "find_control_property_data E False (of_nat i) a =
      Some \<lparr>get_data_size = \<lambda>_ _. s_range 4, write_data = Unneeded write_mute, read_data = Some (Unneeded read_mute)\<rparr>"
    using assms(1,3) by (auto simp: find_control_property_data_def mute_properties_def coreaudio_sys_ok_def)
  then show "find_property_data E (of_nat (4 + 2 * i)) a =
      Inr (Inr \<lparr>get_data_size = \<lambda>_ _. s_range 4, write_data = Unneeded write_mute, read_data = Some (Unneeded read_mute)\<rparr>)"
    using find_control [OF assms(1) c(1) ci, of a] c(2) by (simp add: ok_or_def del: of_nat_add of_nat_mult)
qed

text \<open>The master mute control is set with one byte too few and with four bytes.\<close>

theorem set_property_data_as_announced_witness:
  "\<exists>a d'. set_property_data numbered_env (raw_driver_ptr numbered_env) 4 (Some a) 0 None 3 (Some [1, 0, 0])
      (driver_init numbered_env []) = Inr (kAudioHardwareBadPropertySizeError numbered_env, driver_init numbered_env [])
    \<and> set_property_data numbered_env (raw_driver_ptr numbered_env) 4 (Some a) 0 None 4 (Some [1, 0, 0, 0])
      (driver_init numbered_env []) = Inr (kAudioHardwareNoError numbered_env, d') \<and> driver_ok d'"
proof -
  let ?a = "\<lparr>mSelector = kAudioBooleanControlPropertyValue numbered_env, mScope = 0, mElement = 0\<rparr>"
  let ?drv = "raw_driver_ptr numbered_env" and ?d = "driver_init numbered_env []"
  note mute = find_mute(1) [OF numbered_env_ok, of 0 ?a, simplified]
  have "is_property_settable numbered_env ?drv 4 (Some ?a) True = Inr (kAudioHardwareNoError numbered_env, Some True)"
    "get_property_data_size numbered_env ?drv 4 (Some ?a) True = Inr (kAudioHardwareNoError numbered_env, Some 4)"
    by (simp_all add: is_property_settable_def get_property_data_size_def eq_driver_ptr_def mute s_range_def)
  then show ?thesis
    using set_property_data_as_announced [of ?d "[1, 0, 0]" 3 numbered_env ?drv 4 "Some ?a" 0 None]
      set_property_data_as_announced [of ?d "[1, 0, 0, 0]" 4 numbered_env ?drv 4 "Some ?a" 0 None]
    by (intro exI [of _ ?a]) auto
qed

lemma mute_round_trip:
  assumes sys: "coreaudio_sys_ok E" and d: "driver_ok d" and i: "i \<le> 16" and mem: "length mem = 4"
    and sel: "mSelector a = kAudioBooleanControlPropertyValue E" "mSelector a' = kAudioBooleanControlPropertyValue E"
  shows "\<exists>d'. set_property_data E (raw_driver_ptr E) (of_nat (4 + 2 * i)) (Some a) qs q 4 (Some (to_le_bytes (v :: u32))) d
        = Inr (kAudioHardwareNoError E, d')
    \<and> get_property_data E (raw_driver_ptr E) (of_nat (4 + 2 * i)) (Some a') qs' q' 4 True (Some mem) d'
        = Inr (kAudioHardwareNoError E, Some 4, Some (to_le_bytes (bool_u32 (v \<noteq> 0))), d')
    \<and> d' = d\<lparr>OUTPUT_MUTE := (OUTPUT_MUTE d)[i := v \<noteq> 0],
             notified := notified d @ change_report d (of_nat (4 + 2 * i)) [a]\<rparr>"
proof -
  let ?o = "of_nat (4 + 2 * i) :: u32"
  let ?d = "notify ?o [a] (d\<lparr>OUTPUT_MUTE := (OUTPUT_MUTE d)[i := v \<noteq> 0]\<rparr>)"
  have u: "unat (of_nat i :: u64) = i" using i by simp
  have il: "i < length (OUTPUT_MUTE d)" using i d by (simp add: driver_ok_def)
  have "set_property_data E (raw_driver_ptr E) ?o (Some a) qs q 4 (Some (to_le_bytes v)) d = Inr (kAudioHardwareNoError E, ?d)"
    using u il by (simp add: set_by_entry [OF find_mute(1) [OF sys i sel(1)]] set_entry_data_def s_range_def
        read_mute_def find_mute(2) [OF sys i sel(1)] ptr_read_def del: of_nat_add of_nat_mult)
  moreover have "get_property_data E (raw_driver_ptr E) ?o (Some a') qs' q' 4 True (Some mem) ?d
      = Inr (kAudioHardwareNoError E, Some 4, Some (to_le_bytes (bool_u32 (v \<noteq> 0))), ?d)"
    using u il mem by (simp add: get_by_entry [OF find_mute(1) [OF sys i sel(2)]] get_entry_data_def s_range_def
        write_mute_def find_mute(2) [OF sys i sel(2)] put_u32 del: of_nat_add of_nat_mult)
  ultimately show ?thesis
    by (intro exI [of _ ?d]) (simp add: notify_eq change_report_def del: of_nat_add of_nat_mult)
qed

lemma find_stream:
  assumes "coreaudio_sys_ok E"
  shows "find_property_data E STREAM_ID a = Inr (ok_or True (find_stream_property_data E a))"
  using assms by (simp add: find_property_data_def PLUGIN_ID_def coreaudio_sys_ok_def object_consts)

lemma find_stream_active:
  assumes "coreaudio_sys_ok E" "mSelector a = kAudioStreamPropertyIsActive E"
  shows "find_property_data E STREAM_ID a =
    Inr (Inr \<lparr>get_data_size = \<lambda>_ _. s_range 4,
      write_data = Unneeded (\<lambda>_ _ _ _ _ mem d. put_once (to_le_bytes (bool_u32 (IS_OUTPUT_STREAM_ACTIVE d))) mem d),
      read_data = Some (Unneeded read_stream_active)\<rparr>)"
  using assms unfolding find_stream [OF assms(1)]
  by (auto simp: find_stream_property_data_def ok_or_def coreaudio_sys_ok_def)

lemma stream_active_round_trip:
  assumes sys: "coreaudio_sys_ok E" and mem: "length mem = 4"
    and sel: "mSelector a = kAudioStreamPropertyIsActive E" "mSelector a' = kAudioStreamPropertyIsActive E"
  shows "\<exists>d'. set_property_data E (raw_driver_ptr E) STREAM_ID (Some a) qs q 4 (Some (to_le_bytes (v :: u32))) d
        = Inr (kAudioHardwareNoError E, d')
    \<and> get_property_data E (raw_driver_ptr E) STREAM_ID (Some a') qs' q' 4 True (Some mem) d'
        = Inr (kAudioHardwareNoError E, Some 4, Some (to_le_bytes (bool_u32 (v \<noteq> 0))), d')
    \<and> d' = d\<lparr>IS_OUTPUT_STREAM_ACTIVE := v \<noteq> 0, notified := notified d @ change_report d STREAM_ID [a]\<rparr>"
proof -
  let ?d = "notify STREAM_ID [a] (d\<lparr>IS_OUTPUT_STREAM_ACTIVE := v \<noteq> 0\<rparr>)"
  have "set_property_data E (raw_driver_ptr E) STREAM_ID (Some a) qs q 4 (Some (to_le_bytes v)) d = Inr (kAudioHardwareNoError E, ?d)"
    by (simp add: set_by_entry [OF find_stream_active [OF sys sel(1)]] set_entry_data_def s_range_def
        read_stream_active_def ptr_read_def)
  moreover have "get_property_data E (raw_driver_ptr E) STREAM_ID (Some a') qs' q' 4 True (Some mem) ?d
      = Inr (kAudioHardwareNoError E, Some 4, Some (to_le_bytes (bool_u32 (v \<noteq> 0))), ?d)"
    using mem by (simp add: get_by_entry [OF find_stream_active [OF sys sel(2)]] get_entry_data_def s_range_def put_u32)
  ultimately show ?thesis
    by (intro exI [of _ ?d]) (simp add: notify_eq change_report_def)
qed

text \<open>C12: What is set is what is read. Setting the mute control of the master or of a channel with any
  32-bit value succeeds, and reading it, by any address with that selector, gives 1 or 0
  according to whether the value was not zero; a host that wants to know is told of exactly
  this property, and nothing else of the driver changes: every other mute control, all
  volumes and the active flag are as before. The active flag of the stream behaves the same
  way.\<close>

theorem set_then_get:
  assumes "coreaudio_sys_ok E" and "driver_ok d" and "i \<le> 16" and "length mem = 4"
    and "mSelector a = kAudioBooleanControlPropertyValue E" and "mSelector a' = kAudioBooleanControlPropertyValue E"
    and "mSelector b = kAudioStreamPropertyIsActive E" and "mSelector b' = kAudioStreamPropertyIsActive E"
  shows "(\<exists>d'. set_property_data E (raw_driver_ptr E) (of_nat (4 + 2 * i)) (Some a) qs q 4 (Some (to_le_bytes (v :: u32))) d
        = Inr (kAudioHardwareNoError E, d')
    \<and> get_property_data E (raw_driver_ptr E) (of_nat (4 + 2 * i)) (Some a') qs' q' 4 True (Some mem) d'
        = Inr (kAudioHardwareNoError E, Some 4, Some (to_le_bytes (bool_u32 (v \<noteq> 0))), d')
    \<and> d' = d\<lparr>OUTPUT_MUTE := (OUTPUT_MUTE d)[i := v \<noteq> 0],
             notified := notified d @ change_report d (of_nat (4 + 2 * i)) [a]\<rparr>)
  \<and> (\<exists>d'. set_property_data E (raw_driver_ptr E) STREAM_ID (Some b) qs q 4 (Some (to_le_bytes v)) d
        = Inr (kAudioHardwareNoError E, d')
    \<and> get_property_data E (raw_driver_ptr E) STREAM_ID (Some b') qs' q' 4 True (Some mem) d'
        = Inr (kAudioHardwareNoError E, Some 4, Some (to_le_bytes (bool_u32 (v \<noteq> 0))), d')
    \<and> d' = d\<lparr>IS_OUTPUT_STREAM_ACTIVE := v \<noteq> 0, notified := notified d @ change_report d STREAM_ID [b]\<rparr>)"
  using mute_round_trip [OF assms(1-6)] stream_active_round_trip [OF assms(1,4,7,8)] by (rule conjI)

text \<open>Channel 3 is muted by the value 5.\<close>

theorem set_then_get_witness:
  "\<exists>d'. set_property_data numbered_env (raw_driver_ptr numbered_env) (of_nat (4 + 2 * 3))
        (Some \<lparr>mSelector = kAudioBooleanControlPropertyValue numbered_env, mScope = 0, mElement = 0\<rparr>) 0 None 4
        (Some (to_le_bytes (5 :: u32))) (driver_init numbered_env []) = Inr (kAudioHardwareNoError numbered_env, d')
    \<and> get_property_data numbered_env (raw_driver_ptr numbered_env) (of_nat (4 + 2 * 3))
        (Some \<lparr>mSelector = kAudioBooleanControlPropertyValue numbered_env, mScope = 0, mElement = 0\<rparr>) 0 None 4
        True (Some [9, 9, 9, 9]) d'
      = Inr (kAudioHardwareNoError numbered_env, Some 4, Some (to_le_bytes (bool_u32 True)), d')"
  using set_then_get [of numbered_env "driver_init numbered_env []" 3 "[9, 9, 9, 9]"
      "\<lparr>mSelector = kAudioBooleanControlPropertyValue numbered_env, mScope = 0, mElement = 0\<rparr>"
      "\<lparr>mSelector = kAudioBooleanControlPropertyValue numbered_env, mScope = 0, mElement = 0\<rparr>"
      "\<lparr>mSelector = kAudioStreamPropertyIsActive numbered_env, mScope = 0, mElement = 0\<rparr>"
      "\<lparr>mSelector = kAudioStreamPropertyIsActive numbered_env, mScope = 0, mElement = 0\<rparr>"
      0 None 5 0 None, OF numbered_env_ok]
  by (auto simp del: of_nat_add of_nat_mult of_nat_numeral)

section \<open>The object tree\<close>

lemma set_ctrl_ids: "x \<in> set ctrl_ids \<longleftrightarrow> audio_object_is_control x"
proof -
  have b: "unat FIRST_CTRL_ID = 4" "unat LAST_CTRL_ID + 1 = 38" by (simp_all add: object_consts)
  have ids: "set ctrl_ids = of_nat ` {4..<38}" by (simp only: ctrl_ids_def b set_map set_upt)
  show ?thesis
  proof
    assume "x \<in> set ctrl_ids"
    then have "x \<in> of_nat ` {4..<38}" by (simp only: ids)
    then obtain k where "x = of_nat k" "k \<in> {4..<38}" by (rule imageE)
    then show "audio_object_is_control x" by (simp add: is_control_iff)
  next
    assume "audio_object_is_control x"
    then have "unat x \<in> {4..<38}" by (simp add: is_control_iff)
    then have "of_nat (unat x) \<in> (of_nat ` {4..<38} :: u32 set)" by (rule imageI)
    moreover have "of_nat (unat x) = x" by simp
    ultimately show "x \<in> set ctrl_ids" by (simp only: ids)
  qed
qed

lemma find_property_data_known:
  "find_property_data E x c \<noteq> Inr (Inl False) \<longleftrightarrow> x = PLUGIN_ID E \<or> x = DEVICE_ID \<or> x \<in> set (STREAM_ID # ctrl_ids)"
proof (cases "audio_object_is_control x")
  case True
  then obtain i where "control_index x = Inr i" by (rule control_index_ok)
  with True show ?thesis by (simp add: find_property_data_def set_ctrl_ids ok_or_def split: option.splits)
next
  case False
  then show ?thesis by (simp add: find_property_data_def set_ctrl_ids ok_or_def split: option.splits)
qed

text \<open>Reading a property that is a constant 32-bit number.\<close>

lemma get_u32_property:
  assumes "find_property_data E obj a = Inr (Inr (value_property 4 (to_le_bytes (v :: u32))))" "length mem = 4"
  shows "get_property_data E (raw_driver_ptr E) obj (Some a) qs q 4 True (Some mem) d =
    Inr (kAudioHardwareNoError E, Some 4, Some (to_le_bytes v), d)"
  by (simp add: get_by_entry [OF assms(1)] get_entry_data_def value_property_def s_range_def put_u32 assms(2))

lemma find_owner:
  assumes sys: "coreaudio_sys_ok E" and sel: "mSelector a = kAudioObjectPropertyOwner E"
  shows "find_property_data E DEVICE_ID a = Inr (Inr (u32_property (PLUGIN_ID E)))"
    and "x \<in> set (STREAM_ID # ctrl_ids) \<Longrightarrow> find_property_data E x a = Inr (Inr (u32_property DEVICE_ID))"
proof -
  have "DEVICE_ID \<noteq> PLUGIN_ID E" using sys by (simp add: coreaudio_sys_ok_def PLUGIN_ID_def DEVICE_ID_def)
  then show "find_property_data E DEVICE_ID a = Inr (Inr (u32_property (PLUGIN_ID E)))"
    using sys sel by (auto simp: find_property_data_def find_device_property_data_def or_else_def
        device_output_properties_def device_object_properties_def coreaudio_sys_ok_def ok_or_def size_consts)
  assume "x \<in> set (STREAM_ID # ctrl_ids)"
  then consider "x = STREAM_ID" | "audio_object_is_control x" using set_ctrl_ids by auto
  then show "find_property_data E x a = Inr (Inr (u32_property DEVICE_ID))"
  proof cases
    case 1
    then show ?thesis using sys sel unfolding 1 find_stream [OF sys]
      by (auto simp: find_stream_property_data_def coreaudio_sys_ok_def ok_or_def size_consts)
  next
    case 2
    then obtain i where "control_index x = Inr i" by (rule control_index_ok)
    with find_control [OF sys 2 this, of a] sel show ?thesis
      by (simp add: find_control_property_data_def ok_or_def size_consts)
  qed
qed

lemma find_owned_objects:
  assumes "coreaudio_sys_ok E" "mSelector a = kAudioObjectPropertyOwnedObjects E"
  shows "find_property_data E DEVICE_ID a =
    Inr (Inr (scoped_items_property E (strict_mul N_DEVICE_OWNED_OBJS OBJECT_ID_SIZE) (map to_le_bytes (STREAM_ID # ctrl_ids))))"
proof -
  have "DEVICE_ID \<noteq> PLUGIN_ID E" using assms by (simp add: coreaudio_sys_ok_def PLUGIN_ID_def DEVICE_ID_def)
  then show ?thesis
    using assms by (auto simp: find_property_data_def find_device_property_data_def or_else_def
        device_output_properties_def device_object_properties_def coreaudio_sys_ok_def ok_or_def)
qed

lemma get_owned_objects:
  assumes sys: "coreaudio_sys_ok E" and sel: "mSelector a = kAudioObjectPropertyOwnedObjects E"
    and scope: "mScope a = kAudioObjectPropertyScopeGlobal E \<or> mScope a = kAudioObjectPropertyScopeOutput E"
    and mem: "length mem = 140"
  shows "get_property_data E (raw_driver_ptr E) DEVICE_ID (Some a) qs q 140 True (Some mem) d =
    Inr (kAudioHardwareNoError E, Some 140, Some (concat (map to_le_bytes (STREAM_ID # ctrl_ids))), d)"
proof -
  let ?vs = "map to_le_bytes (STREAM_ID # ctrl_ids)"
  have items: "length v = 4" if "v \<in> set ?vs" for v using that by auto
  have p: "put_items 4 ?vs 140 mem d = Inr (140, concat ?vs, d)"
    using put_items_spec(1) [of ?vs 4 mem d, OF items] mem by (simp del: list.map concat.simps)
  have "strict_mul N_DEVICE_OWNED_OBJS OBJECT_ID_SIZE = Inr 140"
    by (simp add: table_sizes)
  with p scope show ?thesis
    by (simp add: get_by_entry [OF find_owned_objects [OF sys sel]] get_entry_data_def scoped_items_property_def
        s_range_def del: list.map concat.simps)
qed

text \<open>C16: The object tree that the driver shows is consistent, and flatter than the blueprint in the
  source, which has the controls below the stream. The device lists the stream and the 34
  controls as its objects, in the order of their identifiers, in the global and the output
  scope; each of them names the device as its owner, and the device names the plug-in; and
  the identifiers that the driver answers for are exactly the plug-in, the device and
  those 35 objects.\<close>

theorem object_tree_consistent:
  assumes "coreaudio_sys_ok E" and "mSelector a = kAudioObjectPropertyOwnedObjects E"
    and "mScope a = kAudioObjectPropertyScopeGlobal E \<or> mScope a = kAudioObjectPropertyScopeOutput E"
    and "mSelector b = kAudioObjectPropertyOwner E" and "length mem = 140" and "length mem4 = 4"
  shows "get_property_data E (raw_driver_ptr E) DEVICE_ID (Some a) qs q 140 True (Some mem) d =
      Inr (kAudioHardwareNoError E, Some 140, Some (concat (map to_le_bytes (STREAM_ID # ctrl_ids))), d)
    \<and> (\<forall>x \<in> set (STREAM_ID # ctrl_ids). get_property_data E (raw_driver_ptr E) x (Some b) qs q 4 True (Some mem4) d =
         Inr (kAudioHardwareNoError E, Some 4, Some (to_le_bytes DEVICE_ID), d))
    \<and> get_property_data E (raw_driver_ptr E) DEVICE_ID (Some b) qs q 4 True (Some mem4) d =
        Inr (kAudioHardwareNoError E, Some 4, Some (to_le_bytes (PLUGIN_ID E)), d)
    \<and> (\<forall>x c. find_property_data E x c \<noteq> Inr (Inl False) \<longleftrightarrow>
         x = PLUGIN_ID E \<or> x = DEVICE_ID \<or> x \<in> set (STREAM_ID # ctrl_ids))"
proof (intro conjI ballI allI)
  fix x
  assume "x \<in> set (STREAM_ID # ctrl_ids)"
  from get_u32_property [OF find_owner(2) [OF assms(1,4) this] assms(6)]
  show "get_property_data E (raw_driver_ptr E) x (Some b) qs q 4 True (Some mem4) d =
      Inr (kAudioHardwareNoError E, Some 4, Some (to_le_bytes DEVICE_ID), d)" .
next
  fix x c
  show "find_property_data E x c \<noteq> Inr (Inl False) \<longleftrightarrow>
      x = PLUGIN_ID E \<or> x = DEVICE_ID \<or> x \<in> set (STREAM_ID # ctrl_ids)"
    by (rule find_property_data_known)
qed (rule get_owned_objects [OF assms(1-3,5)] get_u32_property [OF find_owner(1) [OF assms(1,4)] assms(6)])+

theorem object_tree_consistent_witness:
  "get_property_data numbered_env (raw_driver_ptr numbered_env) DEVICE_ID
      (Some \<lparr>mSelector = kAudioObjectPropertyOwnedObjects numbered_env,
             mScope = kAudioObjectPropertyScopeGlobal numbered_env, mElement = 0\<rparr>)
      0 None 140 True (Some (replicate 140 0)) (driver_init numbered_env []) =
    Inr (kAudioHardwareNoError numbered_env, Some 140, Some (concat (map to_le_bytes (STREAM_ID # ctrl_ids))),
         driver_init numbered_env [])"
  using object_tree_consistent [of numbered_env
      "\<lparr>mSelector = kAudioObjectPropertyOwnedObjects numbered_env,
        mScope = kAudioObjectPropertyScopeGlobal numbered_env, mElement = 0\<rparr>"
      "\<lparr>mSelector = kAudioObjectPropertyOwner numbered_env, mScope = 0, mElement = 0\<rparr>"
      "replicate 140 0" "replicate 4 0" 0 None "driver_init numbered_env []", OF numbered_env_ok]
  by (simp only: AudioObjectPropertyAddress.select_convs length_replicate simp_thms)

text \<open>
  In any other scope the same property announces 140 bytes and then writes none.
\<close>

lemma owned_objects_other_scope:
  assumes sys: "coreaudio_sys_ok E" and sel: "mSelector a = kAudioObjectPropertyOwnedObjects E"
    and scope: "mScope a \<noteq> kAudioObjectPropertyScopeGlobal E" "mScope a \<noteq> kAudioObjectPropertyScopeOutput E"
  shows "get_property_data_size E (raw_driver_ptr E) DEVICE_ID (Some a) True = Inr (kAudioHardwareNoError E, Some 140)"
    and "get_property_data E (raw_driver_ptr E) DEVICE_ID (Some a) qs q 140 True (Some mem) d =
      Inr (kAudioHardwareNoError E, Some 0, Some mem, d)"
proof -
  have "strict_mul N_DEVICE_OWNED_OBJS OBJECT_ID_SIZE = Inr 140" by (simp add: table_sizes)
  then show "get_property_data_size E (raw_driver_ptr E) DEVICE_ID (Some a) True = Inr (kAudioHardwareNoError E, Some 140)"
    "get_property_data E (raw_driver_ptr E) DEVICE_ID (Some a) qs q 140 True (Some mem) d =
      Inr (kAudioHardwareNoError E, Some 0, Some mem, d)"
    using scope by (simp_all add: get_by_entry [OF find_owned_objects [OF sys sel]] get_entry_data_def s_range_def
        get_property_data_size_def eq_driver_ptr_def find_owned_objects [OF sys sel] scoped_items_property_def)
qed

section \<open>The controls\<close>

lemma find_control_class:
  assumes sys: "coreaudio_sys_ok E" and c: "audio_object_is_control x" and sel: "mSelector a = kAudioObjectPropertyClass E"
  shows "find_property_data E x a = Inr (Inr (u32_property
    (if control_is_volume x then kAudioVolumeControlClassID E else kAudioMuteControlClassID E)))"
proof -
  from c obtain i where "control_index x = Inr i" by (rule control_index_ok)
  from find_control [OF sys c this, of a] sel sys show ?thesis
    by (auto simp: find_control_property_data_def volume_properties_def mute_properties_def coreaudio_sys_ok_def
        ok_or_def size_consts)
qed

lemma get_control_element:
  assumes sys: "coreaudio_sys_ok E" and c: "audio_object_is_control x" and sel: "mSelector a = kAudioControlPropertyElement E"
    and i: "control_channel_index x = Inr n" and mem: "length mem = 4"
  shows "get_property_data E (raw_driver_ptr E) x (Some a) qs q 4 True (Some mem) d =
    Inr (kAudioHardwareNoError E, Some 4, Some (to_le_bytes n), d)"
proof -
  from i have "control_index x = Inr (ucast n)" by (simp add: control_index_def)
  from find_control [OF sys c this, of a] sel sys have "find_property_data E x a =
    Inr (Inr \<lparr>get_data_size = \<lambda>_ _. s_range 4,
      write_data = Unneeded (\<lambda>obj _ _ _ _ mem d.
        rbind (control_channel_index obj) (\<lambda>ctrl_idx. put_once (to_le_bytes ctrl_idx) mem d)),
      read_data = None\<rparr>)"
    by (auto simp: find_control_property_data_def coreaudio_sys_ok_def ok_or_def)
  from get_by_entry [OF this] i mem show ?thesis
    by (simp add: get_entry_data_def s_range_def put_u32)
qed

text \<open>C22: The controls follow the numbering of the blueprint in the source. For the master (0) and for each channel n up to
  16, object 4 + 2 n is a mute control and object 5 + 2 n is a volume control, both say so
  by their class and give n as their element; and every control is one of these.\<close>

theorem controls_follow_blueprint:
  assumes "coreaudio_sys_ok E" and "mSelector a = kAudioObjectPropertyClass E"
    and "mSelector b = kAudioControlPropertyElement E" and "length mem = 4"
  shows "(\<forall>n \<le> 16. \<forall>ob \<in> {MuteControl n, VolumeControl n}.
      get_property_data E (raw_driver_ptr E) (of_nat (object_number ob)) (Some a) qs q 4 True (Some mem) d =
        Inr (kAudioHardwareNoError E, Some 4,
             Some (to_le_bytes (if ob = MuteControl n then kAudioMuteControlClassID E else kAudioVolumeControlClassID E)), d)
      \<and> get_property_data E (raw_driver_ptr E) (of_nat (object_number ob)) (Some b) qs q 4 True (Some mem) d =
        Inr (kAudioHardwareNoError E, Some 4, Some (to_le_bytes (of_nat n :: u32)), d))
    \<and> (\<forall>x. audio_object_is_control x \<longrightarrow> (\<exists>n \<le> 16. x = of_nat (object_number (MuteControl n)) \<or> x = of_nat (object_number (VolumeControl n))))"
proof (intro conjI allI impI ballI)
  fix n ob
  assume n: "n \<le> (16 :: nat)" and ob: "ob \<in> {MuteControl n, VolumeControl n}"
  let ?x = "of_nat (object_number ob) :: u32"
  have x: "audio_object_is_control ?x" "control_is_volume ?x \<longleftrightarrow> ob \<noteq> MuteControl n" "control_channel_index ?x = Inr (of_nat n)"
    using ob control_of_object [OF n] by (auto simp del: of_nat_add of_nat_mult of_nat_numeral)
  show "get_property_data E (raw_driver_ptr E) ?x (Some a) qs q 4 True (Some mem) d =
        Inr (kAudioHardwareNoError E, Some 4,
             Some (to_le_bytes (if ob = MuteControl n then kAudioMuteControlClassID E else kAudioVolumeControlClassID E)), d)"
    using get_u32_property [OF find_control_class [OF assms(1) x(1) assms(2)] assms(4)] x(2) by simp
  show "get_property_data E (raw_driver_ptr E) ?x (Some b) qs q 4 True (Some mem) d =
        Inr (kAudioHardwareNoError E, Some 4, Some (to_le_bytes (of_nat n :: u32)), d)"
    by (rule get_control_element [OF assms(1) x(1) assms(3) x(3) assms(4)])
next
  fix x :: u32
  assume "audio_object_is_control x"
  then obtain n where "n \<le> 16" "unat x = object_number (if control_is_volume x then VolumeControl n else MuteControl n)"
    by (rule control_cases)
  moreover have "x = of_nat (unat x)" by simp
  ultimately show "\<exists>n \<le> 16. x = of_nat (object_number (MuteControl n)) \<or> x = of_nat (object_number (VolumeControl n))"
    by (intro exI [of _ n]) (auto split: if_splits)
qed

theorem controls_follow_blueprint_witness:
  "get_property_data numbered_env (raw_driver_ptr numbered_env) (of_nat (object_number (VolumeControl 7)))
      (Some \<lparr>mSelector = kAudioControlPropertyElement numbered_env, mScope = 0, mElement = 0\<rparr>)
      0 None 4 True (Some [0, 0, 0, 0]) (driver_init numbered_env []) =
    Inr (kAudioHardwareNoError numbered_env, Some 4, Some (to_le_bytes (of_nat 7 :: u32)), driver_init numbered_env [])"
  using controls_follow_blueprint [of numbered_env
      "\<lparr>mSelector = kAudioObjectPropertyClass numbered_env, mScope = 0, mElement = 0\<rparr>"
      "\<lparr>mSelector = kAudioControlPropertyElement numbered_env, mScope = 0, mElement = 0\<rparr>"
      "[0, 0, 0, 0]" 0 None "driver_init numbered_env []", OF numbered_env_ok,
      THEN conjunct1, THEN spec, of 7, THEN mp, THEN bspec, of "VolumeControl 7"]
  by simp

section \<open>Addresses in the log\<close>

text \<open>
  A string is its bytes in UTF-8; \<open>str::from_utf8\<close> accepts the well-formed sequences of one
  to four bytes.
\<close>

definition utf8_cont :: "u8 \<Rightarrow> bool" where
  "utf8_cont b \<longleftrightarrow> 0x80 \<le> b \<and> b \<le> 0xBF"

fun utf8_valid :: "u8 list \<Rightarrow> bool" where
  "utf8_valid [] = True"
| "utf8_valid (a # bs) =
     (if a < 0x80 then utf8_valid bs
      else case bs of
        [] \<Rightarrow> False
      | b # cs \<Rightarrow>
          if 0xC2 \<le> a \<and> a \<le> 0xDF then utf8_cont b \<and> utf8_valid cs
          else case cs of
            [] \<Rightarrow> False
          | c # ds \<Rightarrow>
              if 0xE0 \<le> a \<and> a \<le> 0xEF then
                utf8_cont b \<and> utf8_cont c \<and> (a = 0xE0 \<longrightarrow> 0xA0 \<le> b) \<and> (a = 0xED \<longrightarrow> b \<le> 0x9F) \<and> utf8_valid ds
              else case ds of
                [] \<Rightarrow> False
              | d # es \<Rightarrow>
                  0xF0 \<le> a \<and> a \<le> 0xF4 \<and> utf8_cont b \<and> utf8_cont c \<and> utf8_cont d
                  \<and> (a = 0xF0 \<longrightarrow> 0x90 \<le> b) \<and> (a = 0xF4 \<longrightarrow> b \<le> 0x8F) \<and> utf8_valid es)"

definition u32_to_utf8 :: "u32 \<Rightarrow> unit + u8 list" where
  "u32_to_utf8 v =
     (let bytes = rev (to_le_bytes v)
      in if utf8_valid bytes then Inr bytes else Inl ())"

definition str_bytes :: "string \<Rightarrow> u8 list" where
  "str_bytes s = map of_char s"

definition PropAddr_fmt_part :: "AudioObjectPropertyAddress \<Rightarrow> u32 \<Rightarrow> u8 list" where
  "PropAddr_fmt_part addr v =
     (case u32_to_utf8 v of
        Inr string \<Rightarrow> string
      | Inl _ \<Rightarrow> str_bytes (decimal (unat (mSelector addr)))) @ str_bytes ''/''"

definition PropAddr_fmt :: "AudioObjectPropertyAddress \<Rightarrow> u8 list" where
  "PropAddr_fmt addr =
     str_bytes ''['' @ concat (map (PropAddr_fmt_part addr) [mSelector addr, mScope addr])
     @ str_bytes (decimal (unat (mElement addr))) @ str_bytes '']''"

text \<open>
  A scope that is not a text is logged as the number of the selector, so that addresses
  which differ in such a scope look the same in the log.
\<close>

lemma undecodable_scope: "u32_to_utf8 0xFF = Inl ()"
  by code_simp

lemma prop_addr_fmt_confuses_scopes:
  assumes "u32_to_utf8 (mScope a) = Inl x" "u32_to_utf8 v = Inl y"
  shows "PropAddr_fmt (a\<lparr>mScope := v\<rparr>) = PropAddr_fmt a"
  using assms by (simp add: PropAddr_fmt_def PropAddr_fmt_part_def split: sum.split)

end
