(* ===== verification/Spec2Isabelle.thy ===== *)
theory Spec2Isabelle
  imports Byte_Consumer Generic_Client Jack CoreAudio_Properties
begin

text \<open>
  A verification library for the Syfala audio-over-network crates (Rust, under \<open>src/\<close>).

  \<^bold>\<open>The program.\<close> Servers (audio hardware) and clients (drivers on user machines) exchange
  interleaved audio over UDP. \<open>syfala_proto\<close> defines formats and messages; \<open>syfala_network\<close>
  flattens and encodes the messages, wraps the sockets, runs the receive loops and keeps the
  client's state machine; \<open>syfala_utils\<close> moves samples between threads through ring buffers
  with stream indices and turns samples into packets of bytes and back; \<open>syfala_jack\<close>
  connects ring buffers to JACK ports; \<open>syfala_coreaudio\<close> is a macOS driver. A sample goes
  from a port through \<open>Interleaved::next\<close> and \<open>IndexedTx::send\<close> into a ring, through
  \<open>produce_packet\<close> into a datagram, on the other side through \<open>consume_packet\<close> into a
  ring, and through \<open>IndexedRx::recv\<close> to a port.

  \<^bold>\<open>The theories.\<close>
  \<^item> \<open>Rust_Prelude\<close>: integers at their width (\<open>usize\<close> is 64 bits), panics as the left side of
    a sum, \<open>strict_*\<close> and \<open>checked_*\<close> arithmetic, iterators as a state and a \<open>next\<close>
    function, and the simulation lemma that relates an iterator to the list it yields.
  \<^item> \<open>Counters\<close> (\<open>utils/queue.rs\<close>): \<open>GenericCounter\<close>, the \<open>Waker\<close> instances and
    \<open>PeriodicCounter\<close>, under the locales \<open>counter_laws\<close> and \<open>periodic_laws\<close>; the wakes of
    a periodic counter add up to the period boundaries crossed.
  \<^item> \<open>Indexed_Queue\<close> (\<open>utils/queue.rs\<close>): \<open>shift_iter\<close>, the counting read iterator with its
    \<open>Drop\<close>, \<open>IndexedRx\<close> and \<open>IndexedTx\<close>. Both endpoints keep every item at its own index
    of the stream, also over whole runs of a producer and a consumer (\<open>spsc_run\<close>).
  \<^item> \<open>Sample_Type\<close> (\<open>utils/sample_type.rs\<close>): the ten sample types, all instances of the
    locale \<open>sample_codec\<close>.
  \<^item> \<open>Byte_Producer\<close> (\<open>utils/byte_producer.rs\<close>): samples to packets; consecutive packets
    carry consecutive bytes of the sample stream.
  \<^item> \<open>Byte_Consumer\<close> (\<open>utils/byte_consumer.rs\<close>): packets to samples, as the code does it:
    reordered packets are dropped, gaps become silence, and completing a sample panics.
  \<^item> \<open>Proto\<close> (\<open>proto/format.rs\<close>, \<open>message.rs\<close>, \<open>lib.rs\<close>): formats, sample rates by bit
    pattern, headers and messages.
  \<^item> \<open>Wire\<close> (\<open>network/lib.rs\<close>): flat messages, discriminants, encoding and decoding, under
    the locale \<open>message_codec\<close>; nested and flat messages convert into each other without
    loss.
  \<^item> \<open>Udp\<close> (\<open>network/udp/client/mod.rs\<close>, \<open>udp/server/mod.rs\<close>): sockets, discovery beacon
    and receive loops; what the loops deliver and what \<open>send_msg\<close> really sends.
  \<^item> \<open>Generic_Client\<close> (\<open>network/udp/client/generic\<close>): the state machine of each server
    (a refinement of four phases), connections, deadlines and the timeout handler; the
    invariant of the reachable clients (\<open>gc_reach\<close>), the receive timeout, and polling
    against the requests that the application makes (\<open>poll_requests\<close>).
  \<^item> \<open>Jack\<close> (\<open>jack/interleaver.rs\<close>, \<open>jack/lib.rs\<close>): the interleaver over a memory of port
    buffers with every unsafe access guarded, and the process callback on top of
    \<open>Indexed_Queue\<close>.
  \<^item> \<open>CoreAudio_Volume\<close> (\<open>coreaudio/lib.rs\<close>, the functions from \<open>sq\<close> to \<open>db_to_norm\<close>): gain,
    decibels and normalised values over a record of \<open>f32\<close> operations; what is set is
    what is read, at the instance without rounding.
  \<^item> \<open>CoreAudio_Objects\<close> (identifiers, static variables, \<open>create\<close>, \<open>query_interface\<close>, \<open>add_ref\<close>,
    \<open>release\<close>, \<open>initialize\<close> and the device management): the state of the driver, the
    object numbers, and the reference count as the number of references held.
  \<^item> \<open>CoreAudio_IO\<close> (\<open>start_io\<close>, \<open>stop_io\<close>, \<open>get_zero_timestamp\<close> and the IO operations): every
    sequence of calls is answered as by a client counter and a clock that is computed
    directly (\<open>io_spec_run\<close>, related by the simulation \<open>io_sim\<close>).
  \<^item> \<open>CoreAudio_Tables\<close> (\<open>PropertyData\<close>, \<open>write_get_size\<close> and the four \<open>find_*_property_data\<close>):
    the entries over raw memory; the locale \<open>property_table\<close> is the contract of a table
    towards the handlers, interpreted for the plug-in, the device, the stream and the
    controls.
  \<^item> \<open>CoreAudio_Properties\<close> (\<open>find_property_data\<close>, \<open>has_property\<close>, \<open>is_property_settable\<close>,
    \<open>get_property_data_size\<close>, \<open>get_property_data\<close>, \<open>set_property_data\<close>, \<open>PropAddr\<close>): no access
    outside the host's buffers, setting agrees with the queries and with reading, and the
    object tree is consistent.

  The root theory composes \<open>Jack\<close>, \<open>Indexed_Queue\<close> and \<open>Byte_Producer\<close>: a process cycle and the
  packet produced after it, from the port buffers to the bytes of the datagram.

  A struct is a record, an enum a datatype, a method a definition with the state first and
  the updated state in its result. A result of type \<open>'a rust\<close> is \<open>Inl\<close> for a panic;
  \<open>std::io::Result\<close> is \<open>ErrorKind + 'a\<close> inside it. Closures that are called repeatedly are
  sequences of results.

  \<^bold>\<open>Parameters.\<close> Code that is not in the repository is an argument with its documented
  behaviour as a hypothesis: the ring buffer of crate \<open>rtrb\<close> (\<open>rtrb_producer_ok\<close>,
  \<open>rtrb_consumer_ok\<close>), the serializer of crate \<open>postcard\<close> (\<open>postcard_writes\<close>,
  \<open>postcard_reads\<close>), the queue of crate \<open>priority_queue\<close> (\<open>server_pq_ok\<close>), the operating
  system's sockets and clock (a world state), the ports of crate \<open>jack\<close>, the application's
  callbacks, and for the CoreAudio driver the constants of \<open>coreaudio_sys\<close>, the strings of
  CoreFoundation and the \<open>f32\<close> operations (\<open>coreaudio_env\<close>; \<open>coreaudio_sys_ok\<close> says that the
  selectors of one table differ). Each hypothesis has an instance in the library (\<open>ring8_producer\<close>,
  \<open>ring8_consumer\<close>, \<open>bytes_ser\<close>, \<open>bytes_de\<close>, \<open>list_pq\<close>, \<open>scripted_sock\<close>, \<open>timeout_sock\<close>, \<open>numbered_env\<close>), which the
  witnesses use. The iteration order of a hash map is an unknown function.

  \<^bold>\<open>Fuel and bounds.\<close> The receive loops and the beacon run for ever in the source; their models
  count iterations and return \<open>None\<close> when the count is used up, and the theorems say what
  holds for any count, or that a count above the number of receptions is enough. The expiry
  loop of the timeout handler and the zipped loop of the JACK receiver are partial functions
  whose termination is part of the theorems. Stream positions are bounded by \<open>2 ^ 64\<close> where
  the code uses strict arithmetic; the bounds are hypotheses of the theorems, and beyond them
  the definitions panic as the code does.

  \<^bold>\<open>Not modelled.\<close> \<open>Debug\<close> (but for \<open>PropAddr\<close>), \<open>Display\<close> and the derived orders; log messages; the
  bytes that \<open>serde\<close> derives (inside the \<open>postcard\<close> parameter); the memory model behind the
  ring buffer's two threads and behind the driver's relaxed atomics, whose calls are taken
  one at a time; the alignment of the host's buffers; the rounding of \<open>f32\<close>; and
  \<open>DRIVER_INTERFACE\<close>, a constant table of function addresses.
\<close>

section \<open>From the ports to the packets\<close>

lemma stream_at_cong:
  assumes "stream_at ops S st" and "\<And>k. k < cdiv (unat (sbs_byte_idx st)) (unat (SIZE ops)) \<Longrightarrow> T k = S k"
    and "0 < unat (SIZE ops)"
  shows "stream_at ops T st"
  using assms by (auto simp: stream_at_def cdiv_not_dvd)

text \<open>C5: The sending side end to end. When the ring between the JACK callback and the packet producer
  holds the stream up to the write position and has room for the cycle, a process cycle
  followed by a packet never panics, and the packet carries the next bytes of the stream
  that continues the old one by this cycle: sample \<open>k\<close> is the sample of port \<open>k mod n\<close> in
  frame \<open>k div n\<close> counted from the first cycle, silence for the frames that were missed, four
  bytes each in little-endian order.\<close>

theorem port_samples_reach_packets:
  assumes "counter_laws advance current" and "rtrb_producer_ok P items cap" and "rtrb_consumer_ok C items chunk rest"
    and "ports = map fst (il_ptrs (jtx_interleaver jtx))" and "n = length ports" and "0 < n" and "n < 2 ^ 32"
    and "F = unat (n_frames scope)" and "\<forall>p \<in> set ports. length (mem p) = F"
    and "i = unat frame_idx * n" and "c = unat (current (itx_counter (jtx_tx jtx)))"
    and "checked_signed_diff (current (itx_counter (jtx_tx jtx))) (of_nat i) \<noteq> None"
    and "c \<le> i + F * n" and "i + F * n - c \<le> unat (tx_slots P (itx_tx (jtx_tx jtx)))"
    and "c + unat (tx_slots P (itx_tx (jtx_tx jtx))) < 2 ^ 64" and "(i + F * n) * 4 < 2 ^ 64"
    and "stream_at f32_sample S framer" and "b = unat (sbs_byte_idx framer)"
    and "items (itx_tx (jtx_tx jtx)) = map S [cdiv b 4..<c]" and "cdiv b 4 \<le> c"
    and "T = (\<lambda>k. if k < c then S k else if k < i then 0 else mem (ports ! (k mod n)) ! (k div n - unat frame_idx))"
  shows "\<exists>jtx' self'. process_tx advance current P scope mem frame_idx jtx = Inr jtx'
    \<and> packet_take f32_sample C \<lparr>ias_source = itx_tx (jtx_tx jtx'), ias_framer = framer\<rparr> k =
        Inr (sbs_byte_idx framer, map (stream_byte f32_sample T) [b..<min (b + k) ((i + F * n) * 4)], self')
    \<and> stream_at f32_sample T (ias_framer self')
    \<and> items (ias_source self') = map T [cdiv (min (b + k) ((i + F * n) * 4)) 4..<i + F * n]"
proof -
  have w: "unat (SIZE f32_sample) = 4" by (simp add: f32_sample_def)
  have "i * 1 \<le> (i + F * n) * 4" by (rule mult_le_mono) simp_all
  then have i64: "i < 2 ^ 64" using assms(16) by linarith
  from process_tx_spec [OF assms(1,2,4-10) i64 assms(11,12,15)] obtain jtx' pushed where
    tx: "process_tx advance current P scope mem frame_idx jtx = Inr jtx'"
      "items (itx_tx (jtx_tx jtx')) = map S [cdiv b 4..<c] @ pushed" "length pushed = i + F * n - c"
    and pushed: "\<And>j. j < length pushed \<Longrightarrow> pushed ! j =
        (if c + j < i then 0 else mem (ports ! ((c + j) mod n)) ! ((c + j) div n - unat frame_idx))"
    using assms(14,19) by auto
  have "pushed = map T [c..<i + F * n]"
    using tx(3) pushed by (intro nth_equalityI) (auto simp: assms(21))
  moreover have "map S [cdiv b 4..<c] = map T [cdiv b 4..<c]" by (simp add: assms(21))
  moreover have "[cdiv b 4..<c] @ [c..<i + F * n] = [cdiv b 4..<i + F * n]"
    using upt_add_eq_append [of "cdiv b 4" c "i + F * n - c"] assms(13,20) by simp
  ultimately have ring: "items (itx_tx (jtx_tx jtx')) = map T [cdiv b 4..<i + F * n]"
    using tx(2) by (metis map_append)
  have at: "stream_at f32_sample T framer"
    using assms(18,20) by (intro stream_at_cong [OF assms(17)]) (auto simp: w assms(21))
  have "cdiv b 4 \<le> i + F * n" using assms(13,20) by linarith
  with packet_take_spec [where self = "\<lparr>ias_source = itx_tx (jtx_tx jtx'), ias_framer = framer\<rparr>" and i = b and k = k
      and e = "i + F * n" and S = T, OF f32.sample_codec_axioms assms(3)] ring at assms(16,18) tx(1)
  show ?thesis by (auto simp: w)
qed

text \<open>Two ports with two frames each, and a packet of six bytes.\<close>

theorem port_samples_reach_packets_witness:
  "\<exists>jtx' self'. process_tx GenericCounter_advance GenericCounter_current ring8_producer
      \<lparr>n_frames = 2, last_frame_time = 0\<rparr> (\<lambda>p. if p = CHR ''l'' then [1, 3] else [2, 4]) 0
      \<lparr>jtx_interleaver = \<lparr>il_ptrs = [(CHR ''l'', Dangling), (CHR ''r'', Dangling)]\<rparr>,
       jtx_tx = IndexedTx_new [] GenericCounter_new\<rparr> = Inr jtx'
    \<and> packet_take f32_sample ring8_consumer
        \<lparr>ias_source = itx_tx (jtx_tx jtx'), ias_framer = SampleByteStream_new f32_sample\<rparr> 6 =
        Inr (0, map (stream_byte f32_sample (\<lambda>k. (if ''lr'' ! (k mod 2) = CHR ''l'' then [1, 3] else [2, 4]) ! (k div 2))) [0..<6], self')"
proof -
  let ?P = "ring8_producer :: (u32 list, u32 list \<times> nat, char Interleaved ShiftIter, u32) rtrb_producer"
  let ?mem = "\<lambda>p. if p = CHR ''l'' then [1 :: u32, 3] else [2, 4]"
  define jtx where "jtx = \<lparr>jtx_interleaver = \<lparr>il_ptrs = [(CHR ''l'', Dangling), (CHR ''r'', Dangling)]\<rparr>,
       jtx_tx = IndexedTx_new ([] :: u32 list) GenericCounter_new\<rparr>"
  let ?framer = "SampleByteStream_new f32_sample"
  have fields: "''lr'' = map fst (il_ptrs (jtx_interleaver jtx))" "itx_tx (jtx_tx jtx) = []"
    "GenericCounter_current (itx_counter (jtx_tx jtx)) = 0"
    by (simp_all add: jtx_def IndexedTx_new_def GenericCounter_new_def GenericCounter_current_def)
  have slots: "unat (tx_slots ?P ([] :: u32 list)) = 8" "ring8_items ([] :: u32 list) = []"
    by (simp_all add: ring8_producer_def ring8_items_def)
  have framer: "stream_at f32_sample (\<lambda>_. 0) ?framer" "sbs_byte_idx ?framer = 0"
    by (simp_all add: stream_at_def SampleByteStream_new_def)
  define T where "T = (\<lambda>k. ?mem (''lr'' ! (k mod 2)) ! (k div 2))"
  have "\<exists>jtx' self'. process_tx GenericCounter_advance GenericCounter_current ?P
      \<lparr>n_frames = 2, last_frame_time = 0\<rparr> ?mem 0 jtx = Inr jtx'
    \<and> packet_take f32_sample ring8_consumer \<lparr>ias_source = itx_tx (jtx_tx jtx'), ias_framer = ?framer\<rparr> 6 =
        Inr (sbs_byte_idx ?framer, map (stream_byte f32_sample T) [0..<min (0 + 6) ((0 + 2 * 2) * 4)], self')
    \<and> stream_at f32_sample T (ias_framer self')
    \<and> ring8_items (ias_source self') = map T [cdiv (min (0 + 6) ((0 + 2 * 2) * 4)) 4..<0 + 2 * 2]"
    by (rule port_samples_reach_packets [OF generic.counter_laws_axioms ring8_producer_ok ring8_consumer_ok fields(1),
          where F = 2 and S = "\<lambda>_. 0" and T = T and n = 2 and i = 0 and c = 0 and b = 0])
      (simp_all add: fields(2,3) slots framer checked_signed_diff_def cdiv_def T_def)
  then show ?thesis unfolding jtx_def framer(2) T_def by auto
qed

end
